(* ===== verification/Prelude.thy ===== *)
theory Prelude
  imports Main "HOL-Library.Word"
begin

text \<open>
  What every component of the development shares: the machine integer types, the ways a
  C++ operation of skynetCpp can fail to return normally, the error-propagating bind that
  sequences such operations, byte copies with their bounds, and list lemmas about updates
  in place.
\<close>

unbundle bit_operations_syntax

section \<open>Machine integers\<close>

type_synonym u8 = "8 word"
type_synonym u16 = "16 word"
type_synonym u32 = "32 word"
type_synonym u64 = "64 word"

section \<open>Faults and sequencing\<close>

text \<open>
  A fault is a point where the C++ program does not go on as written: a failed
  \<open>assert\<close>, a spin lock that is waited for while its holder cannot release it, or a step
  whose behaviour the language leaves undefined (each kind is kept apart, so that a theorem
  says which one happens). \<open>Blocked\<close> is a call into the operating system that has not been
  answered.
\<close>

datatype fault =
    AssertionFailed
  | Deadlock
  | NullDereference
  | OutOfBounds
  | DanglingPointer
  | UninitialisedRead
  | SignedOverflow
  | TypeConfusion
  | Exception
  | Blocked

type_synonym 'a res = "fault + 'a"

definition bindR :: "'a res \<Rightarrow> ('a \<Rightarrow> 'b res) \<Rightarrow> 'b res" where
  "bindR m f = (case m of Inl e \<Rightarrow> Inl e | Inr x \<Rightarrow> f x)"

definition assertR :: "bool \<Rightarrow> unit res" where
  "assertR b = (if b then Inr () else Inl AssertionFailed)"

lemma bindR_simps [simp]:
  "bindR (Inl e) f = Inl e"
  "bindR (Inr x) f = f x"
  by (simp_all add: bindR_def)

text \<open>
  A computation that may also never return is an option: \<open>None\<close> is a loop that does not end.
\<close>

definition bindO :: "'a res option \<Rightarrow> ('a \<Rightarrow> 'b res option) \<Rightarrow> 'b res option" where
  "bindO m f = (case m of None \<Rightarrow> None | Some (Inl e) \<Rightarrow> Some (Inl e) | Some (Inr x) \<Rightarrow> f x)"

lemma bindO_simps [simp]:
  "bindO None f = None"
  "bindO (Some (Inl e)) f = Some (Inl e)"
  "bindO (Some (Inr x)) f = f x"
  by (simp_all add: bindO_def)

lemma bindO_Some_iff: "bindO m f = Some (Inr y) \<longleftrightarrow> (\<exists>x. m = Some (Inr x) \<and> f x = Some (Inr y))"
  by (auto simp: bindO_def split: option.splits sum.splits)

lemma bindR_cong [fundef_cong]:
  assumes "m = m'" and "\<And>x. m' = Inr x \<Longrightarrow> f x = f' x"
  shows "bindR m f = bindR m' f'"
  using assms by (cases m') simp_all

lemma bindR_Inr_iff: "bindR m f = Inr y \<longleftrightarrow> (\<exists>x. m = Inr x \<and> f x = Inr y)"
  by (cases m) simp_all

lemma bindR_Inl_iff: "bindR m f = Inl e \<longleftrightarrow> m = Inl e \<or> (\<exists>x. m = Inr x \<and> f x = Inl e)"
  by (cases m) simp_all

lemma assertR_simps [simp]:
  "b \<Longrightarrow> assertR b = Inr ()"
  "\<not> b \<Longrightarrow> assertR b = Inl AssertionFailed"
  by (simp_all add: assertR_def)

lemma assertR_Inr_iff [simp]: "assertR b = Inr u \<longleftrightarrow> b"
  by (simp add: assertR_def)

section \<open>Copies of bytes\<close>

text \<open>\<open>memcpy (dst, buf + off, n)\<close>: the copied bytes, or the fault of reading past them.\<close>

definition memcpy_from :: "u8 list \<Rightarrow> int \<Rightarrow> int \<Rightarrow> u8 list res" where
  "memcpy_from buf off n =
     (if 0 \<le> off \<and> 0 \<le> n \<and> off + n \<le> int (length buf)
      then Inr (take (nat n) (drop (nat off) buf)) else Inl OutOfBounds)"

lemma memcpy_from_nat [simp]:
  "i + n \<le> length buf \<Longrightarrow> memcpy_from buf (int i) (int n) = Inr (take n (drop i buf))"
  by (simp add: memcpy_from_def)

section \<open>Arrays\<close>

text \<open>\<open>xs[i]\<close> of an array or a \<open>std::vector\<close>, read and written within its bounds or not at all.\<close>

definition nthR :: "'a list \<Rightarrow> int \<Rightarrow> 'a res" where
  "nthR xs i = (if 0 \<le> i \<and> i < int (length xs) then Inr (xs ! nat i) else Inl OutOfBounds)"

definition updR :: "'a list \<Rightarrow> int \<Rightarrow> 'a \<Rightarrow> 'a list res" where
  "updR xs i x = (if 0 \<le> i \<and> i < int (length xs) then Inr (xs[nat i := x]) else Inl OutOfBounds)"

lemma nthR_nat [simp]: "i < length xs \<Longrightarrow> nthR xs (int i) = Inr (xs ! i)"
  by (simp add: nthR_def)

lemma updR_nat [simp]: "i < length xs \<Longrightarrow> updR xs (int i) x = Inr (xs[i := x])"
  by (simp add: updR_def)

lemma nthR_Inr: "nthR xs i = Inr x \<longleftrightarrow> 0 \<le> i \<and> i < int (length xs) \<and> x = xs ! nat i"
  by (auto simp: nthR_def)

lemma filter_list_update:
  "i < length xs \<Longrightarrow> P (xs ! i) \<Longrightarrow> \<not> P x \<Longrightarrow>
     Suc (length (filter P (xs[i := x]))) = length (filter P xs)"
  "i < length xs \<Longrightarrow> \<not> P (xs ! i) \<Longrightarrow> P x \<Longrightarrow>
     length (filter P (xs[i := x])) = Suc (length (filter P xs))"
  by (induction xs arbitrary: i) (auto split: nat.split simp: nth_Cons')

section \<open>Big-endian integers\<close>

text \<open>
  The two expressions with which the sources assemble an integer from bytes,
  \<open>p[0] << 24 | p[1] << 16 | p[2] << 8 | p[3]\<close> and \<open>p[0] << 8 | p[1]\<close>, in 32 bits.
\<close>

definition be32 :: "u8 \<Rightarrow> u8 \<Rightarrow> u8 \<Rightarrow> u8 \<Rightarrow> u32" where
  "be32 a b c d =
     push_bit 24 (ucast a) OR push_bit 16 (ucast b) OR push_bit 8 (ucast c) OR ucast d"

definition be16 :: "u8 \<Rightarrow> u8 \<Rightarrow> u32" where
  "be16 a b = push_bit 8 (ucast a) OR ucast b"

lemma bit_u8: "bit (x :: u8) n \<Longrightarrow> n < 8"
  by (auto dest: bit_imp_le_length)

lemma or_eq_plus: "(\<And>n. \<not> bit a n \<or> \<not> bit b n) \<Longrightarrow> a OR b = a + (b :: 'a::len word)"
  by (simp add: disjunctive_add)

lemma be32_sum: "be32 a b c d =
    push_bit 24 (ucast a) + (push_bit 16 (ucast b) + (push_bit 8 (ucast c) + ucast d))"
proof -
  let ?a = "push_bit 24 (ucast a) :: u32" and ?b = "push_bit 16 (ucast b) :: u32"
  let ?c = "push_bit 8 (ucast c) :: u32" and ?d = "ucast d :: u32"
  have "?c OR ?d = ?c + ?d" by (rule or_eq_plus) (auto simp: bit_simps dest!: bit_u8)
  moreover have "?b OR (?c OR ?d) = ?b + (?c OR ?d)"
    by (rule or_eq_plus) (auto simp: bit_simps dest!: bit_u8)
  moreover have "?a OR (?b OR (?c OR ?d)) = ?a + (?b OR (?c OR ?d))"
    by (rule or_eq_plus) (auto simp: bit_simps dest!: bit_u8)
  ultimately show ?thesis by (simp add: be32_def or.assoc)
qed

lemma be16_sum: "be16 a b = push_bit 8 (ucast a) + ucast b"
  unfolding be16_def by (rule or_eq_plus) (auto simp: bit_simps dest!: bit_u8)

lemma shifted_u8: "push_bit k (ucast (x :: u8)) = (word_of_int (uint x * 2 ^ k) :: u32)"
  apply (simp add: push_bit_eq_mult)
  done

lemma uint_u8: "0 \<le> uint (x :: u8)" "uint (x :: u8) < 256"
  using uint_lt2p [of x] by simp_all

lemma uint_of_int_u32: "0 \<le> k \<Longrightarrow> k < 2 ^ 32 \<Longrightarrow> uint (word_of_int k :: u32) = k"
  by (simp add: uint_word_of_int_eq take_bit_int_eq_self)

lemma uint_be32: "uint (be32 a b c d) = uint a * 2^24 + uint b * 2^16 + uint c * 2^8 + uint d"
proof -
  let ?s = "uint a * 2^24 + uint b * 2^16 + uint c * 2^8 + uint d"
  have "be32 a b c d = word_of_int ?s"
    unfolding be32_sum shifted_u8 by (simp add: add.assoc)
  moreover have "0 \<le> ?s" "?s < 2 ^ 32"
    using uint_u8 [of a] uint_u8 [of b] uint_u8 [of c] uint_u8 [of d] by simp_all
  ultimately show ?thesis by (simp only: uint_of_int_u32)
qed

lemma uint_be16: "uint (be16 a b) = uint a * 2^8 + uint b"
proof -
  let ?s = "uint a * 2^8 + uint b"
  have "be16 a b = word_of_int ?s"
    unfolding be16_sum shifted_u8 by simp
  moreover have "0 \<le> ?s" "?s < 2 ^ 32"
    using uint_u8 [of a] uint_u8 [of b] by simp_all
  ultimately show ?thesis by (simp only: uint_of_int_u32)
qed

lemma sint_u32: "sint (w :: u32) = (if uint w < 2 ^ 31 then uint w else uint w - 2 ^ 32)"
proof -
  have r: "uint w < 2 ^ 32" "0 \<le> uint w" using uint_lt2p [of w] by simp_all
  have "(uint w + 2 ^ 31) mod 2 ^ 32 = uint w - 2 ^ 31" if "\<not> uint w < 2 ^ 31"
    using that r mod_add_self2 [of "uint w - 2 ^ 31" "2 ^ 32"]
    by (simp add: add.commute del: mod_add_self2)
  with r show ?thesis
    by (simp add: sint_uint signed_take_bit_eq_take_bit_shift take_bit_eq_mod)
qed

lemma be16_nonneg: "sint (be16 a b) = uint a * 256 + uint b"
  using uint_u8 [of a] uint_u8 [of b] by (simp add: sint_u32 uint_be16)

lemma sint_be32:
  "sint (be32 a b c d) =
     (if uint a < 128 then 0 else - (2 ^ 32)) +
     (uint a * 2 ^ 24 + uint b * 2 ^ 16 + uint c * 2 ^ 8 + uint d)"
proof -
  let ?s = "uint a * 2 ^ 24 + uint b * 2 ^ 16 + uint c * 2 ^ 8 + uint d"
  have "uint a * 16777216 + uint b * 65536 + uint c * 256 + uint d < 2147483648 \<longleftrightarrow> uint a < 128"
    using uint_u8 [of a] uint_u8 [of b] uint_u8 [of c] uint_u8 [of d] by linarith
  then have "?s < 2 ^ 31 \<longleftrightarrow> uint a < 128" by simp
  then show ?thesis by (simp add: sint_u32 uint_be32)
qed

end
