(* ===== verification/Databuffer.thy ===== *)
theory Databuffer
  imports Prelude "HOL-Library.Multiset"
begin

text \<open>
  \<open>service-src/databuffer.h\<close>: the receive buffer of one gate connection. A
  \<open>struct databuffer\<close> is a singly linked queue of \<open>struct message\<close> blocks with a read
  offset into the first one; the blocks come from a \<open>struct messagepool\<close>, which allocates
  them \<open>MESSAGEPOOL\<close> at a time and keeps the unused ones on a free list.

  The chain \<open>head\<close>, \<open>head->next\<close>, ..., \<open>tail\<close> is the list \<open>db_msgs\<close>; each block keeps the
  address of its node, so that the free list (a list of addresses) and the chain can be
  told apart. Nodes are numbered: node \<open>i\<close> of the \<open>b\<close>-th pool array is \<open>b * MESSAGEPOOL + i\<close>.
\<close>

section \<open>Data\<close>

record message =
  msg_addr :: nat
  msg_buffer :: "u8 list"
  msg_size :: int

record databuffer =
  db_header :: int
  db_offset :: int
  db_size :: int
  db_msgs :: "message list"

record messagepool =
  mp_blocks :: nat
  mp_freelist :: "nat list"

definition MESSAGEPOOL :: nat where
  "MESSAGEPOOL = 1023"

lemma MESSAGEPOOL_pos [simp]: "0 < MESSAGEPOOL"
  by (simp add: MESSAGEPOOL_def)

definition databuffer_zero :: databuffer where
  "databuffer_zero = \<lparr>db_header = 0, db_offset = 0, db_size = 0, db_msgs = []\<rparr>"

section \<open>Operations\<close>

definition messagepool_free :: "messagepool \<Rightarrow> messagepool" where
  "messagepool_free mp = mp\<lparr>mp_blocks := 0, mp_freelist := []\<rparr>"

definition return_message :: "databuffer \<Rightarrow> messagepool \<Rightarrow> (databuffer \<times> messagepool) res" where
  "return_message db mp =
     (case db_msgs db of
        [] \<Rightarrow> Inl NullDereference
      | m # ms \<Rightarrow> Inr (db\<lparr>db_msgs := ms\<rparr>, mp\<lparr>mp_freelist := msg_addr m # mp_freelist mp\<rparr>))"

lemma return_message_length:
  "return_message db mp = Inr (db', mp') \<Longrightarrow> length (db_msgs db') < length (db_msgs db)"
  by (auto simp: return_message_def split: list.splits)

text \<open>The \<open>for (;;)\<close> of \<open>databuffer_read\<close>; \<open>out\<close> is what has been copied to the caller.\<close>

function databuffer_read_loop ::
  "databuffer \<Rightarrow> messagepool \<Rightarrow> u8 list \<Rightarrow> int \<Rightarrow> (databuffer \<times> messagepool \<times> u8 list) res" where
  "databuffer_read_loop db mp out sz =
     (case db_msgs db of
        [] \<Rightarrow> Inl NullDereference
      | current # rest \<Rightarrow>
          (let bsz = msg_size current - db_offset db in
           if bsz > sz then
             bindR (memcpy_from (msg_buffer current) (db_offset db) sz) (\<lambda>bs.
               Inr (db\<lparr>db_offset := db_offset db + sz\<rparr>, mp, out @ bs))
           else if bsz = sz then
             bindR (memcpy_from (msg_buffer current) (db_offset db) sz) (\<lambda>bs.
             bindR (return_message (db\<lparr>db_offset := 0\<rparr>) mp) (\<lambda>(db', mp').
               Inr (db', mp', out @ bs)))
           else
             bindR (memcpy_from (msg_buffer current) (db_offset db) bsz) (\<lambda>bs.
             bindR (return_message db mp) (\<lambda>(db', mp').
               databuffer_read_loop (db'\<lparr>db_offset := 0\<rparr>) mp' (out @ bs) (sz - bsz)))))"
  by pat_completeness auto
termination
  by (relation "measure (\<lambda>(db, mp, out, sz). length (db_msgs db))")
     (auto dest: return_message_length)

declare databuffer_read_loop.simps [simp del]

definition databuffer_read ::
  "databuffer \<Rightarrow> messagepool \<Rightarrow> int \<Rightarrow> (databuffer \<times> messagepool \<times> u8 list) res" where
  "databuffer_read db mp sz =
     bindR (assertR (db_size db \<ge> sz)) (\<lambda>_.
       databuffer_read_loop (db\<lparr>db_size := db_size db - sz\<rparr>) mp [] sz)"

definition alloc_message :: "messagepool \<Rightarrow> nat \<times> messagepool" where
  "alloc_message mp =
     (case mp_freelist mp of
        m # rest \<Rightarrow> (m, mp\<lparr>mp_freelist := rest\<rparr>)
      | [] \<Rightarrow>
          (let base = mp_blocks mp * MESSAGEPOOL in
           (base, mp\<lparr>mp_blocks := Suc (mp_blocks mp),
                     mp_freelist := [base + 1 ..< base + MESSAGEPOOL]\<rparr>)))"

definition databuffer_push ::
  "databuffer \<Rightarrow> messagepool \<Rightarrow> u8 list \<Rightarrow> int \<Rightarrow> databuffer \<times> messagepool" where
  "databuffer_push db mp data sz =
     (let (a, mp') = alloc_message mp;
          m = \<lparr>msg_addr = a, msg_buffer = data, msg_size = sz\<rparr>
      in (db\<lparr>db_size := db_size db + sz, db_msgs := db_msgs db @ [m]\<rparr>, mp'))"

text \<open>
  The header bytes are assembled as the C expression does: every byte is promoted to
  \<open>int\<close>, shifted and combined in 32 bits, and stored in the signed field \<open>header\<close>.
\<close>

definition header_value :: "int \<Rightarrow> u8 list \<Rightarrow> int" where
  "header_value header_size plen =
     (if header_size = 2 then sint (be16 (plen ! 0) (plen ! 1))
      else sint (be32 (plen ! 0) (plen ! 1) (plen ! 2) (plen ! 3)))"

definition databuffer_readheader ::
  "databuffer \<Rightarrow> messagepool \<Rightarrow> int \<Rightarrow> (databuffer \<times> messagepool \<times> int) res" where
  "databuffer_readheader db mp header_size =
     bindR (if db_header db = 0 then
              if db_size db < header_size then Inr (db, mp, False)
              else bindR (databuffer_read db mp header_size) (\<lambda>(db', mp', plen).
                Inr (db'\<lparr>db_header := header_value header_size plen\<rparr>, mp', True))
            else Inr (db, mp, True)) (\<lambda>(db', mp', have_header).
       if \<not> have_header then Inr (db', mp', -1)
       else if db_size db' < db_header db' then Inr (db', mp', -1)
       else Inr (db', mp', db_header db'))"

definition databuffer_reset :: "databuffer \<Rightarrow> databuffer" where
  "databuffer_reset db = db\<lparr>db_header := 0\<rparr>"

text \<open>\<open>while (db->head) _return_message (db, mp);\<close> then \<open>memset (db, 0, sizeof *db)\<close>.\<close>

fun clear_messages :: "message list \<Rightarrow> messagepool \<Rightarrow> messagepool" where
  "clear_messages [] mp = mp"
| "clear_messages (m # ms) mp = clear_messages ms (mp\<lparr>mp_freelist := msg_addr m # mp_freelist mp\<rparr>)"

definition databuffer_clear :: "databuffer \<Rightarrow> messagepool \<Rightarrow> databuffer \<times> messagepool" where
  "databuffer_clear db mp = (databuffer_zero, clear_messages (db_msgs db) mp)"

section \<open>Invariant and abstraction\<close>

text \<open>
  The bytes a buffer still holds, in order, and what every operation keeps: block sizes are
  the lengths of the blocks, the read offset lies inside the first block (or is 0), and
  \<open>size\<close> counts the bytes that are left.
\<close>

definition pending :: "databuffer \<Rightarrow> u8 list" where
  "pending db = drop (nat (db_offset db)) (concat (map msg_buffer (db_msgs db)))"

definition chain_ok :: "databuffer \<Rightarrow> bool" where
  "chain_ok db \<longleftrightarrow>
     list_all (\<lambda>m. msg_size m = int (length (msg_buffer m))) (db_msgs db) \<and>
     0 \<le> db_offset db \<and>
     (db_offset db = 0 \<or>
      (case db_msgs db of [] \<Rightarrow> False | m # _ \<Rightarrow> db_offset db < int (length (msg_buffer m))))"

definition databuffer_ok :: "databuffer \<Rightarrow> bool" where
  "databuffer_ok db \<longleftrightarrow> chain_ok db \<and> db_size db = int (length (pending db))"

text \<open>
  The node discipline: the nodes in use by this buffer, those in use elsewhere (\<open>others\<close>) and
  those on the free list are together exactly the nodes of the allocated arrays, each once.
\<close>

definition nodes :: "databuffer \<Rightarrow> nat multiset" where
  "nodes db = mset (map msg_addr (db_msgs db))"

definition pool_ok :: "nat multiset \<Rightarrow> databuffer \<Rightarrow> messagepool \<Rightarrow> bool" where
  "pool_ok others db mp \<longleftrightarrow>
     nodes db + mset (mp_freelist mp) + others = mset [0 ..< mp_blocks mp * MESSAGEPOOL]"

lemmas databuffer_defs = pending_def chain_ok_def databuffer_ok_def nodes_def pool_ok_def

text \<open>The two counters take no part in the chain.\<close>

lemma counters_frame [simp]:
  "pending (db\<lparr>db_size := n\<rparr>) = pending db" "pending (db\<lparr>db_header := h\<rparr>) = pending db"
  "chain_ok (db\<lparr>db_size := n\<rparr>) = chain_ok db" "chain_ok (db\<lparr>db_header := h\<rparr>) = chain_ok db"
  "nodes (db\<lparr>db_size := n\<rparr>) = nodes db" "nodes (db\<lparr>db_header := h\<rparr>) = nodes db"
  "databuffer_ok (db\<lparr>db_header := h\<rparr>) = databuffer_ok db"
  "pool_ok others (db\<lparr>db_header := h\<rparr>) mp = pool_ok others db mp"
  by (simp_all add: databuffer_defs split: list.split)

section \<open>What the operations do\<close>

lemma read_loop_ok:
  assumes "chain_ok db" and "0 < n" and "n \<le> length (pending db)"
  shows "\<exists>db' mp'. databuffer_read_loop db mp out (int n) = Inr (db', mp', out @ take n (pending db)) \<and>
           pending db' = drop n (pending db) \<and> chain_ok db' \<and>
           db_size db' = db_size db \<and> db_header db' = db_header db \<and>
           nodes db' + mset (mp_freelist mp') = nodes db + mset (mp_freelist mp) \<and>
           mp_blocks mp' = mp_blocks mp"
  using assms
proof (induction "length (db_msgs db)" arbitrary: db mp out n)
  case 0
  then show ?case by (simp add: pending_def)
next
  case (Suc k)
  from Suc.hyps(2) obtain m ms where msgs: "db_msgs db = m # ms" and k: "k = length ms"
    by (cases "db_msgs db") auto
  define off where "off = nat (db_offset db)"
  define buf where "buf = msg_buffer m"
  from Suc.prems(1) msgs have off: "db_offset db = int off" and size: "msg_size m = int (length buf)"
    and offle: "off = 0 \<or> off < length buf"
    and ms_ok: "list_all (\<lambda>m. msg_size m = int (length (msg_buffer m))) ms"
    by (auto simp: chain_ok_def off_def buf_def)
  have pend: "pending db = drop off buf @ concat (map msg_buffer ms)"
    using offle by (auto simp: pending_def off_def buf_def msgs)
  note unfold = databuffer_read_loop.simps [of db mp out "int n"]
  let ?mp = "mp\<lparr>mp_freelist := msg_addr m # mp_freelist mp\<rparr>"
  let ?db = "db\<lparr>db_msgs := ms, db_offset := 0\<rparr>"
  have le: "off \<le> length buf"
    using offle by auto
  have db': "chain_ok ?db" "pending ?db = concat (map msg_buffer ms)"
    "nodes ?db + mset (mp_freelist ?mp) = nodes db + mset (mp_freelist mp)"
    using ms_ok by (simp_all add: chain_ok_def pending_def nodes_def msgs)
  consider (lt) "n < length buf - off" | (eq) "n = length buf - off" | (gt) "n > length buf - off"
    by linarith
  then show ?case
  proof cases
    case lt
    then have "int n < int (length buf) - int off" by linarith
    with lt have "databuffer_read_loop db mp out (int n) =
        Inr (db\<lparr>db_offset := int (off + n)\<rparr>, mp, out @ take n (drop off buf))"
      by (simp add: unfold msgs off size buf_def [symmetric] Let_def)
    moreover have "pending (db\<lparr>db_offset := int (off + n)\<rparr>) = drop n (pending db)"
      using lt by (simp add: pend) (simp add: pending_def msgs buf_def nat_int_add add.commute)
    moreover have "chain_ok (db\<lparr>db_offset := int (off + n)\<rparr>)"
      using lt ms_ok size by (auto simp: chain_ok_def msgs buf_def [symmetric])
    moreover have "take n (pending db) = take n (drop off buf)"
      using lt by (simp add: pend)
    ultimately show ?thesis by (simp add: nodes_def)
  next
    case eq
    then have len: "length buf = off + n" using le by linarith
    then have "databuffer_read_loop db mp out (int n) = Inr (?db, ?mp, out @ take n (drop off buf))"
      by (subst unfold) (simp add: msgs off size buf_def [symmetric] Let_def return_message_def)
    with eq db' show ?thesis by (auto simp: pend)
  next
    case gt
    let ?n = "n - (length buf - off)"
    obtain d e where len: "length buf = off + d" and n: "n = d + e" "0 < e"
      using gt le by (metis le_Suc_ex less_imp_le_nat add_diff_cancel_left' zero_less_diff)
    then have step: "databuffer_read_loop db mp out (int n) =
        databuffer_read_loop ?db ?mp (out @ drop off buf) (int ?n)"
      by (subst unfold) (simp add: msgs off size buf_def [symmetric] Let_def return_message_def)
    have "?n \<le> length (pending ?db)" using Suc.prems(3) gt by (simp add: db' pend)
    with Suc.hyps(1) [of ?db ?n ?mp "out @ drop off buf"] db' gt k obtain db1 mp1 where
      "databuffer_read_loop ?db ?mp (out @ drop off buf) (int ?n) =
         Inr (db1, mp1, (out @ drop off buf) @ take ?n (pending ?db))"
      "pending db1 = drop ?n (pending ?db)" "chain_ok db1" "db_size db1 = db_size db"
      "db_header db1 = db_header db" "mp_blocks mp1 = mp_blocks mp"
      "nodes db1 + mset (mp_freelist mp1) = nodes db + mset (mp_freelist mp)"
      by auto
    with step gt show ?thesis by (auto simp: pend db')
  qed
qed

lemma databuffer_zero_ok [simp]:
  "databuffer_ok databuffer_zero" "pending databuffer_zero = []" "nodes databuffer_zero = {#}"
  by (simp_all add: databuffer_defs databuffer_zero_def)

lemma read_ok:
  assumes "databuffer_ok db" and "pool_ok others db mp" and "0 < n" and "n \<le> length (pending db)"
  shows "\<exists>db' mp'. databuffer_read db mp (int n) = Inr (db', mp', take n (pending db)) \<and>
           pending db' = drop n (pending db) \<and> databuffer_ok db' \<and> pool_ok others db' mp' \<and>
           db_header db' = db_header db"
proof -
  let ?db = "db\<lparr>db_size := db_size db - int n\<rparr>"
  from read_loop_ok [of ?db n mp "[]"] assms(1,3,4) obtain db' mp' where
    loop: "databuffer_read_loop ?db mp [] (int n) = Inr (db', mp', take n (pending db))"
    and facts: "pending db' = drop n (pending db)" "chain_ok db'"
      "db_size db' = db_size db - int n" "db_header db' = db_header db"
      "nodes db' + mset (mp_freelist mp') = nodes db + mset (mp_freelist mp)"
      "mp_blocks mp' = mp_blocks mp"
    by (auto simp: databuffer_ok_def)
  have "databuffer_ok db'"
    using facts assms(1,4) by (simp add: databuffer_ok_def)
  moreover have "pool_ok others db' mp'"
    using assms(2) facts by (simp add: pool_ok_def)
  moreover have "databuffer_read db mp (int n) = databuffer_read_loop ?db mp [] (int n)"
    using assms(1,4) by (simp add: databuffer_read_def databuffer_ok_def)
  ultimately show ?thesis using loop facts by auto
qed

lemma alloc_message_pool:
  assumes "alloc_message mp = (a, mp')" and "pool_ok others db mp"
  shows "add_mset a (nodes db + mset (mp_freelist mp') + others) =
           mset [0 ..< mp_blocks mp' * MESSAGEPOOL]"
proof (cases "mp_freelist mp")
  case (Cons m rest)
  with assms show ?thesis by (auto simp: alloc_message_def pool_ok_def)
next
  case Nil
  let ?b = "mp_blocks mp * MESSAGEPOOL"
  have "[0 ..< ?b + MESSAGEPOOL] = [0 ..< ?b] @ ?b # [Suc ?b ..< ?b + MESSAGEPOOL]"
    using upt_add_eq_append [of 0 ?b MESSAGEPOOL] upt_conv_Cons [of ?b "?b + MESSAGEPOOL"] by simp
  then have "mset [0 ..< ?b + MESSAGEPOOL] =
      add_mset ?b (mset [0 ..< ?b] + mset [Suc ?b ..< ?b + MESSAGEPOOL])" by simp
  moreover have "a = ?b" "mp_freelist mp' = [Suc ?b ..< ?b + MESSAGEPOOL]"
    "mp_blocks mp' * MESSAGEPOOL = ?b + MESSAGEPOOL"
    using Nil assms(1) by (auto simp: alloc_message_def Let_def)
  moreover have "nodes db + others = mset [0 ..< ?b]"
    using Nil assms(2) by (simp add: pool_ok_def)
  ultimately show ?thesis by (simp add: union_assoc union_commute del: mset_upt)
qed

lemma push_ok:
  assumes "databuffer_ok db" and "pool_ok others db mp"
    and "databuffer_push db mp data (int (length data)) = (db', mp')"
  shows "pending db' = pending db @ data" and "databuffer_ok db'" and "pool_ok others db' mp'"
    and "db_header db' = db_header db"
proof -
  obtain a where alloc: "alloc_message mp = (a, mp')"
    and db': "db' = db\<lparr>db_size := db_size db + int (length data),
      db_msgs := db_msgs db @ [\<lparr>msg_addr = a, msg_buffer = data, msg_size = int (length data)\<rparr>]\<rparr>"
    using assms(3) by (auto simp: databuffer_push_def Let_def split: prod.splits)
  have chain: "chain_ok db" using assms(1) by (simp add: databuffer_ok_def)
  then have "nat (db_offset db) \<le> length (concat (map msg_buffer (db_msgs db)))"
    by (auto simp: chain_ok_def split: list.splits)
  then show pend: "pending db' = pending db @ data"
    by (simp add: pending_def db')
  have "chain_ok db'" using chain by (auto simp: chain_ok_def db' split: list.splits)
  with pend assms(1) show "databuffer_ok db'" by (simp add: databuffer_ok_def db')
  show "pool_ok others db' mp'"
    using alloc_message_pool [OF alloc assms(2)] by (simp add: pool_ok_def nodes_def db')
  show "db_header db' = db_header db" by (simp add: db')
qed

lemma clear_messages_pool:
  "mset (mp_freelist (clear_messages ms mp)) = mset (map msg_addr ms) + mset (mp_freelist mp)"
  "mp_blocks (clear_messages ms mp) = mp_blocks mp"
  by (induction ms arbitrary: mp) auto

lemma clear_ok:
  assumes "pool_ok others db mp" and "databuffer_clear db mp = (db', mp')"
  shows "db' = databuffer_zero" and "pool_ok others db' mp'"
  using assms by (auto simp: databuffer_clear_def pool_ok_def clear_messages_pool
      nodes_def databuffer_zero_def ac_simps)

lemma reset_ok [simp]:
  "pending (databuffer_reset db) = pending db"
  "databuffer_ok (databuffer_reset db) = databuffer_ok db"
  "pool_ok others (databuffer_reset db) mp = pool_ok others db mp"
  "db_header (databuffer_reset db) = 0"
  by (simp_all add: databuffer_reset_def)

text \<open>\<open>databuffer_readheader\<close>, in the two situations in which it goes past the size test.\<close>

lemma readheader_short:
  assumes "databuffer_ok db" and "db_header db = 0" and "length (pending db) < h"
  shows "databuffer_readheader db mp (int h) = Inr (db, mp, -1)"
  using assms by (simp add: databuffer_readheader_def databuffer_ok_def)

lemma readheader_ok:
  assumes "databuffer_ok db" and "pool_ok others db mp" and "0 < h"
    and "db_header db \<noteq> 0 \<or> h \<le> length (pending db)"
  shows "\<exists>db' mp'. databuffer_readheader db mp (int h) =
             Inr (db', mp', if int (length (pending db')) < db_header db' then -1 else db_header db') \<and>
           db_header db' = (if db_header db = 0 then header_value (int h) (take h (pending db))
                            else db_header db) \<and>
           pending db' = (if db_header db = 0 then drop h (pending db) else pending db) \<and>
           databuffer_ok db' \<and> pool_ok others db' mp'"
proof (cases "db_header db = 0")
  case False
  with assms(1,2) show ?thesis by (auto simp: databuffer_readheader_def databuffer_ok_def)
next
  case True
  with assms(4) have "h \<le> length (pending db)" by simp
  with read_ok [OF assms(1-3)] obtain db' mp' where
    r: "databuffer_read db mp (int h) = Inr (db', mp', take h (pending db))"
       "pending db' = drop h (pending db)" "databuffer_ok db'" "pool_ok others db' mp'" by blast
  let ?db = "db'\<lparr>db_header := header_value (int h) (take h (pending db))\<rparr>"
  have "databuffer_readheader db mp (int h) = Inr (?db, mp',
      if int (length (pending ?db)) < db_header ?db then -1 else db_header ?db)"
    using True assms(1) \<open>h \<le> length (pending db)\<close> r
    by (simp add: databuffer_readheader_def databuffer_ok_def)
  then show ?thesis using True r(2-4) by (intro exI [of _ ?db] exI [of _ mp']) simp
qed

section \<open>The interface the gate relies on\<close>

text \<open>
  What a client of the buffer needs to know: data pushed comes out again in the same order,
  whatever the pieces it was pushed in.
\<close>

locale byte_stream =
  fixes inv :: "'s \<Rightarrow> bool"
    and contents :: "'s \<Rightarrow> u8 list"
    and push :: "u8 list \<Rightarrow> 's \<Rightarrow> 's"
    and pull :: "nat \<Rightarrow> 's \<Rightarrow> ('s \<times> u8 list) res"
  assumes push_inv: "inv s \<Longrightarrow> inv (push d s)"
    and push_contents: "inv s \<Longrightarrow> contents (push d s) = contents s @ d"
    and pull_ok: "inv s \<Longrightarrow> 0 < n \<Longrightarrow> n \<le> length (contents s) \<Longrightarrow>
      \<exists>s'. pull n s = Inr (s', take n (contents s)) \<and> inv s' \<and> contents s' = drop n (contents s)"
begin

lemma push_all_inv: "inv s \<Longrightarrow> inv (fold push ds s)"
  by (induction ds arbitrary: s) (simp_all add: push_inv)

lemma push_all_contents: "inv s \<Longrightarrow> contents (fold push ds s) = contents s @ concat ds"
  by (induction ds arbitrary: s) (simp_all add: push_inv push_contents)

lemma pull_after_push_all:
  assumes "inv s" and "contents s = []" and "0 < n" and "n \<le> length (concat ds)"
  shows "\<exists>s'. pull n (fold push ds s) = Inr (s', take n (concat ds)) \<and> inv s' \<and>
           contents s' = drop n (concat ds)"
  using pull_ok [of "fold push ds s" n] assms push_all_inv push_all_contents by auto

end

text \<open>The buffer with its pool; \<open>others\<close> are the nodes the other connections hold.\<close>

definition stream_push :: "u8 list \<Rightarrow> databuffer \<times> messagepool \<Rightarrow> databuffer \<times> messagepool" where
  "stream_push d s = databuffer_push (fst s) (snd s) d (int (length d))"

definition stream_pull ::
  "nat \<Rightarrow> databuffer \<times> messagepool \<Rightarrow> ((databuffer \<times> messagepool) \<times> u8 list) res" where
  "stream_pull n s =
     bindR (databuffer_read (fst s) (snd s) (int n)) (\<lambda>(db, mp, bs). Inr ((db, mp), bs))"

interpretation receive_buffer: byte_stream
  "\<lambda>s. databuffer_ok (fst s) \<and> pool_ok others (fst s) (snd s)" "\<lambda>s. pending (fst s)"
  stream_push stream_pull
proof unfold_locales
  fix s :: "databuffer \<times> messagepool" and d :: "u8 list"
  assume inv: "databuffer_ok (fst s) \<and> pool_ok others (fst s) (snd s)"
  obtain db' mp' where p: "databuffer_push (fst s) (snd s) d (int (length d)) = (db', mp')"
    by fastforce
  show "databuffer_ok (fst (stream_push d s)) \<and> pool_ok others (fst (stream_push d s)) (snd (stream_push d s))"
    using inv push_ok [of "fst s" others, OF _ _ p] by (simp add: stream_push_def p)
  show "pending (fst (stream_push d s)) = pending (fst s) @ d"
    using inv push_ok [of "fst s" others, OF _ _ p] by (simp add: stream_push_def p)
next
  fix s :: "databuffer \<times> messagepool" and n :: nat
  assume "databuffer_ok (fst s) \<and> pool_ok others (fst s) (snd s)" "0 < n" "n \<le> length (pending (fst s))"
  with read_ok [of "fst s" others "snd s" n] show
    "\<exists>s'. stream_pull n s = Inr (s', take n (pending (fst s))) \<and>
       (databuffer_ok (fst s') \<and> pool_ok others (fst s') (snd s')) \<and>
       pending (fst s') = drop n (pending (fst s))"
    by (auto simp: stream_pull_def)
qed

section \<open>Properties\<close>



end
