(* ===== verification/Hashid.thy ===== *)
theory Hashid
  imports Prelude "HOL-Library.Signed_Division"
begin

text \<open>
  \<open>service-src/hashid.h\<close>: the table from socket ids to connection slots that the gate keeps.
  \<open>hi_id\<close> is the vector of \<open>cap\<close> nodes, \<open>hi_hash\<close> the vector of chain heads; a
  \<open>hashid_node *\<close> always points into \<open>hi_id\<close>, so it is the index of its node, and \<open>NULL\<close> is
  \<open>None\<close>.
\<close>

section \<open>Data\<close>

record hashid_node =
  hn_id :: int
  hn_next :: "nat option"

record hashid =
  hi_hashmod :: int
  hi_cap :: int
  hi_count :: int
  hi_id :: "hashid_node list"
  hi_hash :: "nat option list"

section \<open>Operations\<close>

text \<open>
  \<open>while (hashcap < max) hashcap *= 2;\<close> starts at 16. The test \<open>0 < hashcap\<close> only makes the
  function total; doubling past \<open>INT_MAX\<close> is a fault.
\<close>

function hashcap_loop :: "int \<Rightarrow> int \<Rightarrow> int res" where
  "hashcap_loop hashcap maxn =
     (if 0 < hashcap \<and> hashcap < maxn then
        if hashcap * 2 \<ge> 2 ^ 31 then Inl SignedOverflow else hashcap_loop (hashcap * 2) maxn
      else Inr hashcap)"
  by pat_completeness auto
termination
  by (relation "measure (\<lambda>(hashcap, maxn). nat (maxn - hashcap))") auto

declare hashcap_loop.simps [simp del]

definition hashid_init :: "int \<Rightarrow> hashid res" where
  "hashid_init maxn =
     bindR (hashcap_loop 16 maxn) (\<lambda>hashcap.
       Inr \<lparr>hi_hashmod = hashcap - 1, hi_cap = maxn, hi_count = 0,
            hi_id = replicate (nat maxn) \<lparr>hn_id = -1, hn_next = None\<rparr>,
            hi_hash = replicate (nat hashcap) None\<rparr>)"

definition hashid_clear :: "hashid \<Rightarrow> hashid" where
  "hashid_clear hi = hi\<lparr>hi_id := [], hi_hash := [], hi_hashmod := 1, hi_cap := 0, hi_count := 0\<rparr>"

text \<open>
  The comparison inside the loop of \<open>hashid_lookup\<close> is commented out in the source: the loop
  walks the chain to its end (\<open>None\<close> if the chain has none) and the function returns -1.
\<close>

partial_function (option) hashid_lookup_loop :: "hashid_node list \<Rightarrow> nat option \<Rightarrow> int res option" where
  "hashid_lookup_loop ids c =
     (case c of
        None \<Rightarrow> Some (Inr (-1))
      | Some i \<Rightarrow>
          (if i < length ids then hashid_lookup_loop ids (hn_next (ids ! i))
           else Some (Inl DanglingPointer)))"

definition hashid_lookup :: "hashid \<Rightarrow> int \<Rightarrow> int res option" where
  "hashid_lookup hi key =
     (case nthR (hi_hash hi) (key AND hi_hashmod hi) of
        Inl e \<Rightarrow> Some (Inl e)
      | Inr c \<Rightarrow> hashid_lookup_loop (hi_id hi) c)"

text \<open>The block at label \<open>_clear\<close>; its \<open>return c - hi->id\<close> is commented out, -1 is returned.\<close>

definition hashid_remove_clear :: "hashid \<Rightarrow> nat \<Rightarrow> hashid \<times> int" where
  "hashid_remove_clear hi c =
     (hi\<lparr>hi_id := (hi_id hi)[c := \<lparr>hn_id = -1, hn_next = None\<rparr>], hi_count := hi_count hi - 1\<rparr>, -1)"

text \<open>The loop \<open>while (c->next)\<close> of \<open>hashid_remove\<close>.\<close>

partial_function (option) hashid_remove_loop :: "hashid \<Rightarrow> int \<Rightarrow> nat \<Rightarrow> (hashid \<times> int) res option" where
  "hashid_remove_loop hi key c =
     (if c < length (hi_id hi) then
        case hn_next (hi_id hi ! c) of
          None \<Rightarrow> Some (Inr (hi, -1))
        | Some t \<Rightarrow>
            (if t < length (hi_id hi) then
               if hn_id (hi_id hi ! t) = key then
                 Some (Inr (hashid_remove_clear
                   (hi\<lparr>hi_id := (hi_id hi)[c := (hi_id hi ! c)\<lparr>hn_next := hn_next (hi_id hi ! t)\<rparr>]\<rparr>) t))
               else hashid_remove_loop hi key t
             else Some (Inl DanglingPointer))
      else Some (Inl DanglingPointer))"

definition hashid_remove :: "hashid \<Rightarrow> int \<Rightarrow> (hashid \<times> int) res option" where
  "hashid_remove hi key =
     (let h = key AND hi_hashmod hi in
      case nthR (hi_hash hi) h of
        Inl e \<Rightarrow> Some (Inl e)
      | Inr None \<Rightarrow> Some (Inr (hi, -1))
      | Inr (Some c) \<Rightarrow>
          (if c < length (hi_id hi) then
             if hn_id (hi_id hi ! c) = key then
               Some (Inr (hashid_remove_clear
                 (hi\<lparr>hi_hash := (hi_hash hi)[nat h := hn_next (hi_id hi ! c)]\<rparr>) c))
             else hashid_remove_loop hi key c
           else Some (Inl DanglingPointer)))"

text \<open>The scan of \<open>hashid_insert\<close> for a free node; \<open>k\<close> iterations are left.\<close>

fun hashid_insert_scan :: "nat \<Rightarrow> hashid \<Rightarrow> int \<Rightarrow> int \<Rightarrow> nat option res" where
  "hashid_insert_scan 0 hi key i = Inr None"
| "hashid_insert_scan (Suc k) hi key i =
     (let index = (i + key) smod hi_cap hi in
      bindR (nthR (hi_id hi) index) (\<lambda>n.
        if hn_id n = -1 then Inr (Some (nat index)) else hashid_insert_scan k hi key (i + 1)))"

definition hashid_insert :: "hashid \<Rightarrow> int \<Rightarrow> (hashid \<times> int) res" where
  "hashid_insert hi key =
     bindR (hashid_insert_scan (nat (hi_cap hi)) hi key 0) (\<lambda>found.
       case found of
         None \<Rightarrow> Inl AssertionFailed
       | Some c \<Rightarrow>
           bindR (assertR (hn_next (hi_id hi ! c) = None)) (\<lambda>_.
             let h = key AND hi_hashmod hi in
             bindR (nthR (hi_hash hi) h) (\<lambda>head.
               let node = (hi_id hi ! c)\<lparr>hn_id := key\<rparr>;
                   node = (if head \<noteq> None then node\<lparr>hn_next := head\<rparr> else node)
               in Inr (hi\<lparr>hi_count := hi_count hi + 1, hi_id := (hi_id hi)[c := node],
                          hi_hash := (hi_hash hi)[nat h := Some c]\<rparr>, -1))))"

definition hashid_full :: "hashid \<Rightarrow> bool" where
  "hashid_full hi \<longleftrightarrow> hi_count hi = hi_cap hi"

section \<open>Chains and the table invariant\<close>

text \<open>\<open>linked ids c js\<close>: following \<open>next\<close> from \<open>c\<close> visits exactly the nodes \<open>js\<close>, then ends.\<close>

fun linked :: "hashid_node list \<Rightarrow> nat option \<Rightarrow> nat list \<Rightarrow> bool" where
  "linked ids c [] = (c = None)"
| "linked ids c (j # js) = (c = Some j \<and> j < length ids \<and> linked ids (hn_next (ids ! j)) js)"

abbreviation used :: "hashid_node \<Rightarrow> bool" where
  "used n \<equiv> hn_id n \<noteq> -1"

definition bucket :: "hashid \<Rightarrow> int \<Rightarrow> nat" where
  "bucket hi key = nat (key AND hi_hashmod hi)"

lemma bucket_frame [simp]:
  "bucket (hi\<lparr>hi_count := n\<rparr>) k = bucket hi k" "bucket (hi\<lparr>hi_id := ids\<rparr>) k = bucket hi k"
  "bucket (hi\<lparr>hi_hash := hs\<rparr>) k = bucket hi k"
  by (simp_all add: bucket_def)

definition hashid_inv :: "hashid \<Rightarrow> (nat \<Rightarrow> nat list) \<Rightarrow> bool" where
  "hashid_inv hi ch \<longleftrightarrow>
     0 \<le> hi_cap hi \<and> length (hi_id hi) = nat (hi_cap hi) \<and>
     0 \<le> hi_hashmod hi \<and> length (hi_hash hi) = nat (hi_hashmod hi + 1) \<and>
     hi_count hi = int (length (filter used (hi_id hi))) \<and>
     (\<forall>h < length (hi_hash hi). linked (hi_id hi) (hi_hash hi ! h) (ch h) \<and> distinct (ch h)) \<and>
     (\<forall>h i. h < length (hi_hash hi) \<longrightarrow> i < length (hi_id hi) \<longrightarrow>
        (i \<in> set (ch h) \<longleftrightarrow> used (hi_id hi ! i) \<and> bucket hi (hn_id (hi_id hi ! i)) = h)) \<and>
     (\<forall>i < length (hi_id hi). \<not> used (hi_id hi ! i) \<longrightarrow> hn_next (hi_id hi ! i) = None)"

definition hashid_ids :: "hashid \<Rightarrow> int set" where
  "hashid_ids hi = {k. k \<noteq> -1 \<and> (\<exists>i < length (hi_id hi). hn_id (hi_id hi ! i) = k)}"

section \<open>Lemmas\<close>

lemma and_mask_bounds: "0 \<le> m \<Longrightarrow> 0 \<le> x AND m \<and> x AND m \<le> (m :: int)"
  by (simp add: AND_upper2)

lemma bucket_bound: "hashid_inv hi ch \<Longrightarrow> bucket hi key < length (hi_hash hi)"
  using and_mask_bounds [of "hi_hashmod hi" key] by (auto simp: hashid_inv_def bucket_def)

lemma nthR_bucket:
  "hashid_inv hi ch \<Longrightarrow> nthR (hi_hash hi) (key AND hi_hashmod hi) = Inr (hi_hash hi ! bucket hi key)"
  using bucket_bound [of hi ch key] and_mask_bounds [of "hi_hashmod hi" key]
  by (auto simp: hashid_inv_def bucket_def nthR_def)

lemma linked_bound: "linked ids c js \<Longrightarrow> j \<in> set js \<Longrightarrow> j < length ids"
  by (induction js arbitrary: c) auto

lemma linked_update: "i \<notin> set js \<Longrightarrow> linked (ids[i := n]) c js = linked ids c js"
  by (induction js arbitrary: c) auto

lemma linked_lookup: "linked ids c js \<Longrightarrow> hashid_lookup_loop ids c = Some (Inr (-1))"
  by (induction js arbitrary: c) (auto simp: hashid_lookup_loop.simps)

lemma inv_linked:
  "hashid_inv hi ch \<Longrightarrow> linked (hi_id hi) (hi_hash hi ! bucket hi key) (ch (bucket hi key))"
  "hashid_inv hi ch \<Longrightarrow> distinct (ch (bucket hi key))"
  using bucket_bound [of hi ch key] by (simp_all add: hashid_inv_def)

lemma lookup_minus_one: "hashid_inv hi ch \<Longrightarrow> hashid_lookup hi key = Some (Inr (-1))"
  by (simp add: hashid_lookup_def nthR_bucket inv_linked(1) [THEN linked_lookup])

lemma hashcap_loop_ok:
  "0 < hashcap \<Longrightarrow> hashcap \<le> 2 ^ 30 \<Longrightarrow> maxn \<le> 2 ^ 30 \<Longrightarrow> hashcap = 2 ^ k \<Longrightarrow>
     \<exists>c. hashcap_loop hashcap maxn = Inr c \<and> maxn \<le> c \<and> hashcap \<le> c"
proof (induction hashcap maxn arbitrary: k rule: hashcap_loop.induct)
  case (1 hashcap maxn)
  show ?case
  proof (cases "hashcap < maxn")
    case False
    with 1(2) show ?thesis by (simp add: hashcap_loop.simps [of hashcap maxn])
  next
    case True
    then have "(2::int) ^ k < 2 ^ 30" using "1.prems" by simp
    then have "k < 30" by (simp only: power_strict_increasing_iff)
    then have "(2::int) ^ k \<le> 2 ^ 29" by (intro power_increasing) simp_all
    then have "hashcap * 2 \<le> 2 ^ 30" "hashcap * 2 = 2 ^ Suc k" using "1.prems"(4) by simp_all
    with True "1.prems" "1.IH" [of "Suc k"] obtain c where
      "hashcap_loop (hashcap * 2) maxn = Inr c" "maxn \<le> c" "hashcap * 2 \<le> c" by auto
    with True "1.prems" \<open>hashcap * 2 \<le> 2 ^ 30\<close> show ?thesis
      by (subst hashcap_loop.simps) simp
  qed
qed

lemma hashid_init_ok:
  assumes "0 \<le> maxn" and "maxn \<le> 2 ^ 30"
  shows "\<exists>hi. hashid_init maxn = Inr hi \<and> hashid_inv hi (\<lambda>_. []) \<and> hashid_ids hi = {} \<and>
           hi_cap hi = maxn"
proof -
  have "\<exists>c. hashcap_loop 16 maxn = Inr c \<and> maxn \<le> c \<and> 16 \<le> c"
    by (rule hashcap_loop_ok [where k = 4]) (use assms(2) in simp_all)
  then obtain c where "hashcap_loop 16 maxn = Inr c" "16 \<le> c" by blast
  moreover from this(2) assms(1) have "hashid_inv \<lparr>hi_hashmod = c - 1, hi_cap = maxn, hi_count = 0,
      hi_id = replicate (nat maxn) \<lparr>hn_id = -1, hn_next = None\<rparr>,
      hi_hash = replicate (nat c) None\<rparr> (\<lambda>_. [])"
    by (simp add: hashid_inv_def)
  ultimately show ?thesis
    by (auto simp: hashid_init_def hashid_ids_def)
qed

lemma scan_total:
  assumes "hashid_inv hi ch" and "0 < hi_cap hi" and "0 \<le> i + key"
  shows "\<exists>r. hashid_insert_scan k hi key i = Inr r"
  using assms(3)
proof (induction k arbitrary: i)
  case (Suc k)
  have "(i + key) smod hi_cap hi = (i + key) mod hi_cap hi"
    using assms(2) Suc.prems by (simp add: signed_modulo_int_def sgn_if signed_divide_int_def minus_div_mult_eq_mod)
  moreover have "(i + key) mod hi_cap hi < int (length (hi_id hi))"
    using assms by (simp add: hashid_inv_def)
  ultimately show ?case using Suc.IH [of "i + 1"] Suc.prems assms(2)
    by (simp add: Let_def nthR_def)
qed simp

lemma scan_Some:
  "hashid_insert_scan k hi key i = Inr (Some c) \<Longrightarrow> c < length (hi_id hi) \<and> \<not> used (hi_id hi ! c)"
  by (induction k arbitrary: i) (auto simp: Let_def bindR_Inr_iff nthR_Inr split: if_splits)

text \<open>The invariant's parts, as the proofs use them.\<close>

lemma inv_chain: "hashid_inv hi ch \<Longrightarrow> h < length (hi_hash hi) \<Longrightarrow>
    linked (hi_id hi) (hi_hash hi ! h) (ch h)"
  and inv_distinct: "hashid_inv hi ch \<Longrightarrow> h < length (hi_hash hi) \<Longrightarrow> distinct (ch h)"
  and inv_mem: "hashid_inv hi ch \<Longrightarrow> h < length (hi_hash hi) \<Longrightarrow> i < length (hi_id hi) \<Longrightarrow>
    i \<in> set (ch h) \<longleftrightarrow> used (hi_id hi ! i) \<and> bucket hi (hn_id (hi_id hi ! i)) = h"
  and inv_free: "hashid_inv hi ch \<Longrightarrow> i < length (hi_id hi) \<Longrightarrow> \<not> used (hi_id hi ! i) \<Longrightarrow>
    hn_next (hi_id hi ! i) = None"
  by (simp_all add: hashid_inv_def)

lemma inv_memD:
  assumes "hashid_inv hi ch" and "h < length (hi_hash hi)" and "i \<in> set (ch h)"
  shows "i < length (hi_id hi)" and "used (hi_id hi ! i)" and "bucket hi (hn_id (hi_id hi ! i)) = h"
  using linked_bound [OF inv_chain] inv_mem assms by blast+

lemma linked_cong:
  "length ids = length ids' \<Longrightarrow> (\<And>j. j \<in> set js \<Longrightarrow> ids ! j = ids' ! j) \<Longrightarrow>
     linked ids c js = linked ids' c js"
  by (induction js arbitrary: c) auto

lemma used_count: "length (filter used ids) = length (filter (\<lambda>x. x \<noteq> -1) (map hn_id ids))"
  by (simp add: filter_map comp_def)

lemma scan_None:
  assumes "hashid_inv hi ch" and "0 < hi_cap hi"
  shows "0 \<le> i + key \<Longrightarrow> hashid_insert_scan k hi key i = Inr None \<Longrightarrow> d < k \<Longrightarrow>
     used (hi_id hi ! nat ((i + int d + key) mod hi_cap hi))"
proof (induction k arbitrary: i d)
  case (Suc k)
  have m: "(i + key) smod hi_cap hi = (i + key) mod hi_cap hi"
    using assms(2) Suc.prems(1)
    by (simp add: signed_modulo_int_def sgn_if signed_divide_int_def minus_div_mult_eq_mod)
  show ?case
  proof (cases d)
    case 0
    with Suc.prems m show ?thesis by (auto simp: Let_def bindR_Inr_iff nthR_Inr split: if_splits)
  next
    case (Suc d')
    from Suc.prems m have "hashid_insert_scan k hi key (i + 1) = Inr None"
      by (auto simp: Let_def bindR_Inr_iff split: if_splits)
    with Suc.IH [of "i + 1" d'] Suc.prems Suc show ?thesis by (simp add: algebra_simps)
  qed
qed simp

lemma scan_finds:
  assumes inv: "hashid_inv hi ch" and free: "hi_count hi < hi_cap hi" and "0 \<le> key"
  shows "\<exists>c. hashid_insert_scan (nat (hi_cap hi)) hi key 0 = Inr (Some c)"
proof -
  let ?cap = "hi_cap hi"
  from inv free have cap: "0 < ?cap" "length (hi_id hi) = nat ?cap" by (auto simp: hashid_inv_def)
  have "\<exists>j < length (hi_id hi). \<not> used (hi_id hi ! j)"
  proof (rule ccontr)
    assume "\<not> ?thesis"
    then have "filter used (hi_id hi) = hi_id hi" by (auto simp: filter_id_conv in_set_conv_nth)
    then show False using inv free by (simp add: hashid_inv_def)
  qed
  then obtain j where j: "j < nat ?cap" "\<not> used (hi_id hi ! j)" using cap by auto
  obtain r where r: "hashid_insert_scan (nat ?cap) hi key 0 = Inr r"
    using scan_total [OF inv cap(1), of 0 key] assms(3) by auto
  let ?d = "nat ((int j - key) mod ?cap)"
  have "r \<noteq> None"
  proof
    assume "r = None"
    with r scan_None [OF inv cap(1), of 0 key "nat ?cap" ?d] assms(3) cap(1)
    have "used (hi_id hi ! nat ((int ?d + key) mod ?cap))" by (simp add: nat_less_iff)
    moreover have "(int ?d + key) mod ?cap = int j"
      using cap(1) j(1) by (simp add: mod_simps)
    ultimately show False using j(2) by simp
  qed
  with r show ?thesis by auto
qed

lemma insert_ok:
  assumes inv: "hashid_inv hi ch" and free: "hi_count hi < hi_cap hi" and key: "0 \<le> key"
  shows "\<exists>hi' ch'. hashid_insert hi key = Inr (hi', -1) \<and> hashid_inv hi' ch' \<and>
           hashid_ids hi' = insert key (hashid_ids hi) \<and> hi_count hi' = hi_count hi + 1 \<and>
           hi_cap hi' = hi_cap hi \<and>
           (\<exists>c < length (hi_id hi). hn_id (hi_id hi ! c) = -1 \<and>
              map hn_id (hi_id hi') = (map hn_id (hi_id hi))[c := key])"
proof -
  obtain c where scan: "hashid_insert_scan (nat (hi_cap hi)) hi key 0 = Inr (Some c)"
    using scan_finds [OF assms] by blast
  then have c: "c < length (hi_id hi)" "\<not> used (hi_id hi ! c)" by (auto dest: scan_Some)
  let ?b = "bucket hi key"
  let ?node = "\<lparr>hn_id = key, hn_next = hi_hash hi ! ?b\<rparr>"
  let ?hi = "hi\<lparr>hi_count := hi_count hi + 1, hi_id := (hi_id hi)[c := ?node],
                hi_hash := (hi_hash hi)[?b := Some c]\<rparr>"
  let ?ch = "ch(?b := c # ch ?b)"
  have b: "?b < length (hi_hash hi)" by (rule bucket_bound [OF inv])
  have cnext: "hn_next (hi_id hi ! c) = None" using inv c by (auto simp: hashid_inv_def)
  have "hashid_insert hi key = Inr (?hi, -1)"
    using cnext nthR_bucket [OF inv, of key]
    by (cases "hi_id hi ! c") (auto simp: hashid_insert_def scan Let_def bucket_def)
  moreover have "hashid_inv ?hi ?ch"
  proof -
    have notin: "c \<notin> set (ch h)" if "h < length (hi_hash hi)" for h
      using inv c that by (auto simp: hashid_inv_def)
    have "length (filter used ((hi_id hi)[c := ?node])) = Suc (length (filter used (hi_id hi)))"
      using c key by (intro filter_list_update) auto
    then show ?thesis
      using inv c b key notin
      by (simp add: hashid_inv_def nth_list_update linked_update)
  qed
  moreover have "hashid_ids ?hi = insert key (hashid_ids hi)"
  proof (rule set_eqI)
    fix k
    have "(\<exists>i < length (hi_id hi). hn_id ((hi_id hi)[c := ?node] ! i) = k) \<longleftrightarrow>
        k = key \<or> (\<exists>i < length (hi_id hi). hn_id (hi_id hi ! i) = k)" if "k \<noteq> -1"
      using c that by (auto simp: nth_list_update)
    then show "k \<in> hashid_ids ?hi \<longleftrightarrow> k \<in> insert key (hashid_ids hi)"
      using key by (auto simp: hashid_ids_def)
  qed
  moreover have "\<exists>d < length (hi_id hi). hn_id (hi_id hi ! d) = -1 \<and>
      map hn_id (hi_id ?hi) = (map hn_id (hi_id hi))[d := key]"
    using c by (intro exI [of _ c]) (simp add: map_update)
  ultimately show ?thesis by (intro exI [of _ ?hi] exI [of _ ?ch]) simp
qed

text \<open>
  Unlinking: what the loop of \<open>hashid_remove\<close> does to a chain that holds \<open>key\<close> at node \<open>t\<close>,
  behind the nodes \<open>us\<close> that do not hold it.
\<close>

definition unlinked :: "hashid_node list \<Rightarrow> nat list \<Rightarrow> nat \<Rightarrow> hashid_node list \<Rightarrow> bool" where
  "unlinked ids js t ids' \<longleftrightarrow>
     length ids' = length ids \<and> map hn_id ids' = (map hn_id ids)[t := -1] \<and>
     hn_next (ids' ! t) = None \<and> (\<forall>i. i \<notin> set js \<longrightarrow> ids' ! i = ids ! i)"

lemma unlinked_mono: "unlinked ids js t ids' \<Longrightarrow> set js \<subseteq> set js' \<Longrightarrow> unlinked ids js' t ids'"
  by (auto simp: unlinked_def)

lemma remove_loop_absent:
  "linked (hi_id hi) (Some c) (c # js) \<Longrightarrow> \<forall>t \<in> set js. hn_id (hi_id hi ! t) \<noteq> key \<Longrightarrow>
     hashid_remove_loop hi key c = Some (Inr (hi, -1))"
proof (induction js arbitrary: c)
  case Nil
  then show ?case by (simp add: hashid_remove_loop.simps)
next
  case (Cons t js)
  then show ?case by (subst hashid_remove_loop.simps) simp
qed

lemma remove_loop_present:
  "linked (hi_id hi) (Some c) (c # us @ t # vs) \<Longrightarrow> distinct (c # us @ t # vs) \<Longrightarrow>
     \<forall>u \<in> set us. hn_id (hi_id hi ! u) \<noteq> key \<Longrightarrow> hn_id (hi_id hi ! t) = key \<Longrightarrow>
     \<exists>ids'. hashid_remove_loop hi key c =
              Some (Inr (hi\<lparr>hi_id := ids', hi_count := hi_count hi - 1\<rparr>, -1)) \<and>
            unlinked (hi_id hi) (c # us @ t # vs) t ids' \<and> linked ids' (Some c) (c # us @ vs)"
proof (induction us arbitrary: c)
  case Nil
  let ?ids = "(hi_id hi)[c := (hi_id hi ! c)\<lparr>hn_next := hn_next (hi_id hi ! t)\<rparr>,
                         t := \<lparr>hn_id = -1, hn_next = None\<rparr>]"
  have "hashid_remove_loop hi key c =
      Some (Inr (hi\<lparr>hi_id := ?ids, hi_count := hi_count hi - 1\<rparr>, -1))"
    using Nil by (subst hashid_remove_loop.simps) (auto simp: hashid_remove_clear_def)
  moreover have "(map hn_id (hi_id hi))[c := hn_id (hi_id hi ! c)] = map hn_id (hi_id hi)"
    using Nil by (simp add: list_update_same_conv)
  then have "unlinked (hi_id hi) (c # [] @ t # vs) t ?ids"
    using Nil by (simp add: unlinked_def map_update)
  moreover have "linked ?ids (Some c) (c # vs)"
    using Nil by (simp add: linked_update)
  ultimately show ?case by auto
next
  case (Cons u us)
  from Cons.prems Cons.IH [of u] obtain ids' where ids':
    "hashid_remove_loop hi key u = Some (Inr (hi\<lparr>hi_id := ids', hi_count := hi_count hi - 1\<rparr>, -1))"
    "unlinked (hi_id hi) (u # us @ t # vs) t ids'" "linked ids' (Some u) (u # us @ vs)"
    by auto
  have "hashid_remove_loop hi key c = hashid_remove_loop hi key u"
    using Cons.prems by (subst hashid_remove_loop.simps) simp
  moreover have "unlinked (hi_id hi) (c # (u # us) @ t # vs) t ids'"
    by (rule unlinked_mono [OF ids'(2)]) auto
  moreover have "ids' ! c = hi_id hi ! c" "c < length ids'" "hn_next (hi_id hi ! c) = Some u"
    using ids'(2) Cons.prems by (simp_all add: unlinked_def)
  then have "linked ids' (Some c) (c # (u # us) @ vs)" using ids'(3) by simp
  ultimately show ?case using ids'(1) by (intro exI [of _ ids'] conjI) simp_all
qed

lemma unlink_inv:
  assumes inv: "hashid_inv hi ch" and b: "b = bucket hi key" and ch: "ch b = us @ t # vs"
    and ids': "unlinked (hi_id hi) (ch b) t ids'" and lnk: "linked ids' head (us @ vs)"
  shows "hashid_inv (hi\<lparr>hi_hash := (hi_hash hi)[b := head], hi_id := ids', hi_count := hi_count hi - 1\<rparr>)
           (ch(b := us @ vs))"
proof -
  let ?ids = "hi_id hi"
  have blt: "b < length (hi_hash hi)" using bucket_bound [OF inv] b by simp
  have t: "t < length ?ids" "used (?ids ! t)" "bucket hi (hn_id (?ids ! t)) = b"
    using inv_memD [OF inv blt, of t] ch by simp_all
  have dist: "t \<notin> set us" "t \<notin> set vs" "distinct (us @ vs)"
    using inv_distinct [OF inv blt] ch by auto
  have len: "length ids' = length ?ids" using ids' by (simp add: unlinked_def)
  have hid: "hn_id (ids' ! i) = (if i = t then -1 else hn_id (?ids ! i))" if "i < length ?ids" for i
  proof -
    have "map hn_id ids' ! i = (map hn_id ?ids)[t := -1] ! i" using ids' by (simp add: unlinked_def)
    then show ?thesis using that t len by (simp add: nth_list_update)
  qed
  have same: "ids' ! i = ?ids ! i" if "i \<notin> set (ch b)" for i
    using ids' that by (simp add: unlinked_def)
  have other: "linked ids' (hi_hash hi ! h) (ch h)" if "h < length (hi_hash hi)" "h \<noteq> b" for h
  proof -
    have "set (ch h) \<inter> set (ch b) = {}"
      using inv_memD(3) [OF inv that(1)] inv_memD(3) [OF inv blt] that(2) by blast
    then have "linked ids' (hi_hash hi ! h) (ch h) = linked ?ids (hi_hash hi ! h) (ch h)"
      using same by (intro linked_cong) (auto simp: len)
    then show ?thesis using inv that by (simp add: hashid_inv_def)
  qed
  have "Suc (length (filter (\<lambda>x. x \<noteq> -1) ((map hn_id ?ids)[t := -1]))) =
      length (filter (\<lambda>x. x \<noteq> -1) (map hn_id ?ids))"
    using t by (intro filter_list_update) auto
  then have count: "Suc (length (filter used ids')) = length (filter used ?ids)"
    using ids' by (simp only: used_count unlinked_def)
  have free: "hn_next (ids' ! i) = None" if "i < length ?ids" "\<not> used (ids' ! i)" for i
  proof (cases "i = t")
    case True
    with ids' show ?thesis by (simp add: unlinked_def)
  next
    case False
    with that hid have "\<not> used (?ids ! i)" by simp
    with inv_memD(2) [OF inv blt] have "i \<notin> set (ch b)" by blast
    with same inv_free [OF inv that(1) \<open>\<not> used (?ids ! i)\<close>] show ?thesis by simp
  qed
  have mem: "i \<in> set ((ch(b := us @ vs)) h) \<longleftrightarrow> used (ids' ! i) \<and> bucket hi (hn_id (ids' ! i)) = h"
    if "h < length (hi_hash hi)" "i < length ?ids" for h i
    using inv_mem [OF inv that] hid [OF that(2)] t dist ch that by (cases "i = t") auto
  show ?thesis
    using inv blt len count lnk other free mem dist
    by (simp add: hashid_inv_def nth_list_update)
qed

text \<open>Unlinking the head of a chain is the case without predecessors.\<close>

lemma remove_head:
  assumes "linked (hi_id hi) (Some t) (t # vs)" and "distinct (t # vs)"
  defines "ids' \<equiv> (hi_id hi)[t := \<lparr>hn_id = -1, hn_next = None\<rparr>]"
  shows "unlinked (hi_id hi) (t # vs) t ids'" and "linked ids' (hn_next (hi_id hi ! t)) vs"
  using assms by (simp_all add: unlinked_def map_update linked_update)

lemma remove_present:
  assumes inv: "hashid_inv hi ch" and t: "t < length (hi_id hi)" "hn_id (hi_id hi ! t) = key" "key \<noteq> -1"
  shows "\<exists>hi' ch' s. hashid_remove hi key = Some (Inr (hi', -1)) \<and> hashid_inv hi' ch' \<and>
           s < length (hi_id hi) \<and> hn_id (hi_id hi ! s) = key \<and>
           map hn_id (hi_id hi') = (map hn_id (hi_id hi))[s := -1] \<and> hi_count hi' = hi_count hi - 1"
proof -
  let ?b = "bucket hi key"
  have b: "?b < length (hi_hash hi)" by (rule bucket_bound [OF inv])
  have "t \<in> set (ch ?b)" using inv_mem [OF inv b t(1)] t(2,3) by simp
  then have "\<exists>x \<in> set (ch ?b). hn_id (hi_id hi ! x) = key" using t(2) by blast
  from split_list_first_prop [OF this] obtain us s vs where ch: "ch ?b = us @ s # vs" and s: "hn_id (hi_id hi ! s) = key"
    and us: "\<forall>u \<in> set us. hn_id (hi_id hi ! u) \<noteq> key"
    by blast
  have slt: "s < length (hi_id hi)" using inv_memD(1) [OF inv b, of s] ch by simp
  have lnk: "linked (hi_id hi) (hi_hash hi ! ?b) (us @ s # vs)"
    and dist: "distinct (us @ s # vs)"
    using inv_chain [OF inv b] inv_distinct [OF inv b] ch by simp_all
  have "\<exists>hd ids'. hashid_remove hi key = Some (Inr (hi\<lparr>hi_hash := (hi_hash hi)[?b := hd],
            hi_id := ids', hi_count := hi_count hi - 1\<rparr>, -1)) \<and>
          unlinked (hi_id hi) (us @ s # vs) s ids' \<and> linked ids' hd (us @ vs)"
  proof (cases us)
    case Nil
    with lnk have head: "hi_hash hi ! ?b = Some s" by simp
    have "hashid_remove hi key = Some (Inr (hi\<lparr>hi_hash := (hi_hash hi)[?b := hn_next (hi_id hi ! s)],
        hi_id := (hi_id hi)[s := \<lparr>hn_id = -1, hn_next = None\<rparr>], hi_count := hi_count hi - 1\<rparr>, -1))"
      using head slt s nthR_bucket [OF inv, of key]
      by (simp add: hashid_remove_def Let_def hashid_remove_clear_def bucket_def)
    with remove_head [of hi s vs] lnk dist Nil head show ?thesis
      by (intro exI [of _ "hn_next (hi_id hi ! s)"]
          exI [of _ "(hi_id hi)[s := \<lparr>hn_id = -1, hn_next = None\<rparr>]"]) simp
  next
    case (Cons c us')
    with lnk have head: "hi_hash hi ! ?b = Some c" "c < length (hi_id hi)" by simp_all
    with remove_loop_present [of hi c us' s vs key] lnk dist us s Cons obtain ids' where
      "hashid_remove_loop hi key c = Some (Inr (hi\<lparr>hi_id := ids', hi_count := hi_count hi - 1\<rparr>, -1))"
      "unlinked (hi_id hi) (us @ s # vs) s ids'" "linked ids' (Some c) (us @ vs)"
      by auto
    moreover have "hashid_remove hi key = hashid_remove_loop hi key c"
      using head us Cons nthR_bucket [OF inv, of key] by (simp add: hashid_remove_def Let_def)
    moreover have "(hi_hash hi)[?b := Some c] = hi_hash hi"
      using head b by (metis list_update_id)
    ultimately show ?thesis by (intro exI [of _ "Some c"] exI [of _ ids']) simp
  qed
  then obtain hd ids' where r: "hashid_remove hi key = Some (Inr (hi\<lparr>hi_hash := (hi_hash hi)[?b := hd],
            hi_id := ids', hi_count := hi_count hi - 1\<rparr>, -1))"
    and u: "unlinked (hi_id hi) (us @ s # vs) s ids'" and l: "linked ids' hd (us @ vs)" by blast
  have "hashid_inv (hi\<lparr>hi_hash := (hi_hash hi)[?b := hd], hi_id := ids',
      hi_count := hi_count hi - 1\<rparr>) (ch(?b := us @ vs))"
    using unlink_inv [OF inv refl ch _ l] u ch by simp
  with r u slt s show ?thesis
    by (intro exI [of _ "hi\<lparr>hi_hash := (hi_hash hi)[?b := hd], hi_id := ids',
        hi_count := hi_count hi - 1\<rparr>"] exI [of _ "ch(?b := us @ vs)"] exI [of _ s])
      (simp add: unlinked_def)
qed

lemma remove_absent:
  assumes inv: "hashid_inv hi ch" and "key \<notin> hashid_ids hi" and "key \<noteq> -1"
  shows "hashid_remove hi key = Some (Inr (hi, -1))"
proof -
  let ?b = "bucket hi key"
  have b: "?b < length (hi_hash hi)" by (rule bucket_bound [OF inv])
  have none: "hn_id (hi_id hi ! i) \<noteq> key" if "i \<in> set (ch ?b)" for i
    using inv_memD(1) [OF inv b that] assms(2,3) by (auto simp: hashid_ids_def)
  show ?thesis
  proof (cases "ch ?b")
    case Nil
    then show ?thesis using inv_chain [OF inv b] nthR_bucket [OF inv, of key]
      by (simp add: hashid_remove_def Let_def)
  next
    case (Cons c js)
    then have "linked (hi_id hi) (Some c) (c # js)" "hi_hash hi ! ?b = Some c"
      using inv_chain [OF inv b] by auto
    with remove_loop_absent [of hi c js key] none Cons nthR_bucket [OF inv, of key] show ?thesis
      by (simp add: hashid_remove_def Let_def)
  qed
qed

section \<open>The table as a set\<close>

lemma ids_conv: "hashid_ids hi = set (map hn_id (hi_id hi)) - {-1}"
  by (force simp: hashid_ids_def set_conv_nth)


definition hashid_two :: hashid where
  "hashid_two = \<lparr>hi_hashmod = 15, hi_cap = 2, hi_count = 1,
      hi_id = [\<lparr>hn_id = 4, hn_next = None\<rparr>, \<lparr>hn_id = -1, hn_next = None\<rparr>],
      hi_hash = (replicate 16 None)[4 := Some 0]\<rparr>"

lemma hashid_two_inv: "hashid_inv hashid_two (\<lambda>h. if h = 4 then [0] else [])"
  by (auto simp: hashid_inv_def hashid_two_def bucket_def less_Suc_eq nth_list_update)


end
