(* ===== verification/Cstring.thy ===== *)
theory Cstring
  imports Prelude "HOL-Library.Char_ord" "HOL-Library.List_Lexorder"
begin

text \<open>
  The parts of the C and C++ libraries for text that the modelled code uses: \<open>strtol\<close>,
  \<open>strtoul\<close>, \<open>std::stoul\<close>, \<open>std::to_string\<close>, \<open>memcmp\<close> against a literal, and \<open>strsep\<close>
  on spaces. A C string is the list of its characters before the terminating NUL.
\<close>

section \<open>Characters and numbers\<close>

definition is_space :: "char \<Rightarrow> bool" where
  "is_space c \<longleftrightarrow> c \<in> {CHR '' '', CHR 0x09, CHR 0x0A, CHR 0x0B, CHR 0x0C, CHR 0x0D}"

definition digit_value :: "char \<Rightarrow> nat" where
  "digit_value c =
     (let n = (of_char c :: nat) in
      if 48 \<le> n \<and> n \<le> 57 then n - 48
      else if 97 \<le> n \<and> n \<le> 122 then n - 87
      else if 65 \<le> n \<and> n \<le> 90 then n - 55
      else 36)"

text \<open>The value of the longest prefix of digits in the base, and how many digits it has.\<close>

fun scan_digits :: "nat \<Rightarrow> string \<Rightarrow> nat \<Rightarrow> nat \<Rightarrow> nat \<times> nat" where
  "scan_digits base [] acc n = (acc, n)"
| "scan_digits base (c # cs) acc n =
     (if digit_value c < base then scan_digits base cs (acc * base + digit_value c) (Suc n)
      else (acc, n))"

text \<open>White space, an optional sign, for base 16 an optional \<open>0x\<close>, then digits.\<close>

definition strip_prefix16 :: "nat \<Rightarrow> string \<Rightarrow> string" where
  "strip_prefix16 base s =
     (case s of
        a # x # d # rest \<Rightarrow>
          (if base = 16 \<and> a = CHR ''0'' \<and> (x = CHR ''x'' \<or> x = CHR ''X'') \<and> digit_value d < 16
           then d # rest else s)
      | _ \<Rightarrow> s)"

definition scan_number :: "nat \<Rightarrow> string \<Rightarrow> bool \<times> nat \<times> nat" where
  "scan_number base s =
     (let s1 = dropWhile is_space s;
          neg = (s1 \<noteq> [] \<and> hd s1 = CHR ''-'');
          s2 = (if s1 \<noteq> [] \<and> (hd s1 = CHR ''-'' \<or> hd s1 = CHR ''+'') then tl s1 else s1)
      in (neg, scan_digits base (strip_prefix16 base s2) 0 0))"

text \<open>\<open>int x = strtol (s, NULL, 10)\<close>: clamped to \<open>long\<close>, then truncated to 32 bits.\<close>

definition strtol10 :: "string \<Rightarrow> int" where
  "strtol10 s =
     (let (neg, v, n) = scan_number 10 s;
          w = (if neg then - int v else int v);
          l = (if w > 2 ^ 63 - 1 then 2 ^ 63 - 1 else if w < - (2 ^ 63) then - (2 ^ 63) else w)
      in signed_take_bit 31 l)"

text \<open>\<open>uint32_t x = strtoul (s, NULL, 16)\<close>: clamped to \<open>unsigned long\<close>, negated if signed, truncated.\<close>

definition strtoul16 :: "string \<Rightarrow> u32" where
  "strtoul16 s =
     (let (neg, v, n) = scan_number 16 s in
      if v > 2 ^ 64 - 1 then word_of_int (2 ^ 64 - 1)
      else word_of_int (if neg then - int v else int v))"

text \<open>\<open>uint32_t x = std::stoul (s, nullptr, 16)\<close> throws without a digit and out of range.\<close>

definition stoul16 :: "string \<Rightarrow> u32 res" where
  "stoul16 s =
     (let (neg, v, n) = scan_number 16 s in
      if n = 0 \<or> v > 2 ^ 64 - 1 then Inl Exception else Inr (strtoul16 s))"

section \<open>Printing\<close>

fun nat_digits :: "nat \<Rightarrow> string" where
  "nat_digits n =
     (if n < 10 then [char_of (48 + n)] else nat_digits (n div 10) @ [char_of (48 + n mod 10)])"

declare nat_digits.simps [simp del]

definition to_string :: "int \<Rightarrow> string" where
  "to_string i = (if i < 0 then CHR ''-'' # nat_digits (nat (- i)) else nat_digits (nat i))"

lemma nat_digits_nonempty [simp]: "nat_digits n \<noteq> []"
  by (subst nat_digits.simps) simp

lemma to_string_nonempty [simp]: "to_string i \<noteq> []"
  by (simp add: to_string_def)

definition bytes_of :: "string \<Rightarrow> u8 list" where
  "bytes_of s = map of_char s"

lemma length_bytes_of [simp]: "length (bytes_of s) = length s"
  by (simp add: bytes_of_def)

section \<open>Comparing and splitting\<close>

text \<open>
  \<open>memcmp (s, lit, n) == 0\<close> for a string literal: the literal's array holds one NUL past its
  characters, and comparing equal bytes up to the end of it reads past the array.
\<close>

definition memcmp_literal :: "string \<Rightarrow> string \<Rightarrow> nat \<Rightarrow> bool res" where
  "memcmp_literal s lit n =
     (let l = lit @ [CHR 0x00] in
      if n \<le> length l then Inr (take n s = take n l)
      else if take (length l) s = l then Inl OutOfBounds else Inr False)"

text \<open>\<open>strsep (&s, " ")\<close>: the token up to the first space and what is behind it, if there is one.\<close>

definition strsep_space :: "string \<Rightarrow> string \<times> string option" where
  "strsep_space s =
     (let tok = takeWhile (\<lambda>c. c \<noteq> CHR '' '') s; rest = dropWhile (\<lambda>c. c \<noteq> CHR '' '') s
      in (tok, if rest = [] then None else Some (tl rest)))"

text \<open>The characters in front of the terminating NUL.\<close>

definition c_str :: "string \<Rightarrow> string" where
  "c_str s = takeWhile (\<lambda>c. c \<noteq> CHR 0x00) s"

section \<open>Scanning\<close>

text \<open>The conversions \<open>%s\<close>, \<open>%d\<close> and \<open>%u\<close> of \<open>sscanf\<close>, and the text behind them.\<close>

definition scan_word :: "string \<Rightarrow> (string \<times> string) option" where
  "scan_word s =
     (let s' = dropWhile is_space s; w = takeWhile (\<lambda>c. \<not> is_space c) s'
      in if w = [] then None else Some (w, dropWhile (\<lambda>c. \<not> is_space c) s'))"

definition scan_int :: "string \<Rightarrow> (int \<times> string) option" where
  "scan_int s =
     (let s1 = dropWhile is_space s;
          signed = (s1 \<noteq> [] \<and> (hd s1 = CHR ''-'' \<or> hd s1 = CHR ''+''));
          (neg, v, n) = scan_number 10 s
      in if n = 0 then None
         else Some (strtol10 s, drop n (if signed then tl s1 else s1)))"

definition scan_uint :: "string \<Rightarrow> u32 option" where
  "scan_uint s =
     (case scan_number 10 s of (neg, v, n) \<Rightarrow>
        if n = 0 then None
        else if v > 2 ^ 64 - 1 then Some (word_of_int (2 ^ 64 - 1))
        else Some (word_of_int (if neg then - int v else int v)))"

section \<open>Strings of bytes\<close>

text \<open>
  \<open>std::string (p)\<close> of a \<open>char *\<close> into an array: the bytes before the first NUL; without a NUL
  the constructor reads past the array.
\<close>

definition std_string :: "u8 list \<Rightarrow> u8 list res" where
  "std_string mem = (if 0 \<in> set mem then Inr (takeWhile (\<lambda>b. b \<noteq> 0) mem) else Inl OutOfBounds)"

definition string_of :: "u8 list \<Rightarrow> string" where
  "string_of bs = map (\<lambda>b. char_of (unat b)) bs"

lemma takeWhile_short:
  assumes "k < length xs" and "\<not> P (xs ! k)"
  shows "length (takeWhile P xs) \<le> k"
proof (rule ccontr)
  assume "\<not> length (takeWhile P xs) \<le> k"
  then have "k < length (takeWhile P xs)" by simp
  then have "P (takeWhile P xs ! k)" by (meson nth_mem set_takeWhileD)
  with \<open>k < length (takeWhile P xs)\<close> assms(2) show False by (simp add: takeWhile_nth)
qed

lemma takeWhile_stop: "\<not> P y \<Longrightarrow> takeWhile P (xs @ [y]) = takeWhile P xs"
  by (induction xs) auto

end
