(* ===== verification/Calls.thy ===== *)
theory Calls
  imports Cstring
begin

text \<open>
  What the services under \<open>service-src\<close> share with the framework: the message types of
  \<open>skynet-src/include/skynet.h\<close>, the socket messages of \<open>skynet-src/include/socket.h\<close>, and the
  calls a handler makes into the framework. A handler of the model returns its calls in the order
  in which they are made.
\<close>

section \<open>Message types\<close>

definition kPtypeText :: int where "kPtypeText = 0"
definition kPtypeClient :: int where "kPtypeClient = 3"
definition kPtypeSystem :: int where "kPtypeSystem = 4"
definition kPtypeHarbor :: int where "kPtypeHarbor = 5"
definition kPtypeSocket :: int where "kPtypeSocket = 6"
definition kPtypeError :: int where "kPtypeError = 7"
definition kPtypeTagDontcopy :: int where "kPtypeTagDontcopy = 0x10000"

section \<open>Socket messages\<close>

text \<open>\<open>struct SkynetSocketMessage\<close>; \<open>sm_tail\<close> is what lies behind the structure in memory.\<close>

record socket_message =
  sm_type :: int
  sm_id :: int
  sm_ud :: int
  sm_buffer :: "u8 list"
  sm_tail :: string

definition kSocketTypeData :: int where "kSocketTypeData = 1"
definition kSocketTypeConnect :: int where "kSocketTypeConnect = 2"
definition kSocketTypeClose :: int where "kSocketTypeClose = 3"
definition kSocketTypeAccept :: int where "kSocketTypeAccept = 4"
definition kSocketTypeError :: int where "kSocketTypeError = 5"
definition kSocketTypeWarning :: int where "kSocketTypeWarning = 7"

lemmas socket_type_defs = kSocketTypeData_def kSocketTypeConnect_def kSocketTypeClose_def
  kSocketTypeAccept_def kSocketTypeError_def kSocketTypeWarning_def

section \<open>Calls\<close>

text \<open>
  \<open>ServiceSend source destination type session data\<close>; \<open>SocketSendBuffer fd str sz\<close> carries the
  \<open>std::string\<close> the \<open>Sendbuffer\<close> points to and its field \<open>sz\<close>.
\<close>

datatype call =
    ServiceSend u32 u32 int int "u8 list"
  | SocketClose int
  | SocketStart int
  | SkynetError string
  | SocketSendBuffer int "u8 list" nat
  | ServiceCallback
  | HarborStart

end
