(* ===== verification/Gate.thy ===== *)
theory Gate
  imports Databuffer Hashid Calls
begin

text \<open>
  \<open>service-src/service_gate.cpp\<close>: the service that accepts TCP connections and forwards the
  length-prefixed messages it receives on them to other services. The state is the
  \<open>struct Gate\<close> with its array of \<open>struct Connection\<close>; the calls a handler makes into the rest
  of the system (\<open>ServiceSend\<close>, \<open>SocketClose\<close>, \<open>SocketStart\<close>, \<open>SkynetError\<close>,
  \<open>ServiceCallback\<close>) are returned in the order in which they are made.
\<close>

section \<open>Data\<close>

record connection =
  c_id :: int
  c_agent :: u32
  c_client :: u32
  c_remote_name :: string
  c_buffer :: databuffer

record gate =
  g_listen_id :: int
  g_watchdog :: u32
  g_broker :: u32
  g_client_tag :: int
  g_header_size :: int
  g_max_connection :: int
  g_hash :: hashid
  g_conn :: "connection list"
  g_mp :: messagepool

definition connection_zero :: connection where
  "connection_zero = \<lparr>c_id = 0, c_agent = 0, c_client = 0, c_remote_name = [],
                      c_buffer = databuffer_zero\<rparr>"

section \<open>Creation and release\<close>

definition gate_create :: gate where
  "gate_create =
     \<lparr>g_listen_id = -1, g_watchdog = 0, g_broker = 0, g_client_tag = 0, g_header_size = 0,
      g_max_connection = 0,
      g_hash = \<lparr>hi_hashmod = 0, hi_cap = 0, hi_count = 0, hi_id = [], hi_hash = []\<rparr>,
      g_conn = [], g_mp = \<lparr>mp_blocks = 0, mp_freelist = []\<rparr>\<rparr>"

fun release_connections :: "connection list \<Rightarrow> int \<Rightarrow> nat \<Rightarrow> call list res" where
  "release_connections conn i 0 = Inr []"
| "release_connections conn i (Suc k) =
     bindR (nthR conn i) (\<lambda>c.
     bindR (release_connections conn (i + 1) k) (\<lambda>calls.
       Inr ((if c_id c \<ge> 0 then [SocketClose (c_id c)] else []) @ calls)))"

definition gate_release :: "gate \<Rightarrow> (gate \<times> call list) res" where
  "gate_release g =
     bindR (release_connections (g_conn g) 0 (nat (g_max_connection g))) (\<lambda>calls.
       Inr (g\<lparr>g_mp := messagepool_free (g_mp g), g_hash := hashid_clear (g_hash g)\<rparr>,
            calls @ (if g_listen_id g \<ge> 0 then [SocketClose (g_listen_id g)] else [])))"

section \<open>Text commands\<close>

text \<open>\<open>_parm\<close>: skip the command and the spaces behind it, move the rest to the front.\<close>

definition parm :: "string \<Rightarrow> nat \<Rightarrow> string" where
  "parm msg command_sz = dropWhile (\<lambda>c. c = CHR '' '') (drop command_sz msg)"

definition forward_agent :: "gate \<Rightarrow> int \<Rightarrow> u32 \<Rightarrow> u32 \<Rightarrow> gate res option" where
  "forward_agent g fd agentaddr clientaddr =
     bindO (hashid_lookup (g_hash g) fd) (\<lambda>i.
       if i \<ge> 0 then
         Some (bindR (nthR (g_conn g) i) (\<lambda>agent.
               bindR (updR (g_conn g) i (agent\<lparr>c_agent := agentaddr, c_client := clientaddr\<rparr>)) (\<lambda>conn.
                 Inr (g\<lparr>g_conn := conn\<rparr>))))
       else Some (Inr g))"

text \<open>\<open>SkynetQueryname\<close> of \<open>skynet-src/skynet.cpp\<close>.\<close>

definition SkynetQueryname :: "string \<Rightarrow> (u32 \<times> call list) res" where
  "SkynetQueryname name =
     (case name of
        c # rest \<Rightarrow>
          (if c = CHR '':'' then bindR (stoul16 rest) (\<lambda>h. Inr (h, []))
           else if c = CHR ''.'' then Inr (0, [])
           else Inr (0, [SkynetError (''Don'' @ [CHR 0x27] @ ''t support query global name '' @ name)]))
      | [] \<Rightarrow> Inr (0, [SkynetError (''Don'' @ [CHR 0x27] @ ''t support query global name '' @ name)]))"

text \<open>
  The branches of \<open>_ctrl\<close> for a recognised command. \<open>arg\<close> is the text after \<open>_parm\<close>.
\<close>

definition ctrl_kick :: "gate \<Rightarrow> string \<Rightarrow> (gate \<times> call list) res option" where
  "ctrl_kick g arg =
     (let uid = strtol10 arg in
      bindO (hashid_lookup (g_hash g) uid) (\<lambda>i.
        Some (Inr (g, if i \<ge> 0 then [SocketClose uid] else []))))"

definition ctrl_forward :: "gate \<Rightarrow> string \<Rightarrow> (gate \<times> call list) res option" where
  "ctrl_forward g arg =
     (case strsep_space (c_str arg) of
        (idstr, None) \<Rightarrow> Some (Inr (g, []))
      | (idstr, Some client) \<Rightarrow>
          (case strsep_space client of
             (agent, None) \<Rightarrow> Some (Inr (g, []))
           | (agent, Some client') \<Rightarrow>
               bindO (forward_agent g (strtol10 idstr) (strtoul16 (drop 1 agent))
                       (strtoul16 (drop 1 client'))) (\<lambda>g'. Some (Inr (g', [])))))"

definition ctrl_broker :: "gate \<Rightarrow> string \<Rightarrow> (gate \<times> call list) res option" where
  "ctrl_broker g arg =
     Some (bindR (SkynetQueryname (c_str arg)) (\<lambda>(h, calls). Inr (g\<lparr>g_broker := h\<rparr>, calls)))"

definition ctrl_start :: "gate \<Rightarrow> string \<Rightarrow> (gate \<times> call list) res option" where
  "ctrl_start g arg =
     (let uid = strtol10 arg in
      bindO (hashid_lookup (g_hash g) uid) (\<lambda>i.
        Some (Inr (g, if i \<ge> 0 then [SocketStart uid] else []))))"

definition ctrl_close :: "gate \<Rightarrow> (gate \<times> call list) res option" where
  "ctrl_close g =
     (if g_listen_id g \<ge> 0 then Some (Inr (g\<lparr>g_listen_id := -1\<rparr>, [SocketClose (g_listen_id g)]))
      else Some (Inr (g, [])))"

definition ctrl :: "gate \<Rightarrow> string \<Rightarrow> (gate \<times> call list) res option" where
  "ctrl g msg =
     (if msg = [] then Some (Inr (g, []))
      else
        let i = length (takeWhile (\<lambda>c. c \<noteq> CHR '' '') msg) in
        bindO (Some (memcmp_literal msg ''kick'' i)) (\<lambda>is_kick.
        if is_kick then ctrl_kick g (parm msg i) else
        bindO (Some (memcmp_literal msg ''forward'' i)) (\<lambda>is_forward.
        if is_forward then ctrl_forward g (parm msg i) else
        bindO (Some (memcmp_literal msg ''broker'' i)) (\<lambda>is_broker.
        if is_broker then ctrl_broker g (parm msg i) else
        bindO (Some (memcmp_literal msg ''start'' i)) (\<lambda>is_start.
        if is_start then ctrl_start g (parm msg i) else
        bindO (Some (memcmp_literal msg ''close'' i)) (\<lambda>is_close.
        if is_close then ctrl_close g else
          Some (Inr (g, [SkynetError (''[Gate] Unkown command : '' @ c_str msg)]))))))))"

definition report :: "gate \<Rightarrow> string \<Rightarrow> call list" where
  "report g text =
     (if g_watchdog g = 0 then []
      else [ServiceSend 0 (g_watchdog g) kPtypeText 0 (bytes_of text)])"

section \<open>Forwarding of received data\<close>

text \<open>
  \<open>_forward\<close>. The scratch array \<open>temp\<close> has \<open>len\<close> bytes; in the watchdog branch \<open>snprintf\<close>
  puts the prefix "<id> data " at its start (at most 31 characters and a NUL) and the message
  is copied behind the \<open>n\<close> characters of the whole prefix.
\<close>

definition forward :: "gate \<Rightarrow> connection \<Rightarrow> int \<Rightarrow> (gate \<times> connection \<times> call list) res" where
  "forward g c len =
     (let fd = c_id c in
      if fd \<le> 0 then Inr (g, c, [])
      else if g_broker g \<noteq> 0 then
        bindR (databuffer_read (c_buffer c) (g_mp g) len) (\<lambda>(db, mp, temp).
          Inr (g\<lparr>g_mp := mp\<rparr>, c\<lparr>c_buffer := db\<rparr>,
               [ServiceSend 0 (g_broker g) (g_client_tag g OR kPtypeTagDontcopy) fd temp]))
      else if c_agent c \<noteq> 0 then
        bindR (databuffer_read (c_buffer c) (g_mp g) len) (\<lambda>(db, mp, temp).
          Inr (g\<lparr>g_mp := mp\<rparr>, c\<lparr>c_buffer := db\<rparr>,
               [ServiceSend (c_client c) (c_agent c) (g_client_tag g OR kPtypeTagDontcopy) fd temp]))
      else if g_watchdog g \<noteq> 0 then
        let prefix = bytes_of (to_string (c_id c) @ '' data ''); n = int (length prefix) in
        if min 32 (n + 1) > len then Inl OutOfBounds
        else
          bindR (databuffer_read (c_buffer c) (g_mp g) len) (\<lambda>(db, mp, data).
            if n + len > len then Inl OutOfBounds
            else Inr (g\<lparr>g_mp := mp\<rparr>, c\<lparr>c_buffer := db\<rparr>,
                   [ServiceSend 0 (g_watchdog g) (kPtypeText OR kPtypeTagDontcopy) fd (prefix @ data)]))
      else Inr (g, c, []))"

text \<open>The \<open>for (;;)\<close> of \<open>dispatch_message\<close>.\<close>

partial_function (option) dispatch_loop ::
  "gate \<Rightarrow> connection \<Rightarrow> int \<Rightarrow> call list \<Rightarrow> (gate \<times> connection \<times> call list) res option" where
  "dispatch_loop g c sid out =
     (case databuffer_readheader (c_buffer c) (g_mp g) (g_header_size g) of
        Inl e \<Rightarrow> Some (Inl e)
      | Inr r \<Rightarrow>
          (case r of (db, mp, len) \<Rightarrow>
             if len < 0 then Some (Inr (g\<lparr>g_mp := mp\<rparr>, c\<lparr>c_buffer := db\<rparr>, out))
             else if len > 0 then
               if len \<ge> 0x1000000 then
                 (case databuffer_clear db mp of (db', mp') \<Rightarrow>
                    Some (Inr (g\<lparr>g_mp := mp'\<rparr>, c\<lparr>c_buffer := db'\<rparr>,
                      out @ [SocketClose sid, SkynetError ''Recv socket message > 16M''])))
               else
                 (case forward (g\<lparr>g_mp := mp\<rparr>) (c\<lparr>c_buffer := db\<rparr>) len of
                    Inl e \<Rightarrow> Some (Inl e)
                  | Inr r' \<Rightarrow>
                      (case r' of (g', c', calls) \<Rightarrow>
                         dispatch_loop g' (c'\<lparr>c_buffer := databuffer_reset (c_buffer c')\<rparr>) sid
                           (out @ calls)))
             else dispatch_loop (g\<lparr>g_mp := mp\<rparr>) (c\<lparr>c_buffer := db\<rparr>) sid out))"

definition dispatch_message ::
  "gate \<Rightarrow> connection \<Rightarrow> int \<Rightarrow> u8 list \<Rightarrow> int \<Rightarrow> (gate \<times> connection \<times> call list) res option" where
  "dispatch_message g c sid data sz =
     (case databuffer_push (c_buffer c) (g_mp g) data sz of (db, mp) \<Rightarrow>
        dispatch_loop (g\<lparr>g_mp := mp\<rparr>) (c\<lparr>c_buffer := db\<rparr>) sid [])"

section \<open>Socket messages and the callback\<close>

definition gate_data :: "gate \<Rightarrow> socket_message \<Rightarrow> (gate \<times> call list) res option" where
  "gate_data g m =
     bindO (hashid_lookup (g_hash g) (sm_id m)) (\<lambda>i.
       if i \<ge> 0 then
         bindO (Some (nthR (g_conn g) i)) (\<lambda>c.
         bindO (dispatch_message g c (sm_id m) (sm_buffer m) (sm_ud m)) (\<lambda>(g', c', calls).
           Some (Inr (g'\<lparr>g_conn := (g_conn g')[nat i := c']\<rparr>, calls))))
       else
         Some (Inr (g, [SkynetError (''Drop unknown Connection '' @ to_string (sm_id m) @ ''message''),
                        SocketClose (sm_id m)])))"

definition gate_connect :: "gate \<Rightarrow> socket_message \<Rightarrow> (gate \<times> call list) res option" where
  "gate_connect g m =
     (if sm_id m = g_listen_id g then Some (Inr (g, []))
      else
        bindO (hashid_lookup (g_hash g) (sm_id m)) (\<lambda>i.
          Some (Inr (g, if i < 0 then
              [SkynetError (''Close unknown Connection '' @ to_string (sm_id m)), SocketClose (sm_id m)]
            else []))))"

definition gate_closed :: "gate \<Rightarrow> socket_message \<Rightarrow> (gate \<times> call list) res option" where
  "gate_closed g m =
     bindO (hashid_remove (g_hash g) (sm_id m)) (\<lambda>(hi, i).
       let g1 = g\<lparr>g_hash := hi\<rparr> in
       if i \<ge> 0 then
         bindO (Some (nthR (g_conn g1) i)) (\<lambda>c.
           case databuffer_clear (c_buffer c) (g_mp g1) of (db, mp) \<Rightarrow>
             let g2 = g1\<lparr>g_mp := mp, g_conn := (g_conn g1)[nat i := connection_zero\<lparr>c_id := -1\<rparr>]\<rparr>
             in Some (Inr (g2, report g2 (to_string (sm_id m) @ '' close''))))
       else Some (Inr (g1, [])))"

definition gate_accept :: "gate \<Rightarrow> socket_message \<Rightarrow> int \<Rightarrow> (gate \<times> call list) res" where
  "gate_accept g m sz =
     bindR (assertR (g_listen_id g = sm_id m)) (\<lambda>_.
       if hashid_full (g_hash g) then Inr (g, [SocketClose (sm_ud m)])
       else
         bindR (hashid_insert (g_hash g) (sm_ud m)) (\<lambda>(hi, i).
         bindR (nthR (g_conn g) i) (\<lambda>c.
           let sz' = (if sz \<ge> 32 then 31 else sz) in
           if sz' < 0 \<or> int (length (sm_tail m)) < sz' then Inl OutOfBounds
           else
             let c' = c\<lparr>c_id := sm_ud m, c_remote_name := take (nat sz') (sm_tail m)\<rparr>;
                 g' = g\<lparr>g_hash := hi, g_conn := (g_conn g)[nat i := c']\<rparr>
             in Inr (g', report g' (to_string (c_id c') @ '' open '' @ to_string (c_id c') @ '' ''
                                    @ c_str (c_remote_name c') @ '':0'')
                         @ [SkynetError (''socket open: '' @ to_string (c_id c'))]))))"

definition dispatch_socket_message ::
  "gate \<Rightarrow> socket_message \<Rightarrow> int \<Rightarrow> (gate \<times> call list) res option" where
  "dispatch_socket_message g m sz =
     (if sm_type m = kSocketTypeData then gate_data g m
      else if sm_type m = kSocketTypeConnect then gate_connect g m
      else if sm_type m = kSocketTypeClose \<or> sm_type m = kSocketTypeError then gate_closed g m
      else if sm_type m = kSocketTypeAccept then Some (gate_accept g m sz)
      else if sm_type m = kSocketTypeWarning then
        Some (Inr (g, [SkynetError (''fd '' @ to_string (sm_id m) @ ''send buffer ''
                                    @ to_string (sm_ud m) @ ''K'')]))
      else Some (Inr (g, [])))"

text \<open>
  \<open>gate_cb\<close>: what the message pointer holds depends on the type under which it was sent. The
  case \<open>kPtypeClient\<close> has no \<open>break\<close> at its end (the code in front of it is commented out), so
  a client message longer than 4 bytes is read as a \<open>struct SkynetSocketMessage\<close>.
\<close>

datatype gate_payload = TextPayload string | SocketPayload socket_message int | OtherPayload "u8 list"

fun payload_size :: "gate_payload \<Rightarrow> int" where
  "payload_size (TextPayload s) = int (length s)"
| "payload_size (SocketPayload m sz) = 48 + sz"
| "payload_size (OtherPayload bs) = int (length bs)"

definition gate_cb_socket :: "gate \<Rightarrow> gate_payload \<Rightarrow> (gate \<times> call list) res option" where
  "gate_cb_socket g msg =
     (case msg of
        SocketPayload m sz \<Rightarrow> dispatch_socket_message g m sz
      | _ \<Rightarrow> Some (Inl TypeConfusion))"

definition gate_cb :: "gate \<Rightarrow> int \<Rightarrow> u32 \<Rightarrow> gate_payload \<Rightarrow> (gate \<times> call list) res option" where
  "gate_cb g ty source msg =
     (if ty = kPtypeText then
        (case msg of TextPayload s \<Rightarrow> ctrl g s | _ \<Rightarrow> Some (Inl TypeConfusion))
      else if ty = kPtypeClient then
        if payload_size msg \<le> 4 then
          Some (Inr (g, [SkynetError (''Invalid client message from '' @ to_string (uint source))]))
        else gate_cb_socket g msg
      else if ty = kPtypeSocket then gate_cb_socket g msg
      else Some (Inr (g, [])))"

section \<open>Start\<close>

text \<open>
  \<open>strrchr (listen_addr, ':')\<close> splits the address at its last colon. \<open>SocketListen\<close> is the socket
  layer's answer to the request, an argument here.
\<close>

definition split_last_colon :: "string \<Rightarrow> (string \<times> string) option" where
  "split_last_colon s =
     (if CHR '':'' \<in> set s then
        let port = rev (takeWhile (\<lambda>c. c \<noteq> CHR '':'') (rev s))
        in Some (take (length s - length port - 1) s, port)
      else None)"

definition start_listen ::
  "(string \<Rightarrow> int \<Rightarrow> int \<Rightarrow> int) \<Rightarrow> gate \<Rightarrow> string \<Rightarrow> gate \<times> call list \<times> int" where
  "start_listen SocketListen g listen_addr =
     (let (host, port) = (case split_last_colon listen_addr of
            None \<Rightarrow> ([], strtol10 listen_addr)
          | Some (h, p) \<Rightarrow> (h, strtol10 p))
      in if port \<le> 0 then (g, [SkynetError (''Invalid Gate address '' @ listen_addr)], 1)
         else
           let l = SocketListen host port 128; g' = g\<lparr>g_listen_id := l\<rparr>
           in if l < 0 then (g', [], 1) else (g', [SocketStart l], 0))"

text \<open>
  \<open>sscanf (parm, "%c %s %s %d %d", ...)\<close>: the number of conversions, and what they stored; a
  conversion that is not reached leaves its variable as it was (\<open>client_tag\<close> and \<open>max\<close> are 0).
\<close>

definition sscanf_parm :: "string \<Rightarrow> int \<times> char \<times> string \<times> string \<times> int \<times> int" where
  "sscanf_parm s =
     (case s of
        [] \<Rightarrow> (-1, CHR 0x00, [], [], 0, 0)
      | header # s1 \<Rightarrow>
     (case scan_word s1 of
        None \<Rightarrow> (1, header, [], [], 0, 0)
      | Some (watchdog, s2) \<Rightarrow>
     (case scan_word s2 of
        None \<Rightarrow> (2, header, watchdog, [], 0, 0)
      | Some (binding, s3) \<Rightarrow>
     (case scan_int s3 of
        None \<Rightarrow> (3, header, watchdog, binding, 0, 0)
      | Some (client_tag, s4) \<Rightarrow>
     (case scan_int s4 of
        None \<Rightarrow> (4, header, watchdog, binding, client_tag, 0)
      | Some (maxn, s5) \<Rightarrow> (5, header, watchdog, binding, client_tag, maxn))))))"

text \<open>
  The tail of \<open>gate_init\<close>, after the parameters have been accepted: \<open>gate->conn\<close> is one
  \<open>Connection\<close>, and the loop stores to \<open>gate->conn[i].id\<close> for every \<open>i < max\<close>.
\<close>

fun clear_conn_ids :: "connection list \<Rightarrow> int \<Rightarrow> nat \<Rightarrow> connection list res" where
  "clear_conn_ids conn i 0 = Inr conn"
| "clear_conn_ids conn i (Suc k) =
     bindR (nthR conn i) (\<lambda>c.
     bindR (updR conn i (c\<lparr>c_id := -1\<rparr>)) (\<lambda>conn'. clear_conn_ids conn' (i + 1) k))"

definition gate_init_accepted ::
  "(string \<Rightarrow> int \<Rightarrow> int \<Rightarrow> int) \<Rightarrow> gate \<Rightarrow> char \<Rightarrow> string \<Rightarrow> int \<Rightarrow> int \<Rightarrow>
     (gate \<times> call list \<times> int) res" where
  "gate_init_accepted SocketListen g header binding client_tag maxn =
     bindR (hashid_init maxn) (\<lambda>hash.
     bindR (clear_conn_ids [connection_zero] 0 (nat maxn)) (\<lambda>conn.
       let g1 = g\<lparr>g_hash := hash, g_conn := conn, g_max_connection := maxn,
                  g_client_tag := (if client_tag = 0 then kPtypeClient else client_tag),
                  g_header_size := (if header = CHR ''S'' then 2 else 4)\<rparr>
       in case start_listen SocketListen g1 binding of (g2, calls, r) \<Rightarrow>
            Inr (g2, ServiceCallback # calls, r)))"

definition gate_init ::
  "(string \<Rightarrow> int \<Rightarrow> int \<Rightarrow> int) \<Rightarrow> gate \<Rightarrow> string option \<Rightarrow> (gate \<times> call list \<times> int) res" where
  "gate_init SocketListen g init_parm =
     (case init_parm of
        None \<Rightarrow> Inr (g, [], 1)
      | Some p \<Rightarrow>
          (case sscanf_parm p of (n, header, watchdog, binding, client_tag, maxn) \<Rightarrow>
             if n < 4 then Inr (g, [SkynetError (''Invalid Gate parm '' @ p)], 1)
             else if maxn \<le> 0 then Inr (g, [SkynetError ''Need max Connection''], 1)
             else if header \<noteq> CHR ''S'' \<and> header \<noteq> CHR ''L'' then
               Inr (g, [SkynetError ''Invalid data header style''], 1)
             else if hd watchdog = CHR ''!'' then
               gate_init_accepted SocketListen (g\<lparr>g_watchdog := 0\<rparr>) header binding client_tag maxn
             else
               bindR (SkynetQueryname watchdog) (\<lambda>(w, calls).
                 let g' = g\<lparr>g_watchdog := w\<rparr> in
                 if w = 0 then Inr (g', calls @ [SkynetError (''Invalid watchdog '' @ watchdog)], 1)
                 else
                   bindR (gate_init_accepted SocketListen g' header binding client_tag maxn)
                     (\<lambda>(g'', calls', r). Inr (g'', calls @ calls', r)))))"

end
