(* ===== verification/GateFrames.thy ===== *)
theory GateFrames
  imports Gate
begin

text \<open>
  What the gate of \<open>service-src/service_gate.cpp\<close> does with the bytes of a connection: the
  specification \<open>split_frames\<close> of the framing protocol (a 2- or 4-byte big-endian length, then that
  many bytes), the refinement of it by the loop of \<open>dispatch_message\<close>, and the round trip of
  encoded messages through the gate, however the network has cut them into pieces.
\<close>

section \<open>The protocol\<close>

text \<open>
  \<open>split_frames h hdr bs\<close>: the payloads in \<open>bs\<close> when the length field in force is \<open>hdr\<close> (0: not
  read yet), the length field and the bytes that are left over, and whether a frame was too long.
\<close>

function split_frames ::
  "nat \<Rightarrow> int \<Rightarrow> u8 list \<Rightarrow> u8 list list \<times> int \<times> u8 list \<times> bool" where
  "split_frames h hdr bs =
     (if hdr = 0 then
        if h = 0 \<or> length bs < h then ([], 0, bs, False)
        else split_frames h (header_value (int h) (take h bs)) (drop h bs)
      else if hdr < 0 \<or> int (length bs) < hdr then ([], hdr, bs, False)
      else if hdr \<ge> 0x1000000 then ([], 0, [], True)
      else case split_frames h 0 (drop (nat hdr) bs) of
             (fs, hdr', rest, long) \<Rightarrow> (take (nat hdr) bs # fs, hdr', rest, long))"
  by pat_completeness auto
termination
  by (relation "measure (\<lambda>(h, hdr, bs). length bs)") auto

declare split_frames.simps [simp del]

lemma split_frames_append:
  assumes "split_frames h hdr bs = (fs, hdr', rest, False)"
  shows "split_frames h hdr (bs @ ext) =
    (case split_frames h hdr' (rest @ ext) of (fs2, hdr2, rest2, long) \<Rightarrow> (fs @ fs2, hdr2, rest2, long))"
  using assms
proof (induction h hdr bs arbitrary: fs hdr' rest rule: split_frames.induct)
  case (1 h hdr bs)
  note unfold = split_frames.simps [of h hdr bs] split_frames.simps [of h hdr "bs @ ext"]
  consider (header) "hdr = 0" "h \<noteq> 0" "h \<le> length bs"
    | (short) "(hdr = 0 \<and> (h = 0 \<or> length bs < h)) \<or> hdr < 0 \<or> int (length bs) < hdr"
    | (long) "hdr \<ge> 0x1000000" "hdr \<le> int (length bs)"
    | (frame) "0 < hdr" "hdr < 0x1000000" "hdr \<le> int (length bs)"
    by linarith
  then show ?case
  proof cases
    case header
    let ?v = "header_value (int h) (take h bs)"
    have "split_frames h hdr bs = split_frames h ?v (drop h bs)"
      "split_frames h hdr (bs @ ext) = split_frames h ?v (drop h bs @ ext)"
      unfolding unfold using header by simp_all
    then show ?thesis using "1.IH"(1) "1.prems" header by simp
  next
    case short
    then have "fs = []" "hdr' = hdr" "rest = bs"
      using "1.prems" by (auto simp: unfold(1) split: if_splits)
    then show ?thesis by (simp split: prod.split)
  next
    case long
    then show ?thesis using "1.prems" by (simp add: unfold)
  next
    case frame
    then obtain fs1 where r: "split_frames h 0 (drop (nat hdr) bs) = (fs1, hdr', rest, False)"
      and fs: "fs = take (nat hdr) bs # fs1"
      using "1.prems" by (auto simp: unfold(1) split: prod.splits)
    have n: "nat hdr \<le> length bs" using frame by simp
    have "split_frames h 0 (drop (nat hdr) bs @ ext) =
        (case split_frames h hdr' (rest @ ext) of (fs2, hdr2, rest2, long) \<Rightarrow> (fs1 @ fs2, hdr2, rest2, long))"
      using "1.IH"(2) frame r by simp
    with frame n show ?thesis by (simp add: unfold(2) fs split: prod.split)
  qed
qed

lemma split_frames_append_long:
  "split_frames h hdr bs = (fs, hdr', rest, True) \<Longrightarrow>
     split_frames h hdr (bs @ ext) = (fs, hdr', rest, True)"
proof (induction h hdr bs arbitrary: fs hdr' rest rule: split_frames.induct)
  case (1 h hdr bs)
  note unfold = split_frames.simps [of h hdr bs] split_frames.simps [of h hdr "bs @ ext"]
  consider (header) "hdr = 0" "h \<noteq> 0" "h \<le> length bs"
    | (short) "(hdr = 0 \<and> (h = 0 \<or> length bs < h)) \<or> hdr < 0 \<or> int (length bs) < hdr"
    | (long) "hdr \<ge> 0x1000000" "hdr \<le> int (length bs)"
    | (frame) "0 < hdr" "hdr < 0x1000000" "hdr \<le> int (length bs)"
    by linarith
  then show ?case
  proof cases
    case header
    let ?v = "header_value (int h) (take h bs)"
    have "split_frames h hdr bs = split_frames h ?v (drop h bs)"
      "split_frames h hdr (bs @ ext) = split_frames h ?v (drop h bs @ ext)"
      unfolding unfold using header by simp_all
    then show ?thesis using "1.IH"(1) "1.prems" header by simp
  next
    case short
    then show ?thesis using "1.prems" by (auto simp: unfold(1) split: if_splits)
  next
    case long
    then show ?thesis using "1.prems" by (simp add: unfold)
  next
    case frame
    then obtain fs1 where r: "split_frames h 0 (drop (nat hdr) bs) = (fs1, hdr', rest, True)"
      and fs: "fs = take (nat hdr) bs # fs1"
      using "1.prems" by (auto simp: unfold(1) split: prod.splits)
    have "split_frames h 0 (drop (nat hdr) bs @ ext) = (fs1, hdr', rest, True)"
      using "1.IH"(2) frame r by simp
    with frame show ?thesis by (simp add: unfold(2) fs)
  qed
qed

text \<open>What is left over holds no further frame.\<close>

lemma split_frames_rest:
  "split_frames h hdr bs = (fs, hdr', rest, False) \<Longrightarrow> split_frames h hdr' rest = ([], hdr', rest, False)"
proof (induction h hdr bs arbitrary: fs hdr' rest rule: split_frames.induct)
  case (1 h hdr bs)
  note unfold = split_frames.simps [of h hdr bs]
  consider (header) "hdr = 0" "h \<noteq> 0" "h \<le> length bs"
    | (short) "(hdr = 0 \<and> (h = 0 \<or> length bs < h)) \<or> hdr < 0 \<or> int (length bs) < hdr"
    | (long) "hdr \<ge> 0x1000000" "hdr \<le> int (length bs)"
    | (frame) "0 < hdr" "hdr < 0x1000000" "hdr \<le> int (length bs)"
    by linarith
  then show ?case
  proof cases
    case header
    then have "split_frames h hdr bs = split_frames h (header_value (int h) (take h bs)) (drop h bs)"
      unfolding unfold by simp
    then show ?thesis using "1.IH"(1) "1.prems" header by simp
  next
    case short
    then have quiet: "split_frames h hdr bs = ([], hdr, bs, False)"
      unfolding unfold by auto
    then show ?thesis using "1.prems" by simp
  next
    case long
    then show ?thesis using "1.prems" by (simp add: unfold)
  next
    case frame
    then show ?thesis using "1.IH"(2) "1.prems" by (auto simp: unfold split: prod.splits)
  qed
qed

section \<open>Encoding\<close>

text \<open>The header a sender writes in front of a payload of \<open>n\<close> bytes.\<close>

definition frame_header :: "nat \<Rightarrow> nat \<Rightarrow> u8 list" where
  "frame_header h n =
     (if h = 2 then [of_nat (n div 256), of_nat n]
      else [of_nat (n div 2 ^ 24), of_nat (n div 2 ^ 16), of_nat (n div 256), of_nat n])"

definition frame_limit :: "nat \<Rightarrow> nat" where
  "frame_limit h = (if h = 2 then 0x10000 else 0x1000000)"

definition encode_frame :: "nat \<Rightarrow> u8 list \<Rightarrow> u8 list" where
  "encode_frame h bs = frame_header h (length bs) @ bs"

lemma length_frame_header [simp]: "h = 2 \<or> h = 4 \<Longrightarrow> length (frame_header h n) = h"
  by (auto simp: frame_header_def)

lemma uint_byte_of_nat: "uint (of_nat n :: u8) = int (n mod 256)"
  by (simp add: uint_nat unat_of_nat)

lemma base256: "n = n div 256 div 256 * 65536 + n div 256 mod 256 * 256 + n mod (256 :: nat)"
proof -
  define a where "a = n div 256"
  have "n = a * 256 + n mod 256" unfolding a_def by (rule div_mult_mod_eq [symmetric])
  moreover have "a = a div 256 * 256 + a mod 256" by (rule div_mult_mod_eq [symmetric])
  ultimately show ?thesis unfolding a_def [symmetric] by linarith
qed

lemma header_value_frame_header:
  assumes "h = 2 \<or> h = 4" and "n < frame_limit h"
  shows "header_value (int h) (frame_header h n) = int n"
proof (cases "h = 2")
  case True
  have "int (n div 256) * 256 + int (n mod 256) = int n"
    by (metis div_mult_mod_eq of_nat_add of_nat_mult of_nat_numeral)
  moreover have "n div 256 mod 256 = n div 256" using True assms(2) by (simp add: frame_limit_def)
  ultimately show ?thesis using True
    by (simp add: header_value_def frame_header_def be16_nonneg uint_byte_of_nat)
next
  case False
  with assms have h: "h = 4" and n: "n < 0x1000000" by (auto simp: frame_limit_def)
  have d: "n div 2 ^ 24 = 0" "n div 2 ^ 16 < 256" using n by simp_all
  have q: "n div 65536 = n div 256 div 256" using div_mult2_eq [of n 256 256] by simp
  have "n = n div 65536 * 65536 + n div 256 mod 256 * 256 + n mod 256"
    unfolding q by (rule base256)
  from arg_cong [OF this, of int]
  have "int (n div 65536 mod 256) * 65536 + int (n div 256 mod 256) * 256 + int (n mod 256) = int n"
    using d by simp
  with h d show ?thesis
    by (simp add: header_value_def frame_header_def sint_be32 uint_byte_of_nat)
qed

lemma split_frames_encoded:
  assumes "h = 2 \<or> h = 4" and "\<forall>m \<in> set ms. length m < frame_limit h"
  shows "split_frames h 0 (concat (map (encode_frame h) ms)) = (filter (\<lambda>m. m \<noteq> []) ms, 0, [], False)"
  using assms(2)
proof (induction ms)
  case Nil
  then show ?case using assms(1) by (auto simp: split_frames.simps)
next
  case (Cons m ms)
  let ?rest = "concat (map (encode_frame h) ms)"
  from assms(1) have h: "h \<noteq> 0" by auto
  have n: "length m < frame_limit h" using Cons.prems by simp
  then have lim: "length m < 0x1000000" by (auto simp: frame_limit_def split: if_splits)
  have "split_frames h 0 (encode_frame h m @ ?rest) = split_frames h (int (length m)) (m @ ?rest)"
    using h n assms(1)
    by (subst split_frames.simps) (simp add: encode_frame_def header_value_frame_header)
  also have "\<dots> = (filter (\<lambda>m. m \<noteq> []) (m # ms), 0, [], False)"
  proof (cases "m = []")
    case True
    then show ?thesis using Cons by simp
  next
    case False
    then show ?thesis using Cons lim by (subst split_frames.simps) simp
  qed
  finally show ?case by simp
qed

section \<open>The loop of \<open>dispatch_message\<close>\<close>

text \<open>Where a payload goes, and the state in which a connection has somewhere to send to.\<close>

definition sink :: "gate \<Rightarrow> connection \<Rightarrow> u8 list \<Rightarrow> call" where
  "sink g c bs =
     (if g_broker g \<noteq> 0
      then ServiceSend 0 (g_broker g) (g_client_tag g OR kPtypeTagDontcopy) (c_id c) bs
      else ServiceSend (c_client c) (c_agent c) (g_client_tag g OR kPtypeTagDontcopy) (c_id c) bs)"

definition conn_ok :: "nat multiset \<Rightarrow> nat \<Rightarrow> gate \<Rightarrow> connection \<Rightarrow> bool" where
  "conn_ok others h g c \<longleftrightarrow>
     databuffer_ok (c_buffer c) \<and> pool_ok others (c_buffer c) (g_mp g) \<and>
     g_header_size g = int h \<and> (h = 2 \<or> h = 4) \<and> 0 < c_id c \<and> (g_broker g \<noteq> 0 \<or> c_agent c \<noteq> 0)"

lemma sink_frame [simp]: "sink (g\<lparr>g_mp := mp\<rparr>) (c\<lparr>c_buffer := db\<rparr>) = sink g c"
  by (simp add: sink_def fun_eq_iff)

lemma conn_ok_frame:
  "conn_ok others h g c \<Longrightarrow> databuffer_ok db \<Longrightarrow> pool_ok others db mp \<Longrightarrow>
     conn_ok others h (g\<lparr>g_mp := mp\<rparr>) (c\<lparr>c_buffer := db\<rparr>)"
  by (simp add: conn_ok_def)

lemma forward_ok:
  assumes "conn_ok others h g c" and "0 < n" and "n \<le> length (pending (c_buffer c))"
  shows "\<exists>db mp. forward g c (int n) =
             Inr (g\<lparr>g_mp := mp\<rparr>, c\<lparr>c_buffer := db\<rparr>, [sink g c (take n (pending (c_buffer c)))]) \<and>
           pending db = drop n (pending (c_buffer c)) \<and> databuffer_ok db \<and> pool_ok others db mp"
proof -
  from assms read_ok [of "c_buffer c" others "g_mp g" n] obtain db mp where
    "databuffer_read (c_buffer c) (g_mp g) (int n) = Inr (db, mp, take n (pending (c_buffer c)))"
    "pending db = drop n (pending (c_buffer c))" "databuffer_ok db" "pool_ok others db mp"
    by (auto simp: conn_ok_def)
  with assms(1) show ?thesis
    by (intro exI [of _ db] exI [of _ mp]) (auto simp: forward_def conn_ok_def sink_def)
qed

lemma gate_update_same [simp]: "g\<lparr>g_mp := g_mp g\<rparr> = g" "c\<lparr>c_buffer := c_buffer c\<rparr> = c"
  by simp_all

text \<open>One round of the loop, by what \<open>databuffer_readheader\<close> finds.\<close>

lemma loop_waits:
  assumes "conn_ok others h g c"
    and "(db_header (c_buffer c) = 0 \<and> length (pending (c_buffer c)) < h) \<or>
         db_header (c_buffer c) < 0 \<or> int (length (pending (c_buffer c))) < db_header (c_buffer c)"
  shows "dispatch_loop g c sid out = Some (Inr (g, c, out))"
proof -
  have "\<exists>n < 0. databuffer_readheader (c_buffer c) (g_mp g) (g_header_size g) = Inr (c_buffer c, g_mp g, n)"
    using assms by (auto simp: databuffer_readheader_def conn_ok_def databuffer_ok_def split: if_splits)
  then show ?thesis by (subst dispatch_loop.simps) auto
qed

lemma loop_reads_header:
  assumes "conn_ok others h g c" and "db_header (c_buffer c) = 0" and "h \<le> length (pending (c_buffer c))"
  shows "\<exists>db mp. dispatch_loop g c sid out =
             dispatch_loop (g\<lparr>g_mp := mp\<rparr>) (c\<lparr>c_buffer := db\<rparr>) sid out \<and>
           db_header db = header_value (int h) (take h (pending (c_buffer c))) \<and>
           pending db = drop h (pending (c_buffer c)) \<and>
           conn_ok others h (g\<lparr>g_mp := mp\<rparr>) (c\<lparr>c_buffer := db\<rparr>)"
proof -
  have "0 < h" using assms(1) by (auto simp: conn_ok_def)
  with assms readheader_ok [of "c_buffer c" others "g_mp g" h] obtain db mp where
    r: "databuffer_readheader (c_buffer c) (g_mp g) (int h) =
          Inr (db, mp, if int (length (pending db)) < db_header db then -1 else db_header db)"
    and f: "db_header db = header_value (int h) (take h (pending (c_buffer c)))"
       "pending db = drop h (pending (c_buffer c))" "databuffer_ok db" "pool_ok others db mp"
    by (auto simp: conn_ok_def)
  have h: "g_header_size g = int h" using assms(1) by (simp add: conn_ok_def)
  have size: "db_size db = int (length (pending db))" using f(3) by (simp add: databuffer_ok_def)
  have again: "databuffer_readheader db mp (int h) =
      Inr (db, mp, if int (length (pending db)) < db_header db then -1 else db_header db)"
    if "db_header db \<noteq> 0"
    using that by (simp add: databuffer_readheader_def size)
  have "dispatch_loop g c sid out = dispatch_loop (g\<lparr>g_mp := mp\<rparr>) (c\<lparr>c_buffer := db\<rparr>) sid out"
  proof (cases "db_header db = 0")
    case True
    then show ?thesis by (subst dispatch_loop.simps) (simp add: r h)
  next
    case False
    show ?thesis
      by (subst dispatch_loop.simps, subst (2) dispatch_loop.simps) (simp add: r h again [OF False])
  qed
  with f conn_ok_frame [OF assms(1)] show ?thesis by blast
qed

lemma loop_has_frame:
  assumes "conn_ok others h g c" and "0 < db_header (c_buffer c)"
    and "db_header (c_buffer c) \<le> int (length (pending (c_buffer c)))"
    and "db_header (c_buffer c) < 0x1000000"
  shows "\<exists>db mp. dispatch_loop g c sid out =
             dispatch_loop (g\<lparr>g_mp := mp\<rparr>) (c\<lparr>c_buffer := db\<rparr>) sid
               (out @ [sink g c (take (nat (db_header (c_buffer c))) (pending (c_buffer c)))]) \<and>
           db_header db = 0 \<and> pending db = drop (nat (db_header (c_buffer c))) (pending (c_buffer c)) \<and>
           conn_ok others h (g\<lparr>g_mp := mp\<rparr>) (c\<lparr>c_buffer := db\<rparr>)"
proof -
  let ?n = "nat (db_header (c_buffer c))"
  have n: "0 < ?n" "?n \<le> length (pending (c_buffer c))" "int ?n = db_header (c_buffer c)"
    using assms(2,3) by simp_all
  from forward_ok [OF assms(1) n(1,2), unfolded n(3)] obtain db mp where
    fw: "forward g c (db_header (c_buffer c)) =
      Inr (g\<lparr>g_mp := mp\<rparr>, c\<lparr>c_buffer := db\<rparr>, [sink g c (take ?n (pending (c_buffer c)))])"
    and f: "pending db = drop ?n (pending (c_buffer c))" "databuffer_ok db" "pool_ok others db mp"
    by blast
  have "databuffer_readheader (c_buffer c) (g_mp g) (g_header_size g) =
      Inr (c_buffer c, g_mp g, db_header (c_buffer c))"
    using assms by (simp add: databuffer_readheader_def conn_ok_def databuffer_ok_def)
  then have "dispatch_loop g c sid out =
      dispatch_loop (g\<lparr>g_mp := mp\<rparr>) (c\<lparr>c_buffer := databuffer_reset db\<rparr>) sid
        (out @ [sink g c (take ?n (pending (c_buffer c)))])"
    using assms(2,4) by (subst dispatch_loop.simps) (simp add: fw)
  with f conn_ok_frame [OF assms(1), of "databuffer_reset db" mp] show ?thesis
    by (intro exI [of _ "databuffer_reset db"] exI [of _ mp]) simp
qed

lemma loop_too_long:
  assumes "conn_ok others h g c" and "0x1000000 \<le> db_header (c_buffer c)"
    and "db_header (c_buffer c) \<le> int (length (pending (c_buffer c)))"
  shows "\<exists>mp. dispatch_loop g c sid out =
             Some (Inr (g\<lparr>g_mp := mp\<rparr>, c\<lparr>c_buffer := databuffer_zero\<rparr>,
               out @ [SocketClose sid, SkynetError ''Recv socket message > 16M''])) \<and>
           conn_ok others h (g\<lparr>g_mp := mp\<rparr>) (c\<lparr>c_buffer := databuffer_zero\<rparr>)"
proof -
  obtain mp where cl: "databuffer_clear (c_buffer c) (g_mp g) = (databuffer_zero, mp)"
    by (simp add: databuffer_clear_def)
  then have "pool_ok others databuffer_zero mp"
    using clear_ok(2) [OF _ cl] assms(1) by (simp add: conn_ok_def)
  moreover have "databuffer_readheader (c_buffer c) (g_mp g) (g_header_size g) =
      Inr (c_buffer c, g_mp g, db_header (c_buffer c))"
    using assms by (simp add: databuffer_readheader_def conn_ok_def databuffer_ok_def)
  ultimately show ?thesis
    using assms(1,2) conn_ok_frame [OF assms(1), of databuffer_zero mp]
    by (intro exI [of _ mp]) (subst dispatch_loop.simps, simp add: cl)
qed

section \<open>The loop refines the protocol\<close>

text \<open>The calls for the payloads of \<open>split_frames\<close>, and for a frame that is too long.\<close>

definition frame_calls :: "gate \<Rightarrow> connection \<Rightarrow> int \<Rightarrow> u8 list list \<Rightarrow> bool \<Rightarrow> call list" where
  "frame_calls g c sid fs long =
     map (sink g c) fs @ (if long then [SocketClose sid, SkynetError ''Recv socket message > 16M''] else [])"

lemma frame_calls_frame [simp]:
  "frame_calls (g\<lparr>g_mp := mp\<rparr>) (c\<lparr>c_buffer := db\<rparr>) = frame_calls g c"
  by (simp add: frame_calls_def fun_eq_iff)

lemma frame_calls_Cons: "frame_calls g c sid (f # fs) long = sink g c f # frame_calls g c sid fs long"
  by (simp add: frame_calls_def)

definition loop_result ::
  "nat multiset \<Rightarrow> nat \<Rightarrow> gate \<Rightarrow> connection \<Rightarrow> int \<Rightarrow> u8 list list \<times> int \<times> u8 list \<times> bool \<Rightarrow>
     call list \<Rightarrow> (gate \<times> connection \<times> call list) res option \<Rightarrow> bool" where
  "loop_result others h g c sid spec out r \<longleftrightarrow>
     (case spec of (fs, hdr, rest, long) \<Rightarrow>
        \<exists>db mp. r = Some (Inr (g\<lparr>g_mp := mp\<rparr>, c\<lparr>c_buffer := db\<rparr>, out @ frame_calls g c sid fs long)) \<and>
          db_header db = hdr \<and> pending db = rest \<and>
          conn_ok others h (g\<lparr>g_mp := mp\<rparr>) (c\<lparr>c_buffer := db\<rparr>))"

lemma loop_result_frame:
  "loop_result others h (g\<lparr>g_mp := mp\<rparr>) (c\<lparr>c_buffer := db\<rparr>) sid spec out r =
   loop_result others h g c sid spec out r"
  by (simp add: loop_result_def split: prod.split)

lemma dispatch_loop_result:
  assumes "conn_ok others h g c"
  shows "loop_result others h g c sid
           (split_frames h (db_header (c_buffer c)) (pending (c_buffer c))) out (dispatch_loop g c sid out)"
  using assms
proof (induction "length (pending (c_buffer c))" arbitrary: g c out rule: less_induct)
  case less
  let ?hdr = "db_header (c_buffer c)" and ?bs = "pending (c_buffer c)"
  have h: "0 < h" using less.prems by (auto simp: conn_ok_def)
  consider (wait) "(?hdr = 0 \<and> length ?bs < h) \<or> ?hdr < 0 \<or> int (length ?bs) < ?hdr"
    | (header) "?hdr = 0" "h \<le> length ?bs"
    | (long) "0x1000000 \<le> ?hdr" "?hdr \<le> int (length ?bs)"
    | (frame) "0 < ?hdr" "?hdr \<le> int (length ?bs)" "?hdr < 0x1000000"
    by linarith
  then show ?case
  proof cases
    case wait
    then have "split_frames h ?hdr ?bs = ([], ?hdr, ?bs, False)"
      by (subst split_frames.simps) auto
    then show ?thesis
      using loop_waits [OF less.prems wait] less.prems
      by (simp add: loop_result_def frame_calls_def)
        (intro exI [of _ "c_buffer c"] exI [of _ "g_mp g"], simp)
  next
    case header
    have spec: "split_frames h ?hdr ?bs = split_frames h (header_value (int h) (take h ?bs)) (drop h ?bs)"
      using header h by (subst split_frames.simps) simp
    from loop_reads_header [OF less.prems header] obtain db mp where
      "dispatch_loop g c sid out = dispatch_loop (g\<lparr>g_mp := mp\<rparr>) (c\<lparr>c_buffer := db\<rparr>) sid out"
      "db_header db = header_value (int h) (take h ?bs)" "pending db = drop h ?bs"
      "conn_ok others h (g\<lparr>g_mp := mp\<rparr>) (c\<lparr>c_buffer := db\<rparr>)" by blast
    moreover have "length ?bs - h < length ?bs" using header h by simp
    ultimately show ?thesis
      using less.hyps [of "c\<lparr>c_buffer := db\<rparr>" "g\<lparr>g_mp := mp\<rparr>" out]
      unfolding spec by (simp add: loop_result_frame)
  next
    case long
    then have "split_frames h ?hdr ?bs = ([], 0, [], True)"
      by (subst split_frames.simps) auto
    moreover have "db_header databuffer_zero = 0" by (simp add: databuffer_zero_def)
    moreover from loop_too_long [OF less.prems long] obtain mp where
      "dispatch_loop g c sid out = Some (Inr (g\<lparr>g_mp := mp\<rparr>, c\<lparr>c_buffer := databuffer_zero\<rparr>,
         out @ [SocketClose sid, SkynetError ''Recv socket message > 16M'']))"
      "conn_ok others h (g\<lparr>g_mp := mp\<rparr>) (c\<lparr>c_buffer := databuffer_zero\<rparr>)" by blast
    ultimately show ?thesis
      by (simp add: loop_result_def frame_calls_def)
        (intro exI [of _ databuffer_zero] exI [of _ mp], simp)
  next
    case frame
    let ?f = "take (nat ?hdr) ?bs"
    from loop_has_frame [OF less.prems frame] obtain db mp where
      step: "dispatch_loop g c sid out =
        dispatch_loop (g\<lparr>g_mp := mp\<rparr>) (c\<lparr>c_buffer := db\<rparr>) sid (out @ [sink g c ?f])"
      and db: "db_header db = 0" "pending db = drop (nat ?hdr) ?bs"
      "conn_ok others h (g\<lparr>g_mp := mp\<rparr>) (c\<lparr>c_buffer := db\<rparr>)" by blast
    have "loop_result others h g c sid (split_frames h 0 (drop (nat ?hdr) ?bs)) (out @ [sink g c ?f])
        (dispatch_loop g c sid out)"
      using less.hyps [of "c\<lparr>c_buffer := db\<rparr>" "g\<lparr>g_mp := mp\<rparr>" "out @ [sink g c ?f]"] db frame step
      by (simp add: loop_result_frame)
    moreover have "split_frames h ?hdr ?bs =
        (case split_frames h 0 (drop (nat ?hdr) ?bs) of
           (fs, hdr', rest, long) \<Rightarrow> (?f # fs, hdr', rest, long))"
      using frame by (subst split_frames.simps) simp
    ultimately show ?thesis
      by (auto simp: loop_result_def frame_calls_Cons split: prod.splits)
  qed
qed

section \<open>A connection over many messages\<close>

text \<open>The data messages of one connection in turn, each handled by \<open>dispatch_message\<close>.\<close>

fun feed ::
  "gate \<Rightarrow> connection \<Rightarrow> int \<Rightarrow> u8 list list \<Rightarrow> (gate \<times> connection \<times> call list) res option" where
  "feed g c sid [] = Some (Inr (g, c, []))"
| "feed g c sid (d # ds) =
     bindO (dispatch_message g c sid d (int (length d))) (\<lambda>(g', c', calls).
     bindO (feed g' c' sid ds) (\<lambda>(g'', c'', calls'). Some (Inr (g'', c'', calls @ calls'))))"

lemma dispatch_message_result:
  assumes "conn_ok others h g c"
  shows "loop_result others h g c sid
           (split_frames h (db_header (c_buffer c)) (pending (c_buffer c) @ data)) []
           (dispatch_message g c sid data (int (length data)))"
proof -
  obtain db mp where p: "databuffer_push (c_buffer c) (g_mp g) data (int (length data)) = (db, mp)"
    by fastforce
  let ?g = "g\<lparr>g_mp := mp\<rparr>" and ?c = "c\<lparr>c_buffer := db\<rparr>"
  note push = push_ok [OF _ _ p, of others]
  have db: "pending db = pending (c_buffer c) @ data" "db_header db = db_header (c_buffer c)"
    "databuffer_ok db" "pool_ok others db mp"
    using assms push by (auto simp: conn_ok_def)
  have "conn_ok others h ?g ?c" by (rule conn_ok_frame [OF assms db(3,4)])
  from dispatch_loop_result [OF this, of sid "[]"] show ?thesis
    by (simp add: dispatch_message_def p db loop_result_frame)
qed

lemma feed_result:
  assumes "conn_ok others h g c"
    and "split_frames h (db_header (c_buffer c)) (pending (c_buffer c)) =
           ([], db_header (c_buffer c), pending (c_buffer c), False)"
    and "split_frames h (db_header (c_buffer c)) (pending (c_buffer c) @ concat chunks) = (fs, hdr, rest, False)"
  shows "loop_result others h g c sid (fs, hdr, rest, False) [] (feed g c sid chunks)"
  using assms
proof (induction chunks arbitrary: g c fs)
  case Nil
  then show ?case
    by (simp add: loop_result_def frame_calls_def)
      (intro exI [of _ "c_buffer c"] exI [of _ "g_mp g"], simp)
next
  case (Cons d ds)
  let ?hdr = "db_header (c_buffer c)" and ?bs = "pending (c_buffer c)"
  obtain fs1 hdr1 rest1 long where spec: "split_frames h ?hdr (?bs @ d) = (fs1, hdr1, rest1, long)"
    by (metis prod_cases4)
  have all: "split_frames h ?hdr ((?bs @ d) @ concat ds) = (fs, hdr, rest, False)"
    using Cons.prems(3) by simp
  then have "\<not> long" using split_frames_append_long spec by fastforce
  then obtain fs2 where later: "split_frames h hdr1 (rest1 @ concat ds) = (fs2, hdr, rest, False)"
    and fs: "fs = fs1 @ fs2"
    using all split_frames_append [of h ?hdr "?bs @ d"] spec by (auto split: prod.splits)
  from dispatch_message_result [OF Cons.prems(1), of sid d] spec \<open>\<not> long\<close> obtain db mp where
    step: "dispatch_message g c sid d (int (length d)) =
      Some (Inr (g\<lparr>g_mp := mp\<rparr>, c\<lparr>c_buffer := db\<rparr>, frame_calls g c sid fs1 False))"
    and db: "db_header db = hdr1" "pending db = rest1"
      "conn_ok others h (g\<lparr>g_mp := mp\<rparr>) (c\<lparr>c_buffer := db\<rparr>)"
    by (auto simp: loop_result_def)
  have "split_frames h hdr1 rest1 = ([], hdr1, rest1, False)"
    using split_frames_rest spec \<open>\<not> long\<close> by simp
  with Cons.IH [OF db(3), of fs2] later db have
    "loop_result others h g c sid (fs2, hdr, rest, False) [] (feed (g\<lparr>g_mp := mp\<rparr>) (c\<lparr>c_buffer := db\<rparr>) sid ds)"
    by (simp add: loop_result_frame)
  then obtain db' mp' where
    "feed (g\<lparr>g_mp := mp\<rparr>) (c\<lparr>c_buffer := db\<rparr>) sid ds =
       Some (Inr (g\<lparr>g_mp := mp'\<rparr>, c\<lparr>c_buffer := db'\<rparr>, map (sink g c) fs2))"
    "db_header db' = hdr" "pending db' = rest" "conn_ok others h (g\<lparr>g_mp := mp'\<rparr>) (c\<lparr>c_buffer := db'\<rparr>)"
    by (auto simp: loop_result_def frame_calls_def)
  then show ?case
    by (simp add: loop_result_def step frame_calls_def fs)
      (intro exI [of _ db'] exI [of _ mp'], simp)
qed

section \<open>Properties of the framing\<close>


definition sample_gate :: gate where
  "sample_gate = gate_create\<lparr>g_broker := 7, g_client_tag := 3, g_header_size := 2\<rparr>"

definition sample_connection :: connection where
  "sample_connection = connection_zero\<lparr>c_id := 5\<rparr>"

lemma sample_ok: "conn_ok {#} 2 sample_gate sample_connection"
  by (simp add: conn_ok_def sample_gate_def sample_connection_def gate_create_def
      connection_zero_def pool_ok_def nodes_def databuffer_zero_def databuffer_ok_def chain_ok_def
      pending_def)

lemma sample_quiet: "db_header (c_buffer sample_connection) = 0" "pending (c_buffer sample_connection) = []"
  by (simp_all add: sample_connection_def connection_zero_def databuffer_zero_def pending_def)


text \<open>C2 One data message of any content: the loop of \<open>dispatch_message\<close> always ends, and what it
  sends, closes and leaves in the buffer is what the protocol \<open>split_frames\<close> says of the bytes that
  were pending followed by the new ones, whether they end inside a header, inside a payload or in
  a frame that is too long.\<close>

theorem dispatch_message_refines:
  assumes "conn_ok others h g c"
  shows "case split_frames h (db_header (c_buffer c)) (pending (c_buffer c) @ data) of
           (fs, hdr, rest, long) \<Rightarrow>
             \<exists>db mp. dispatch_message g c sid data (int (length data)) =
               Some (Inr (g\<lparr>g_mp := mp\<rparr>, c\<lparr>c_buffer := db\<rparr>, map (sink g c) fs @
                 (if long then [SocketClose sid, SkynetError ''Recv socket message > 16M''] else []))) \<and>
               db_header db = hdr \<and> pending db = rest \<and>
               conn_ok others h (g\<lparr>g_mp := mp\<rparr>) (c\<lparr>c_buffer := db\<rparr>)"
  using dispatch_message_result [OF assms, of sid data]
  by (simp add: loop_result_def frame_calls_def split: prod.splits)

theorem dispatch_message_refines_witness:
  "\<exists>db mp. dispatch_message sample_gate sample_connection 5 [0, 1, 9, 0] 4 =
     Some (Inr (sample_gate\<lparr>g_mp := mp\<rparr>, sample_connection\<lparr>c_buffer := db\<rparr>,
       map (sink sample_gate sample_connection) [[9]])) \<and> db_header db = 0 \<and> pending db = [0] \<and>
     conn_ok {#} 2 (sample_gate\<lparr>g_mp := mp\<rparr>) (sample_connection\<lparr>c_buffer := db\<rparr>)"
proof -
  have "header_value 2 [0, 1] = 1" by (simp add: header_value_def be16_nonneg)
  then have "split_frames 2 0 [0, 1, 9, 0] = ([[9]], 0, [0], False)"
    by (simp add: split_frames.simps)
  with dispatch_message_refines [OF sample_ok, where data = "[0, 1, 9, 0]" and sid = 5] show ?thesis
    by (simp add: sample_quiet)
qed

text \<open>A 4-byte header whose first byte is 0x80 or more is read as a negative length: from then on
  the connection forwards nothing and is not closed either, whatever arrives on it, and its
  buffer keeps every byte.\<close>

theorem gate_negative_header_stuck:
  assumes "conn_ok others 4 g c" and "db_header (c_buffer c) = 0" and "pending (c_buffer c) = []"
    and "128 \<le> uint a"
  shows "\<exists>db mp. feed g c sid ([a, p, q, r] # chunks) =
             Some (Inr (g\<lparr>g_mp := mp\<rparr>, c\<lparr>c_buffer := db\<rparr>, [])) \<and> pending db = concat chunks"
proof -
  let ?v = "header_value 4 [a, p, q, r]"
  have "?v < 0"
    using assms(4) uint_u8 [of a] uint_u8 [of p] uint_u8 [of q] uint_u8 [of r]
    by (simp add: header_value_def sint_be32)
  then have "split_frames 4 0 (concat ([a, p, q, r] # chunks)) = ([], ?v, concat chunks, False)"
    by (simp add: split_frames.simps)
  moreover have "split_frames 4 0 [] = ([], 0, [], False)" by (simp add: split_frames.simps)
  ultimately show ?thesis
    using feed_result [OF assms(1), of "[a, p, q, r] # chunks"] assms(2,3)
    by (simp add: loop_result_def frame_calls_def del: feed.simps) blast
qed

lemma sample_ok4: "conn_ok {#} 4 (sample_gate\<lparr>g_header_size := 4\<rparr>) sample_connection"
  using sample_ok by (simp add: conn_ok_def)

theorem gate_negative_header_stuck_witness:
  "\<exists>db mp. feed (sample_gate\<lparr>g_header_size := 4\<rparr>) sample_connection 5 [[0x80, 0, 0, 1], [1], [2, 3]] =
     Some (Inr (sample_gate\<lparr>g_header_size := 4\<rparr>\<lparr>g_mp := mp\<rparr>, sample_connection\<lparr>c_buffer := db\<rparr>, [])) \<and>
     pending db = [1, 2, 3]"
  using gate_negative_header_stuck [OF sample_ok4 sample_quiet, where a = "0x80" and p = 0 and q = 0 and r = 1 and sid = 5 and chunks = "[[1], [2, 3]]"] by simp

section \<open>The socket messages\<close>

text \<open>Because \<open>hashid_lookup\<close> always answers -1, every data message the gate receives is
  reported as one of an unknown connection and its socket is closed: nothing is forwarded.\<close>

theorem gate_drops_data:
  assumes "hashid_inv (g_hash g) ch" and "sm_type m = kSocketTypeData"
  shows "gate_cb g kPtypeSocket source (SocketPayload m n) =
     Some (Inr (g, [SkynetError (''Drop unknown Connection '' @ to_string (sm_id m) @ ''message''),
                    SocketClose (sm_id m)]))"
  using assms lookup_minus_one [OF assms(1), of "sm_id m"]
  by (simp add: gate_cb_def gate_cb_socket_def dispatch_socket_message_def gate_data_def
      kPtypeSocket_def kPtypeText_def kPtypeClient_def)

definition sample_hashid :: hashid where
  "sample_hashid = \<lparr>hi_hashmod = 15, hi_cap = 1, hi_count = 0,
      hi_id = [\<lparr>hn_id = -1, hn_next = None\<rparr>], hi_hash = replicate 16 None\<rparr>"

lemma sample_hashid_inv: "hashid_inv sample_hashid (\<lambda>_. [])"
  by (simp add: hashid_inv_def sample_hashid_def)

definition sample_message :: "int \<Rightarrow> socket_message" where
  "sample_message ty = \<lparr>sm_type = ty, sm_id = 3, sm_ud = 8, sm_buffer = [1, 2], sm_tail = ''peer''\<rparr>"

theorem gate_drops_data_witness:
  "gate_cb (sample_gate\<lparr>g_hash := sample_hashid\<rparr>) 6 0 (SocketPayload (sample_message 1) 0) =
     Some (Inr (sample_gate\<lparr>g_hash := sample_hashid\<rparr>,
       [SkynetError (''Drop unknown Connection '' @ ''3'' @ ''message''), SocketClose 3]))"
proof -
  have "to_string 3 = ''3''"
    by code_simp
  with gate_drops_data [of "sample_gate\<lparr>g_hash := sample_hashid\<rparr>" "\<lambda>_. []" "sample_message 1" 0 0]
  show ?thesis
    by (simp add: sample_hashid_inv sample_message_def kSocketTypeData_def kPtypeSocket_def)
qed

text \<open>Because \<open>hashid_insert\<close> returns -1, accepting a connection while the table has a free slot
  addresses \<open>gate->conn[-1]\<close>, outside the array.\<close>

theorem gate_accept_faults:
  assumes "hashid_inv (g_hash g) ch" and "hi_count (g_hash g) < hi_cap (g_hash g)"
    and "g_listen_id g = sm_id m" and "0 \<le> sm_ud m" and "sm_type m = kSocketTypeAccept"
  shows "gate_cb g kPtypeSocket source (SocketPayload m n) = Some (Inl OutOfBounds)"
proof -
  from insert_ok [OF assms(1,2,4)] obtain hi' where
    "hashid_insert (g_hash g) (sm_ud m) = Inr (hi', -1)" by blast
  then have "gate_accept g m n = Inl OutOfBounds"
    using assms(2,3) by (simp add: gate_accept_def hashid_full_def nthR_def)
  with assms(5) show ?thesis
    by (simp add: gate_cb_def gate_cb_socket_def dispatch_socket_message_def socket_type_defs
        kPtypeSocket_def kPtypeText_def kPtypeClient_def)
qed

theorem gate_accept_faults_witness:
  "gate_cb (sample_gate\<lparr>g_hash := sample_hashid, g_listen_id := 3\<rparr>) kPtypeSocket 0
     (SocketPayload (sample_message 4) 4) = Some (Inl OutOfBounds)"
  by (rule gate_accept_faults [of _ "\<lambda>_. []"])
    (simp_all add: sample_hashid_inv, simp_all add: sample_hashid_def sample_message_def kSocketTypeAccept_def)

text \<open>A client message longer than 4 bytes falls through to the socket case and its bytes are
  read as a \<open>struct SkynetSocketMessage\<close>; a shorter one is reported and dropped.\<close>

theorem gate_client_message:
  "gate_cb g kPtypeClient source (OtherPayload bs) =
     (if length bs \<le> 4
      then Some (Inr (g, [SkynetError (''Invalid client message from '' @ to_string (uint source))]))
      else Some (Inl TypeConfusion))"
  by (simp add: gate_cb_def gate_cb_socket_def kPtypeText_def kPtypeClient_def)

text \<open>A gate started for more than one connection writes past the single \<open>Connection\<close> it has
  allocated, before it listens.\<close>

theorem gate_init_faults:
  assumes "sscanf_parm p = (5, header, ''!'' @ w, binding, client_tag, maxn)"
    and "header = CHR ''S'' \<or> header = CHR ''L''" and "2 \<le> maxn" and "maxn \<le> 2 ^ 30"
  shows "gate_init SocketListen g (Some p) = Inl OutOfBounds"
proof -
  obtain hash where h: "hashid_init maxn = Inr hash"
    using hashid_init_ok [of maxn] assms(3,4) by auto
  obtain k where "nat maxn = Suc (Suc k)"
    using assms(3) by (metis Suc_diff_Suc Suc_eq_plus1 diff_Suc_Suc le_Suc_ex nat_2 nat_mono
        numeral_2_eq_2 plus_nat.simps(2))
  then have "clear_conn_ids [connection_zero] 0 (nat maxn) = Inl OutOfBounds"
    by (simp add: nthR_def updR_def)
  then have "gate_init_accepted SocketListen g' header binding client_tag maxn = Inl OutOfBounds" for g'
    by (simp add: gate_init_accepted_def h)
  with assms show ?thesis by (auto simp: gate_init_def)
qed

theorem gate_init_faults_witness:
  "gate_init (\<lambda>host port backlog. 1) gate_create (Some ''L ! 127.0.0.1:8888 0 64'') = Inl OutOfBounds"
  by (rule gate_init_faults [where header = "CHR ''L''" and w = "[]" and binding = "''127.0.0.1:8888''"
        and client_tag = 0 and maxn = 64]) (simp_all add: gate_create_def, code_simp?)

end
