(* ===== verification/Fifo.thy ===== *)
theory Fifo
  imports Prelude
begin

text \<open>
  The contract of a first-in first-out queue, shared by the ring buffers of
  \<open>service-src/service_harbor.cpp\<close> and the global run queue of \<open>skynet-src/mq.cpp\<close>: an
  implementation with an invariant and the list of its elements, and what its clients may
  conclude about loops over it and about any sequence of operations.
\<close>

section \<open>Loops and sequences of operations over a queue\<close>

text \<open>\<open>while ((m = pop (queue)) != NULL) ...\<close>: the elements in the order in which they come.\<close>

partial_function (option) drain ::
  "('q \<Rightarrow> ('a \<times> 'q) option) \<Rightarrow> 'q \<Rightarrow> 'a list \<Rightarrow> ('a list \<times> 'q) option" where
  "drain deq q acc =
     (case deq q of
        None \<Rightarrow> Some (acc, q)
      | Some r \<Rightarrow> (case r of (x, q') \<Rightarrow> drain deq q' (acc @ [x])))"

datatype 'a fifo_op = Enq 'a | Deq

text \<open>The answers of the \<open>Deq\<close> operations of a sequence, on an implementation and on a list.\<close>

fun run_ops ::
  "('a \<Rightarrow> 'q \<Rightarrow> 'q) \<Rightarrow> ('q \<Rightarrow> ('a \<times> 'q) option) \<Rightarrow> 'a fifo_op list \<Rightarrow> 'q \<Rightarrow> 'a option list" where
  "run_ops enq deq [] q = []"
| "run_ops enq deq (Enq x # ops) q = run_ops enq deq ops (enq x q)"
| "run_ops enq deq (Deq # ops) q =
     (case deq q of
        None \<Rightarrow> None # run_ops enq deq ops q
      | Some (x, q') \<Rightarrow> Some x # run_ops enq deq ops q')"

definition list_deq :: "'a list \<Rightarrow> ('a \<times> 'a list) option" where
  "list_deq xs = (case xs of [] \<Rightarrow> None | x # xs' \<Rightarrow> Some (x, xs'))"

abbreviation list_ops :: "'a fifo_op list \<Rightarrow> 'a list \<Rightarrow> 'a option list" where
  "list_ops \<equiv> run_ops (\<lambda>x xs. xs @ [x]) list_deq"

text \<open>
  A queue may accept an element only in some states of its contents (a queue linked through its
  elements, for one, cannot hold an element twice): a sequence of operations is legal when every
  element that it enters is acceptable by then.
\<close>

fun legal :: "('a \<Rightarrow> 'a list \<Rightarrow> bool) \<Rightarrow> 'a fifo_op list \<Rightarrow> 'a list \<Rightarrow> bool" where
  "legal ok [] xs = True"
| "legal ok (Enq x # ops) xs = (ok x xs \<and> legal ok ops (xs @ [x]))"
| "legal ok (Deq # ops) xs = legal ok ops (tl xs)"

lemma legal_True [simp]: "legal (\<lambda>_ _. True) ops xs"
  by (induction "\<lambda>(_::'a) (_::'a list). True" ops xs rule: legal.induct) auto

section \<open>The contract\<close>

locale fifo =
  fixes inv :: "'q \<Rightarrow> bool"
    and contents :: "'q \<Rightarrow> 'a list"
    and ok :: "'a \<Rightarrow> 'a list \<Rightarrow> bool"
    and enq :: "'a \<Rightarrow> 'q \<Rightarrow> 'q"
    and deq :: "'q \<Rightarrow> ('a \<times> 'q) option"
  assumes enq_ok: "inv q \<Longrightarrow> ok x (contents q) \<Longrightarrow> inv (enq x q) \<and> contents (enq x q) = contents q @ [x]"
    and deq_None: "inv q \<Longrightarrow> deq q = None \<longleftrightarrow> contents q = []"
    and deq_Some: "inv q \<Longrightarrow> deq q = Some (x, q') \<Longrightarrow> inv q' \<and> contents q = x # contents q'"
begin

lemma deq_Cons:
  assumes "inv q" and "contents q = x # xs"
  obtains q' where "deq q = Some (x, q')" "inv q'" "contents q' = xs"
proof (cases "deq q")
  case None
  with assms deq_None show ?thesis by simp
next
  case (Some r)
  then obtain y q' where "deq q = Some (y, q')" by (cases r) auto
  with assms deq_Some [of q y q'] that show ?thesis by auto
qed

lemma drain_ok:
  "inv q \<Longrightarrow> \<exists>q'. drain deq q acc = Some (acc @ contents q, q') \<and> inv q' \<and> contents q' = []"
proof (induction "contents q" arbitrary: q acc)
  case Nil
  then have "deq q = None" using deq_None by simp
  with Nil show ?case by (subst drain.simps) simp
next
  case (Cons x xs)
  obtain q' where q': "deq q = Some (x, q')" "inv q'" "contents q' = xs"
    using deq_Cons [OF Cons.prems Cons.hyps(2) [symmetric]] by blast
  with Cons.hyps(1) [of q' "acc @ [x]"] Cons.hyps(2) show ?case
    by (subst drain.simps) auto
qed

lemma run_ops_list:
  "inv q \<Longrightarrow> legal ok ops (contents q) \<Longrightarrow> run_ops enq deq ops q = list_ops ops (contents q)"
proof (induction ops arbitrary: q)
  case Nil
  then show ?case by simp
next
  case (Cons op ops)
  show ?case
  proof (cases op)
    case (Enq x)
    with Cons show ?thesis using enq_ok [of q x] by simp
  next
    case Deq
    show ?thesis
    proof (cases "contents q")
      case Nil
      with Cons.prems deq_None have "deq q = None" by simp
      with Deq Cons Nil show ?thesis by (simp add: list_deq_def)
    next
      fix x xs assume c: "contents q = x # xs"
      then obtain q' where "deq q = Some (x, q')" "inv q'" "contents q' = xs"
        using deq_Cons [OF Cons.prems(1)] by blast
      with Deq Cons.IH [of q'] Cons.prems(2) c show ?thesis by (simp add: list_deq_def)
    qed
  qed
qed

end

end
