(* ===== verification/HarborQueue.thy ===== *)
theory HarborQueue
  imports Fifo
begin

text \<open>
  The message queues of \<open>service-src/service_harbor.cpp\<close>: \<open>struct harbor_msg_queue\<close>, a ring in a
  vector whose last free slot tells full from empty and which doubles when it is full. The vector
  is only ever indexed below \<open>queue->size\<close>, its length (lemma \<open>ring_bounds\<close>).
\<close>

section \<open>Data\<close>

record remote_message_header =
  rh_source :: u32
  rh_destination :: u32
  rh_session :: u32

record harbor_msg =
  hm_header :: remote_message_header
  hm_buffer :: "u8 list"
  hm_size :: nat

record harbor_msg_queue =
  hq_size :: nat
  hq_head :: nat
  hq_tail :: nat
  hq_data :: "harbor_msg list"

definition kDefaultQueueSize :: nat where
  "kDefaultQueueSize = 1024"

definition harbor_msg_zero :: harbor_msg where
  "harbor_msg_zero =
     \<lparr>hm_header = \<lparr>rh_source = 0, rh_destination = 0, rh_session = 0\<rparr>, hm_buffer = [], hm_size = 0\<rparr>"

section \<open>Operations\<close>

definition grow_queue :: "harbor_msg_queue \<Rightarrow> harbor_msg_queue" where
  "grow_queue q =
     \<lparr>hq_size = 2 * hq_size q, hq_head = 0, hq_tail = hq_size q - 1,
      hq_data = map (\<lambda>i. hq_data q ! ((i + hq_head q) mod hq_size q)) [0 ..< hq_size q - 1] @
                replicate (hq_size q + 1) harbor_msg_zero\<rparr>"

definition push_queue_msg :: "harbor_msg \<Rightarrow> harbor_msg_queue \<Rightarrow> harbor_msg_queue" where
  "push_queue_msg m q =
     (let q' = (if (hq_tail q + 1) mod hq_size q = hq_head q then grow_queue q else q)
      in q'\<lparr>hq_data := (hq_data q')[hq_tail q' := m], hq_tail := (hq_tail q' + 1) mod hq_size q'\<rparr>)"

definition push_queue ::
  "u8 list \<Rightarrow> nat \<Rightarrow> remote_message_header \<Rightarrow> harbor_msg_queue \<Rightarrow> harbor_msg_queue" where
  "push_queue buffer sz header q =
     push_queue_msg \<lparr>hm_header = header, hm_buffer = buffer, hm_size = sz\<rparr> q"

definition pop_queue :: "harbor_msg_queue \<Rightarrow> (harbor_msg \<times> harbor_msg_queue) option" where
  "pop_queue q =
     (if hq_head q = hq_tail q then None
      else Some (hq_data q ! hq_head q, q\<lparr>hq_head := (hq_head q + 1) mod hq_size q\<rparr>))"

definition new_queue :: harbor_msg_queue where
  "new_queue = \<lparr>hq_size = kDefaultQueueSize, hq_head = 0, hq_tail = 0,
                hq_data = replicate kDefaultQueueSize harbor_msg_zero\<rparr>"

text \<open>\<open>release_queue\<close> pops every message, then frees the queue: \<open>None\<close> would be a loop without end.\<close>

definition release_queue :: "harbor_msg_queue option \<Rightarrow> unit option" where
  "release_queue q =
     (case q of None \<Rightarrow> Some () | Some q' \<Rightarrow> map_option (\<lambda>_. ()) (drain pop_queue q' []))"

section \<open>The ring as a list\<close>

definition ring_inv :: "harbor_msg_queue \<Rightarrow> bool" where
  "ring_inv q \<longleftrightarrow> 2 \<le> hq_size q \<and> length (hq_data q) = hq_size q \<and>
     hq_head q < hq_size q \<and> hq_tail q < hq_size q"

definition ring_length :: "harbor_msg_queue \<Rightarrow> nat" where
  "ring_length q =
     (if hq_head q \<le> hq_tail q then hq_tail q - hq_head q else hq_size q + hq_tail q - hq_head q)"

definition ring_contents :: "harbor_msg_queue \<Rightarrow> harbor_msg list" where
  "ring_contents q = map (\<lambda>i. hq_data q ! ((i + hq_head q) mod hq_size q)) [0 ..< ring_length q]"

lemma ring_bounds:
  "ring_inv q \<Longrightarrow> hq_tail q < length (hq_data q) \<and> hq_head q < length (hq_data q) \<and>
     (i + hq_head q) mod hq_size q < length (hq_data q)"
  by (simp add: ring_inv_def)

lemma ring_length_less: "ring_inv q \<Longrightarrow> ring_length q < hq_size q"
  by (auto simp: ring_length_def ring_inv_def)

lemma succ_mod: "i < n \<Longrightarrow> Suc i mod n = (if Suc i = n then 0 else Suc i)" for n :: nat
  by simp

lemma add_mod_wrap: "a < n \<Longrightarrow> b < n \<Longrightarrow> (a + b) mod n = (if a + b < n then a + b else a + b - n)" for n :: nat
  by (simp add: mod_if)

lemma ring_full_iff:
  "ring_inv q \<Longrightarrow> (hq_tail q + 1) mod hq_size q = hq_head q \<longleftrightarrow> ring_length q = hq_size q - 1"
  by (auto simp: ring_inv_def ring_length_def succ_mod)

lemma ring_grow:
  assumes "ring_inv q" and "ring_length q = hq_size q - 1"
  shows "ring_inv (grow_queue q) \<and> ring_contents (grow_queue q) = ring_contents q \<and>
         ring_length (grow_queue q) = ring_length q \<and> ring_length q + 1 < hq_size (grow_queue q)"
proof -
  have s: "2 \<le> hq_size q" "length (hq_data q) = hq_size q" using assms(1) by (auto simp: ring_inv_def)
  have "ring_length (grow_queue q) = hq_size q - 1"
    by (simp add: ring_length_def grow_queue_def)
  then have "ring_length (grow_queue q) = ring_length q"
    using assms(2) by simp
  moreover have "ring_contents (grow_queue q) = ring_contents q"
    using s assms(2) calculation
    by (auto simp: ring_contents_def grow_queue_def nth_append intro!: nth_equalityI)
  ultimately show ?thesis using s assms(2) by (auto simp: ring_inv_def grow_queue_def)
qed

lemma ring_push_room:
  assumes "ring_inv q" and "ring_length q + 1 < hq_size q"
  shows "ring_inv (q\<lparr>hq_data := (hq_data q)[hq_tail q := m], hq_tail := (hq_tail q + 1) mod hq_size q\<rparr>) \<and>
    ring_contents (q\<lparr>hq_data := (hq_data q)[hq_tail q := m], hq_tail := (hq_tail q + 1) mod hq_size q\<rparr>) =
      ring_contents q @ [m]"
proof -
  let ?q = "q\<lparr>hq_data := (hq_data q)[hq_tail q := m], hq_tail := (hq_tail q + 1) mod hq_size q\<rparr>"
  have b: "hq_head q < hq_size q" "hq_tail q < hq_size q" "length (hq_data q) = hq_size q"
    using assms(1) by (auto simp: ring_inv_def)
  have len: "ring_length ?q = Suc (ring_length q)"
    using assms b by (auto simp: ring_length_def succ_mod split: if_splits)
  have last: "(ring_length q + hq_head q) mod hq_size q = hq_tail q"
    using b by (auto simp: ring_length_def add_mod_wrap mod_if)
  have "hq_tail q \<noteq> (i + hq_head q) mod hq_size q" if "i < ring_length q" for i
    using b that assms ring_length_less [OF assms(1)]
    by (auto simp: ring_length_def add_mod_wrap split: if_splits)
  then have "ring_contents ?q = ring_contents q @ [m]"
    using last b by (auto simp: ring_contents_def len [simplified] nth_list_update)
  moreover have "ring_inv ?q" using assms(1) by (simp add: ring_inv_def)
  ultimately show ?thesis by simp
qed

lemma ring_push: "ring_inv q \<Longrightarrow>
    ring_inv (push_queue_msg m q) \<and> ring_contents (push_queue_msg m q) = ring_contents q @ [m]"
proof (cases "(hq_tail q + 1) mod hq_size q = hq_head q")
  case True
  assume inv: "ring_inv q"
  with True have "ring_length q = hq_size q - 1" using ring_full_iff by blast
  from ring_grow [OF inv this] ring_push_room [of "grow_queue q" m] True show ?thesis
    by (simp add: push_queue_msg_def Let_def)
next
  case False
  assume inv: "ring_inv q"
  with False have "ring_length q + 1 < hq_size q"
    using ring_full_iff [OF inv] ring_length_less [OF inv] by linarith
  from ring_push_room [OF inv this] False show ?thesis by (simp add: push_queue_msg_def Let_def)
qed

lemma ring_pop:
  assumes "ring_inv q" and "pop_queue q = Some (m, q')"
  shows "ring_inv q' \<and> ring_contents q = m # ring_contents q'"
proof -
  have ne: "hq_head q \<noteq> hq_tail q" and m: "m = hq_data q ! hq_head q"
    and q': "q' = q\<lparr>hq_head := (hq_head q + 1) mod hq_size q\<rparr>"
    using assms(2) by (auto simp: pop_queue_def split: if_splits)
  have b: "hq_head q < hq_size q" "hq_tail q < hq_size q" using assms(1) by (auto simp: ring_inv_def)
  have len: "ring_length q = Suc (ring_length q')"
    using b ne by (auto simp: ring_length_def q' succ_mod)
  have "(i + (hq_head q + 1) mod hq_size q) mod hq_size q = (Suc i + hq_head q) mod hq_size q" for i
    by (simp add: mod_add_right_eq)
  then have "ring_contents q = m # ring_contents q'"
    using b by (simp add: ring_contents_def len m q' upt_conv_Cons del: upt_Suc)
      (simp add: map_Suc_upt [symmetric] del: upt_Suc)
  then show ?thesis using assms(1) by (simp add: q' ring_inv_def)
qed

lemma ring_empty: "ring_inv q \<Longrightarrow> pop_queue q = None \<longleftrightarrow> ring_contents q = []"
  by (auto simp: pop_queue_def ring_contents_def ring_length_def ring_inv_def)

lemma new_queue_ok [simp]: "ring_inv new_queue" "ring_contents new_queue = []"
  by (simp_all add: new_queue_def ring_inv_def ring_contents_def ring_length_def kDefaultQueueSize_def)

interpretation ring: fifo ring_inv ring_contents "\<lambda>_ _. True" push_queue_msg pop_queue
  by unfold_locales (use ring_push ring_pop ring_empty in blast)+

end
