(* ===== verification/HarborWire.thy ===== *)
theory HarborWire
  imports HarborQueue Calls
begin

text \<open>
  The wire format of \<open>service-src/service_harbor.cpp\<close>: a message to another node is a 4-byte
  big-endian length, the contents, and the 12 bytes of a \<open>struct remote_message_header\<close>; and
  \<open>send_remote\<close> and \<open>handshake\<close>, which hand it to the socket layer.
\<close>

section \<open>Big-endian words and headers\<close>

definition kHandleMask :: u32 where "kHandleMask = 0xffffff"
definition kHeaderCookieLength :: nat where "kHeaderCookieLength = 12"

definition to_bigendian :: "u32 \<Rightarrow> u8 list" where
  "to_bigendian n =
     [ucast (drop_bit 24 n AND 0xff), ucast (drop_bit 16 n AND 0xff), ucast (drop_bit 8 n AND 0xff),
      ucast (n AND 0xff)]"

definition header_to_message :: "remote_message_header \<Rightarrow> u8 list" where
  "header_to_message hdr =
     to_bigendian (rh_source hdr) @ to_bigendian (rh_destination hdr) @ to_bigendian (rh_session hdr)"

text \<open>\<open>from_bigendian\<close> looks at the bytes of its argument in memory, so it is given those bytes.\<close>

definition from_bigendian :: "u8 list \<Rightarrow> u32" where
  "from_bigendian bytes = be32 (bytes ! 0) (bytes ! 1) (bytes ! 2) (bytes ! 3)"

definition message_to_header :: "u8 list \<Rightarrow> remote_message_header" where
  "message_to_header msg =
     \<lparr>rh_source = from_bigendian (take 4 msg), rh_destination = from_bigendian (take 4 (drop 4 msg)),
      rh_session = from_bigendian (take 4 (drop 8 msg))\<rparr>"

lemma be32_bytes:
  "be32 (ucast (drop_bit 24 n AND 0xff)) (ucast (drop_bit 16 n AND 0xff)) (ucast (drop_bit 8 n AND 0xff))
     (ucast (n AND 0xff)) = (n :: u32)"
proof (rule bit_eqI)
  fix i assume "possible_bit TYPE(32 word) i"
  then have "i < 32" by simp
  have ff: "(0xff :: u32) = mask 8" by (simp add: mask_eq_exp_minus_1)
  consider "i < 8" | "8 \<le> i" "i < 16" | "16 \<le> i" "i < 24" | "24 \<le> i" "i < 32"
    using \<open>i < 32\<close> by linarith
  then show "bit (be32 (ucast (drop_bit 24 n AND 0xff)) (ucast (drop_bit 16 n AND 0xff))
      (ucast (drop_bit 8 n AND 0xff)) (ucast (n AND 0xff))) i = bit n i"
    by cases (auto simp: be32_def bit_simps ff)
qed

lemma from_to_bigendian: "from_bigendian (to_bigendian n) = n"
  by (simp add: from_bigendian_def to_bigendian_def be32_bytes)

lemma length_to_bigendian [simp]: "length (to_bigendian n) = 4"
  by (simp add: to_bigendian_def)

lemma length_header_to_message [simp]: "length (header_to_message hdr) = kHeaderCookieLength"
  by (simp add: header_to_message_def kHeaderCookieLength_def)

lemma message_to_header_ok: "message_to_header (header_to_message hdr) = hdr"
  by (simp add: message_to_header_def header_to_message_def from_to_bigendian)

lemma uint_from_bigendian:
  "uint (from_bigendian [a, b, c, d]) = uint a * 2 ^ 24 + uint b * 2 ^ 16 + uint c * 2 ^ 8 + uint d"
  by (simp add: from_bigendian_def uint_be32)

section \<open>Sending\<close>

definition send_remote ::
  "int \<Rightarrow> u8 list \<Rightarrow> nat \<Rightarrow> remote_message_header \<Rightarrow> call list res" where
  "send_remote fd buffer sz cookie =
     (let sz_header = sz + kHeaderCookieLength in
      if sz_header > 2 ^ 32 - 1 then
        Inr [SkynetError (''remote message from :'' @ to_string (uint (rh_source cookie)) @ '' to :'' @
               to_string (uint (rh_destination cookie)) @ '' is too large.'')]
      else
        bindR (memcpy_from buffer 0 (int sz)) (\<lambda>body.
        bindR (std_string (to_bigendian (of_nat sz_header) @ body @ header_to_message cookie)) (\<lambda>str.
          Inr [SocketSendBuffer fd str (sz_header + 4)])))"

text \<open>\<open>uint8_t handshake[1]\<close> is passed to \<open>std::string\<close> as if it were NUL-terminated.\<close>

definition handshake :: "int \<Rightarrow> int \<Rightarrow> call list res" where
  "handshake harbor fd =
     bindR (std_string [word_of_int harbor]) (\<lambda>str. Inr [SocketSendBuffer fd str 1])"

text \<open>The first byte of the length of a message below 16 MB is 0: the string it is copied into is empty.\<close>

lemma send_remote_empty:
  assumes "sz + kHeaderCookieLength < 2 ^ 24" and "sz \<le> length buffer"
  shows "send_remote fd buffer sz cookie = Inr [SocketSendBuffer fd [] (sz + 16)]"
proof -
  define n where "n = sz + kHeaderCookieLength"
  have n: "n < 2 ^ 24" using assms(1) by (simp add: n_def)
  then have "unat (of_nat n :: u32) = n"
    by (simp add: unat_of_nat)
  then have "unat (drop_bit 24 (of_nat n :: u32)) = 0"
    using n by (simp add: unat_drop_bit_eq drop_bit_eq_div unat_div)
  then have "drop_bit 24 (of_nat n :: u32) = 0" by (simp only: unat_eq_0)
  then obtain r where r: "to_bigendian (of_nat n) = 0 # r" by (simp add: to_bigendian_def)
  have "memcpy_from buffer 0 (int sz) = Inr (take sz buffer)"
    using assms(2) memcpy_from_nat [of 0 sz buffer] by simp
  with n r have "send_remote fd buffer sz cookie = Inr [SocketSendBuffer fd [] (n + 4)]"
    by (simp add: send_remote_def std_string_def Let_def n_def [symmetric])
  then show ?thesis by (simp add: n_def kHeaderCookieLength_def)
qed

end
