(* ===== verification/NameIndex.thy ===== *)
theory NameIndex
  imports Prelude
begin

text \<open>
  The contract of a name table: what a lookup finds after names have been entered, as long as there
  is \<open>room\<close> for them. The global
  names of \<open>service-src/service_harbor.cpp\<close> (a chained hash map) and the local names of
  \<open>skynet-src/handle.cpp\<close> (a sorted array with binary search) both provide it.
\<close>

locale name_index =
  fixes inv :: "'s \<Rightarrow> bool"
    and room :: "nat \<Rightarrow> 's \<Rightarrow> bool"
    and valid :: "'k \<Rightarrow> bool"
    and find :: "'s \<Rightarrow> 'k \<Rightarrow> 'v option"
    and enter :: "'k \<Rightarrow> 'v \<Rightarrow> 's \<Rightarrow> 's"
  assumes enter_inv: "inv s \<Longrightarrow> room (Suc n) s \<Longrightarrow> valid k \<Longrightarrow> find s k = None \<Longrightarrow> inv (enter k v s)"
    and enter_room: "inv s \<Longrightarrow> room (Suc n) s \<Longrightarrow> valid k \<Longrightarrow> find s k = None \<Longrightarrow> room n (enter k v s)"
    and find_enter: "inv s \<Longrightarrow> room (Suc n) s \<Longrightarrow> valid k \<Longrightarrow> valid k' \<Longrightarrow> find s k = None \<Longrightarrow>
      find (enter k v s) k' = (if k' = k then Some v else find s k')"
begin

abbreviation enter_all :: "('k \<times> 'v) list \<Rightarrow> 's \<Rightarrow> 's" where
  "enter_all kvs s \<equiv> fold (\<lambda>(k, v). enter k v) kvs s"

lemma enter_all_ok:
  assumes "inv s" and "room (length kvs) s" and "distinct (map fst kvs)" and "\<And>k. k \<in> set (map fst kvs) \<Longrightarrow> valid k \<and> find s k = None"
  shows "inv (enter_all kvs s) \<and>
    (\<forall>k. valid k \<longrightarrow> find (enter_all kvs s) k = (case map_of kvs k of None \<Rightarrow> find s k | Some v \<Rightarrow> Some v))"
  using assms
proof (induction kvs arbitrary: s)
  case Nil
  then show ?case by simp
next
  case (Cons kv kvs)
  obtain k v where kv: "kv = (k, v)" by fastforce
  have k: "valid k" "find s k = None" using Cons.prems(4) [of k] by (simp_all add: kv)
  let ?s = "enter k v s"
  have room: "room (Suc (length kvs)) s" using Cons.prems(2) by simp
  note find_s = find_enter [OF Cons.prems(1) room k(1) _ k(2)]
  have "inv ?s" "room (length kvs) ?s"
    using enter_inv [OF Cons.prems(1) room k] enter_room [OF Cons.prems(1) room k] by blast+
  moreover have "valid k' \<and> find ?s k' = None" if "k' \<in> set (map fst kvs)" for k'
    using that Cons.prems(3,4) find_s [of k'] by (auto simp: kv)
  ultimately have "inv (enter_all kvs ?s) \<and>
      (\<forall>k'. valid k' \<longrightarrow> find (enter_all kvs ?s) k' = (case map_of kvs k' of None \<Rightarrow> find ?s k' | Some v \<Rightarrow> Some v))"
    using Cons.IH Cons.prems(3) by (simp add: kv)
  moreover have "map_of kvs k = None" using Cons.prems(3) by (simp add: kv map_of_eq_None_iff)
  ultimately show ?case
    using find_s by (auto simp: kv split: option.split)
qed

end

end
