(* ===== verification/HarborMap.thy ===== *)
theory HarborMap
  imports HarborQueue NameIndex
begin

text \<open>
  The global name table of \<open>service-src/service_harbor.cpp\<close>: \<open>struct hashmap\<close>, an array of
  \<open>kHashSize\<close> chains of \<open>struct keyvalue\<close>. A name is an array of \<open>kGlobalNameLength\<close> bytes. A
  chain is the list of its nodes from the head; a write through the node pointer that
  \<open>hash_search\<close> or \<open>hash_insert\<close> returned is \<open>modify_node\<close>.
\<close>

section \<open>Data\<close>

definition kGlobalNameLength :: nat where "kGlobalNameLength = 16"
definition kHashSize :: nat where "kHashSize = 4098"

record keyvalue =
  kv_key :: "u8 list"
  kv_hash :: u32
  kv_value :: u32
  kv_queue :: "harbor_msg_queue option"

type_synonym hashmap = "nat \<Rightarrow> keyvalue list"

section \<open>Operations\<close>

text \<open>\<open>ptr[i]\<close> of a name read as an array of \<open>uint32_t\<close> on a little-endian machine.\<close>

definition name_word :: "u8 list \<Rightarrow> nat \<Rightarrow> u32" where
  "name_word name i =
     be32 (name ! (4 * i + 3)) (name ! (4 * i + 2)) (name ! (4 * i + 1)) (name ! (4 * i))"

definition name_hash :: "u8 list \<Rightarrow> u32" where
  "name_hash name = name_word name 0 XOR name_word name 1 XOR name_word name 2 XOR name_word name 3"

definition strncmp_eq :: "nat \<Rightarrow> u8 list \<Rightarrow> u8 list \<Rightarrow> bool" where
  "strncmp_eq n a b \<longleftrightarrow> takeWhile (\<lambda>c. c \<noteq> 0) (take n a) = takeWhile (\<lambda>c. c \<noteq> 0) (take n b)"

definition bucket_of :: "u32 \<Rightarrow> nat" where
  "bucket_of h = unat h mod kHashSize"

definition node_matches :: "u8 list \<Rightarrow> keyvalue \<Rightarrow> bool" where
  "node_matches name node \<longleftrightarrow>
     kv_hash node = name_hash name \<and> strncmp_eq kGlobalNameLength (kv_key node) name"

definition hash_search :: "hashmap \<Rightarrow> u8 list \<Rightarrow> keyvalue option" where
  "hash_search hash name = List.find (node_matches name) (hash (bucket_of (name_hash name)))"

definition keyvalue_new :: "u8 list \<Rightarrow> keyvalue" where
  "keyvalue_new name =
     \<lparr>kv_key = take kGlobalNameLength name, kv_hash = name_hash name, kv_value = 0, kv_queue = None\<rparr>"

definition hash_insert :: "hashmap \<Rightarrow> u8 list \<Rightarrow> hashmap" where
  "hash_insert hash name =
     (let b = bucket_of (name_hash name) in hash(b := keyvalue_new name # hash b))"

definition hash_new :: hashmap where
  "hash_new = (\<lambda>_. [])"

fun modify_first :: "('a \<Rightarrow> bool) \<Rightarrow> ('a \<Rightarrow> 'a) \<Rightarrow> 'a list \<Rightarrow> 'a list" where
  "modify_first P f [] = []"
| "modify_first P f (x # xs) = (if P x then f x # xs else x # modify_first P f xs)"

definition modify_node :: "hashmap \<Rightarrow> u8 list \<Rightarrow> (keyvalue \<Rightarrow> keyvalue) \<Rightarrow> hashmap" where
  "modify_node hash name f =
     (let b = bucket_of (name_hash name) in hash(b := modify_first (node_matches name) f (hash b)))"

text \<open>\<open>node = hash_search (...); if (node == NULL) node = hash_insert (...);\<close>\<close>

definition search_or_insert :: "hashmap \<Rightarrow> u8 list \<Rightarrow> hashmap \<times> keyvalue" where
  "search_or_insert hash name =
     (case hash_search hash name of
        Some node \<Rightarrow> (hash, node)
      | None \<Rightarrow> (hash_insert hash name, keyvalue_new name))"

section \<open>The table as a map from names\<close>

text \<open>The names that are used: the characters, then zeros up to \<open>kGlobalNameLength\<close> bytes.\<close>

definition pad_name :: "u8 list \<Rightarrow> u8 list" where
  "pad_name cs = cs @ replicate (kGlobalNameLength - length cs) 0"

definition is_name :: "u8 list \<Rightarrow> bool" where
  "is_name name \<longleftrightarrow>
     length name = kGlobalNameLength \<and> pad_name (takeWhile (\<lambda>c. c \<noteq> 0) name) = name"

definition map_inv :: "hashmap \<Rightarrow> bool" where
  "map_inv hash \<longleftrightarrow>
     (\<forall>b. \<forall>node \<in> set (hash b). is_name (kv_key node) \<and> kv_hash node = name_hash (kv_key node))"

lemma is_name_length: "is_name name \<Longrightarrow> length name = kGlobalNameLength"
  by (simp add: is_name_def)

lemma strncmp_eq_names:
  assumes "is_name a" and "is_name b"
  shows "strncmp_eq kGlobalNameLength a b \<longleftrightarrow> a = b"
proof -
  have "pad_name (takeWhile (\<lambda>c. c \<noteq> 0) a) = a" "pad_name (takeWhile (\<lambda>c. c \<noteq> 0) b) = b"
    "take kGlobalNameLength a = a" "take kGlobalNameLength b = b"
    using assms by (simp_all add: is_name_def)
  then show ?thesis unfolding strncmp_eq_def by metis
qed

lemma pad_name_is_name:
  assumes "length cs \<le> kGlobalNameLength" and "0 \<notin> set cs"
  shows "is_name (pad_name cs)"
proof -
  have "takeWhile (\<lambda>c. c \<noteq> 0) (pad_name cs) = cs"
    using assms(2) by (simp add: pad_name_def takeWhile_append takeWhile_replicate)
  then show ?thesis using assms(1) by (simp add: is_name_def) (simp add: pad_name_def)
qed

lemma find_modify_first:
  "(\<And>x. P (f x) = P x) \<Longrightarrow> List.find P (modify_first P f xs) = map_option f (List.find P xs)"
  by (induction xs) auto

lemma find_modify_other:
  "(\<And>x. x \<in> set xs \<Longrightarrow> P x \<Longrightarrow> \<not> Q x \<and> \<not> Q (f x)) \<Longrightarrow> List.find Q (modify_first P f xs) = List.find Q xs"
  by (induction xs) auto

lemma set_modify_first: "x \<in> set (modify_first P f xs) \<Longrightarrow> x \<in> set xs \<or> (\<exists>y \<in> set xs. x = f y)"
  by (induction xs) (auto split: if_splits)

lemma matches_name:
  assumes "map_inv hash" and "node \<in> set (hash b)" and "is_name name"
  shows "node_matches name node \<longleftrightarrow> kv_key node = name"
proof -
  have "is_name (kv_key node)" "kv_hash node = name_hash (kv_key node)"
    using assms(1,2) by (simp_all add: map_inv_def)
  then show ?thesis using strncmp_eq_names [OF _ assms(3)] by (auto simp: node_matches_def)
qed

lemma insert_inv: "map_inv hash \<Longrightarrow> is_name name \<Longrightarrow> map_inv (hash_insert hash name)"
  by (simp add: map_inv_def hash_insert_def Let_def keyvalue_new_def is_name_length)

lemma search_insert:
  assumes "map_inv hash" and "is_name name" and "is_name name'"
  shows "hash_search (hash_insert hash name) name' =
    (if name' = name then Some (keyvalue_new name) else hash_search hash name')"
proof -
  have "node_matches name' (keyvalue_new name) \<longleftrightarrow> name' = name"
    using assms(2,3) strncmp_eq_names [of name name']
    by (auto simp: node_matches_def keyvalue_new_def is_name_length)
  then show ?thesis by (auto simp: hash_search_def hash_insert_def Let_def)
qed

definition keeps_key :: "(keyvalue \<Rightarrow> keyvalue) \<Rightarrow> bool" where
  "keeps_key f \<longleftrightarrow> (\<forall>n. kv_key (f n) = kv_key n \<and> kv_hash (f n) = kv_hash n)"

lemma modify_inv: "map_inv hash \<Longrightarrow> keeps_key f \<Longrightarrow> map_inv (modify_node hash name f)"
proof -
  assume inv: "map_inv hash" and f: "keeps_key f"
  let ?m = "modify_first (node_matches name) f"
  have ok: "is_name (kv_key node) \<and> kv_hash node = name_hash (kv_key node)"
    if mem: "node \<in> set (?m (hash b))" for b node
  proof -
    obtain n where "n \<in> set (hash b)" "node = n \<or> node = f n"
      using set_modify_first [OF mem] by auto
    moreover from this(1) inv have "is_name (kv_key n)" "kv_hash n = name_hash (kv_key n)"
      by (simp_all add: map_inv_def)
    ultimately show ?thesis using f by (auto simp: keeps_key_def)
  qed
  with inv show ?thesis by (simp add: map_inv_def modify_node_def Let_def)
qed

lemma search_modify:
  assumes "map_inv hash" and "is_name name" and "is_name name'" and "keeps_key f"
  shows "hash_search (modify_node hash name f) name' =
    (if name' = name then map_option f (hash_search hash name) else hash_search hash name')"
proof (cases "name' = name")
  case True
  have "node_matches name (f n) = node_matches name n" for n
    using assms(4) by (simp add: node_matches_def keeps_key_def)
  with True show ?thesis
    by (simp add: hash_search_def modify_node_def Let_def find_modify_first)
next
  case False
  have "List.find (node_matches name') (modify_first (node_matches name) f (hash b)) =
      List.find (node_matches name') (hash b)" for b
  proof (rule find_modify_other)
    fix x assume "x \<in> set (hash b)" "node_matches name x"
    then have "kv_key x = name" "is_name (kv_key x)"
      using assms(1,2) matches_name by (simp_all add: map_inv_def)
    then show "\<not> node_matches name' x \<and> \<not> node_matches name' (f x)"
      using False assms(3,4) strncmp_eq_names by (auto simp: node_matches_def keeps_key_def)
  qed
  with False show ?thesis by (simp add: hash_search_def modify_node_def Let_def)
qed

lemma search_matches: "hash_search hash name = Some node \<Longrightarrow> node_matches name node"
  by (auto simp: hash_search_def find_Some_iff)

lemma hash_new_ok [simp]: "map_inv hash_new" "hash_search hash_new name = None"
  by (simp_all add: map_inv_def hash_new_def hash_search_def)

lemma search_or_insert_ok:
  assumes "map_inv hash" and "is_name name" and "search_or_insert hash name = (hash', node)"
  shows "map_inv hash'" and "hash_search hash' name = Some node"
    and "\<And>name'. is_name name' \<Longrightarrow> name' \<noteq> name \<Longrightarrow> hash_search hash' name' = hash_search hash name'"
  using assms search_insert [OF assms(1,2)] insert_inv [OF assms(1,2)]
  by (auto simp: search_or_insert_def split: option.splits)

section \<open>Entering names\<close>

text \<open>What \<open>update_name\<close> does to the table: find or make the node, then set its value.\<close>

definition set_value :: "u8 list \<Rightarrow> u32 \<Rightarrow> hashmap \<Rightarrow> hashmap" where
  "set_value name handle hash =
     modify_node (fst (search_or_insert hash name)) name (\<lambda>node. node\<lparr>kv_value := handle\<rparr>)"

definition name_value :: "hashmap \<Rightarrow> u8 list \<Rightarrow> u32 option" where
  "name_value hash name = map_option kv_value (hash_search hash name)"

lemma set_value_ok:
  assumes "map_inv hash" and "is_name name"
  shows "map_inv (set_value name handle hash)"
    and "is_name name' \<Longrightarrow>
      name_value (set_value name handle hash) name' = (if name' = name then Some handle else name_value hash name')"
proof -
  obtain hash' node where s: "search_or_insert hash name = (hash', node)" by fastforce
  note ok = search_or_insert_ok [OF assms s]
  have keep: "keeps_key (\<lambda>node. node\<lparr>kv_value := handle\<rparr>)" by (simp add: keeps_key_def)
  show "map_inv (set_value name handle hash)"
    using modify_inv [OF ok(1) keep] by (simp add: set_value_def s)
  show "name_value (set_value name handle hash) name' = (if name' = name then Some handle else name_value hash name')"
    if "is_name name'"
    using search_modify [OF ok(1) assms(2) that keep] ok(2) ok(3) [OF that]
    by (auto simp: name_value_def set_value_def s)
qed

interpretation global_names: name_index map_inv "\<lambda>_ _. True" is_name name_value set_value
  by unfold_locales (simp_all add: set_value_ok)

end
