(* ===== verification/Harbor.thy ===== *)
theory Harbor
  imports HarborWire HarborMap
begin

text \<open>
  The harbor service of \<open>service-src/service_harbor.cpp\<close>, which carries messages to and from the
  other nodes: the connection to each node (\<open>struct slave\<close>) with its receive state machine and its
  queue, the names that are bound to handles of other nodes, and the handlers.

  A handler returns \<open>None\<close> when it does not return, a fault, or the new state with the calls it
  made. \<open>answer\<close> is what \<open>ServiceSend\<close> returns for a call, where the code looks at it.
\<close>

section \<open>Data\<close>

definition kStatusWait :: int where "kStatusWait = 0"
definition kStatusHandshake :: int where "kStatusHandshake = 1"
definition kStatusHeader :: int where "kStatusHeader = 2"
definition kStatusContent :: int where "kStatusContent = 3"
definition kStatusDown :: int where "kStatusDown = 4"
definition kRemoteMax :: nat where "kRemoteMax = 256"

lemmas status_defs = kStatusWait_def kStatusHandshake_def kStatusHeader_def kStatusContent_def
  kStatusDown_def

record slave =
  sl_fd :: int
  sl_queue :: "harbor_msg_queue option"
  sl_status :: int
  sl_length :: int
  sl_read :: int
  sl_size :: "u8 list"
  sl_recv_buffer :: "u8 list"

record harbor =
  h_id :: int
  h_slave :: u32
  h_map :: hashmap
  h_s :: "slave list"

type_synonym harbor_result = "(harbor \<times> call list) res option"

definition slave_zero :: slave where
  "slave_zero = \<lparr>sl_fd = 0, sl_queue = None, sl_status = kStatusWait, sl_length = 0, sl_read = 0,
                 sl_size = [0, 0, 0, 0], sl_recv_buffer = []\<rparr>"

definition harbor_create :: harbor where
  "harbor_create = \<lparr>h_id = 0, h_slave = 0, h_map = hash_new, h_s = replicate kRemoteMax slave_zero\<rparr>"

section \<open>Sequencing\<close>

definition returns :: "harbor \<Rightarrow> call list \<Rightarrow> harbor_result" where
  "returns h calls = Some (Inr (h, calls))"

definition andthen :: "harbor_result \<Rightarrow> (harbor \<Rightarrow> harbor_result) \<Rightarrow> harbor_result" where
  "andthen m f = bindO m (\<lambda>(h, calls). bindO (f h) (\<lambda>(h', calls'). Some (Inr (h', calls @ calls'))))"

lemma andthen_simps [simp]:
  "andthen (Some (Inl e)) f = Some (Inl e)"
  "andthen None f = None"
  "andthen (returns h calls) f = bindO (f h) (\<lambda>(h', calls'). Some (Inr (h', calls @ calls')))"
  by (simp_all add: andthen_def returns_def)

lemma bindO_returns [simp]: "bindO (returns h calls) f = f (h, calls)"
  by (simp add: returns_def)

definition slave_at :: "harbor \<Rightarrow> nat \<Rightarrow> slave" where
  "slave_at h i = h_s h ! i"

definition set_slave :: "nat \<Rightarrow> (slave \<Rightarrow> slave) \<Rightarrow> harbor \<Rightarrow> harbor" where
  "set_slave i f h = h\<lparr>h_s := (h_s h)[i := f (h_s h ! i)]\<rparr>"

text \<open>\<open>handle >> kHandleRemoteShift\<close>: an index below \<open>kRemoteMax\<close> for every handle.\<close>

definition harbor_of :: "u32 \<Rightarrow> nat" where
  "harbor_of handle = unat (drop_bit 24 handle)"

lemma harbor_of_less: "harbor_of handle < kRemoteMax"
proof -
  have "unat handle < 2 ^ 32" using unsigned_less [of handle, where ?'a = nat] by simp
  then show ?thesis by (simp add: harbor_of_def kRemoteMax_def unat_drop_bit_eq drop_bit_eq_div unat_div)
qed

section \<open>Closing\<close>

definition close_harbor :: "harbor \<Rightarrow> nat \<Rightarrow> harbor_result" where
  "close_harbor h i =
     (case release_queue (sl_queue (slave_at h i)) of
        None \<Rightarrow> None
      | Some _ \<Rightarrow>
          returns (set_slave i (\<lambda>s. s\<lparr>sl_status := kStatusDown, sl_fd := 0, sl_queue := None\<rparr>) h)
            (if sl_fd (slave_at h i) \<noteq> 0 then [SocketClose (sl_fd (slave_at h i))] else []))"

definition report_harbor_down :: "harbor \<Rightarrow> nat \<Rightarrow> harbor_result" where
  "report_harbor_down h i =
     returns h [ServiceSend 0 (h_slave h) kPtypeText 0 (bytes_of (''D '' @ to_string (int i)))]"

fun close_remotes :: "harbor \<Rightarrow> nat list \<Rightarrow> harbor_result" where
  "close_remotes h [] = returns h []"
| "close_remotes h (i # ids) = andthen (close_harbor h i) (\<lambda>h'. close_remotes h' ids)"

definition close_all_remotes :: "harbor \<Rightarrow> harbor_result" where
  "close_all_remotes h = close_remotes h [1 ..< kRemoteMax]"

text \<open>\<open>hash_delete\<close> releases the queue of every node.\<close>

fun release_nodes :: "keyvalue list \<Rightarrow> unit option" where
  "release_nodes [] = Some ()"
| "release_nodes (n # ns) = (case release_queue (kv_queue n) of None \<Rightarrow> None | Some _ \<Rightarrow> release_nodes ns)"

definition hash_delete :: "hashmap \<Rightarrow> unit option" where
  "hash_delete hash = release_nodes (concat (map hash [0 ..< kHashSize]))"

definition harbor_release :: "harbor \<Rightarrow> harbor_result" where
  "harbor_release h =
     andthen (close_all_remotes h) (\<lambda>h'.
       case hash_delete (h_map h') of None \<Rightarrow> None | Some _ \<Rightarrow> returns h' [])"

section \<open>Messages out of the queues\<close>

definition forward_local_messsage ::
  "(call \<Rightarrow> int) \<Rightarrow> harbor \<Rightarrow> u8 list \<Rightarrow> int \<Rightarrow> call list res" where
  "forward_local_messsage answer h msg sz =
     bindR (memcpy_from (msg @ [0]) (sz - int kHeaderCookieLength) (int kHeaderCookieLength)) (\<lambda>cookie.
       let header = message_to_header cookie;
           ty = uint (drop_bit 24 (rh_destination header));
           destination = (rh_destination header AND kHandleMask) OR push_bit 24 (word_of_int (h_id h));
           send = ServiceSend (rh_source header) destination (ty OR kPtypeTagDontcopy)
             (sint (rh_session header)) (take (nat (sz - int kHeaderCookieLength)) msg)
       in Inr (send #
            (if answer send < 0 then
               (if ty \<noteq> kPtypeError
                then [ServiceSend destination (rh_source header) kPtypeError (sint (rh_session header)) []]
                else []) @
               [SkynetError (''Unknown destination :'' @ to_string (uint destination) @ '' from :'' @
                  to_string (uint (rh_source header)) @ '' type('' @ to_string ty @ '')'')]
             else [])))"

text \<open>\<open>while ((m = pop_queue (queue)) != NULL) send_remote (..., &m->header);\<close>\<close>

fun send_all :: "int \<Rightarrow> harbor_msg list \<Rightarrow> call list res" where
  "send_all fd [] = Inr []"
| "send_all fd (m # ms) =
     bindR (send_remote fd (hm_buffer m) (hm_size m) (hm_header m)) (\<lambda>calls.
     bindR (send_all fd ms) (\<lambda>calls'. Inr (calls @ calls')))"

definition set_handle :: "u32 \<Rightarrow> harbor_msg \<Rightarrow> harbor_msg" where
  "set_handle handle m =
     m\<lparr>hm_header := (hm_header m)\<lparr>rh_destination := rh_destination (hm_header m) OR (handle AND kHandleMask)\<rparr>\<rparr>"

definition local_send :: "u32 \<Rightarrow> harbor_msg \<Rightarrow> call" where
  "local_send handle m =
     ServiceSend (rh_source (hm_header m)) handle
       (uint (drop_bit 24 (rh_destination (hm_header m))) OR kPtypeTagDontcopy)
       (sint (rh_session (hm_header m))) (take (hm_size m) (hm_buffer m))"

text \<open>
  \<open>dispatch_name_queue\<close> for the node of \<open>name\<close>: the three cases of the connection to the node's
  harbor. A \<open>NULL\<close> queue that is popped is a fault.
\<close>

definition name_queue_drop :: "harbor \<Rightarrow> keyvalue \<Rightarrow> harbor_result" where
  "name_queue_drop h node =
     returns h [SkynetError (''Drop message to '' @ c_str (string_of (kv_key node)) @ '' (in harbor '' @
       to_string (int (harbor_of (kv_value node))) @ '')'')]"

definition name_queue_move :: "harbor \<Rightarrow> u8 list \<Rightarrow> keyvalue \<Rightarrow> harbor_result" where
  "name_queue_move h name node =
     (let i = harbor_of (kv_value node) in
      case sl_queue (slave_at h i) of
        None \<Rightarrow>
          returns (set_slave i (\<lambda>s. s\<lparr>sl_queue := kv_queue node\<rparr>)
                 (h\<lparr>h_map := modify_node (h_map h) name (\<lambda>n. n\<lparr>kv_queue := None\<rparr>)\<rparr>)) []
      | Some sq \<Rightarrow>
          (case kv_queue node of
             None \<Rightarrow> Some (Inl NullDereference)
           | Some q \<Rightarrow>
               (case drain pop_queue q [] of
                  None \<Rightarrow> None
                | Some (ms, q') \<Rightarrow>
                    returns (set_slave i (\<lambda>s. s\<lparr>sl_queue := Some (fold push_queue_msg ms sq)\<rparr>)
                      (h\<lparr>h_map := modify_node (h_map h) name (\<lambda>n. n\<lparr>kv_queue := Some q'\<rparr>)\<rparr>)) [])))"

definition name_queue_local :: "harbor \<Rightarrow> keyvalue \<Rightarrow> harbor_result" where
  "name_queue_local h node =
     (let i = harbor_of (kv_value node) in
      if i = harbor_of (h_slave h) then
        (case sl_queue (slave_at h i) of
           None \<Rightarrow> Some (Inl NullDereference)
         | Some sq \<Rightarrow>
             (case drain pop_queue sq [] of
                None \<Rightarrow> None
              | Some (ms, _) \<Rightarrow>
                  returns (set_slave i (\<lambda>s. s\<lparr>sl_queue := None\<rparr>) h) (map (local_send (kv_value node)) ms)))
      else returns h [])"

definition name_queue_send :: "harbor \<Rightarrow> u8 list \<Rightarrow> keyvalue \<Rightarrow> harbor_result" where
  "name_queue_send h name node =
     (case kv_queue node of
        None \<Rightarrow> Some (Inl NullDereference)
      | Some q \<Rightarrow>
          (case drain pop_queue q [] of
             None \<Rightarrow> None
           | Some (ms, q') \<Rightarrow>
               (case send_all (sl_fd (slave_at h (harbor_of (kv_value node))))
                       (map (set_handle (kv_value node)) ms) of
                  Inl e \<Rightarrow> Some (Inl e)
                | Inr calls \<Rightarrow>
                    returns (h\<lparr>h_map := modify_node (h_map h) name (\<lambda>n. n\<lparr>kv_queue := Some q'\<rparr>)\<rparr>) calls)))"

definition dispatch_name_queue :: "harbor \<Rightarrow> u8 list \<Rightarrow> keyvalue \<Rightarrow> harbor_result" where
  "dispatch_name_queue h name node =
     (let s = slave_at h (harbor_of (kv_value node)) in
      if sl_fd s = 0 then
        if sl_status s = kStatusDown then name_queue_drop h node
        else andthen (name_queue_move h name node) (\<lambda>h'. name_queue_local h' node)
      else name_queue_send h name node)"

definition dispatch_queue :: "harbor \<Rightarrow> nat \<Rightarrow> harbor_result" where
  "dispatch_queue h i =
     (let s = slave_at h i in
      if sl_fd s = 0 then Some (Inl AssertionFailed)
      else
        case sl_queue s of
          None \<Rightarrow> returns h []
        | Some q \<Rightarrow>
            (case drain pop_queue q [] of
               None \<Rightarrow> None
             | Some (ms, _) \<Rightarrow>
                 (case send_all (sl_fd s) ms of
                    Inl e \<Rightarrow> Some (Inl e)
                  | Inr calls \<Rightarrow> returns (set_slave i (\<lambda>s. s\<lparr>sl_queue := None\<rparr>) h) calls)))"

section \<open>Data from a socket\<close>

text \<open>
  \<open>push_socket_data\<close>. \<open>mem\<close> is what can be read at \<open>message->buffer.data()\<close> (the string and its
  NUL), \<open>pos\<close> where \<open>buffer\<close> points into it, \<open>n\<close> the variable \<open>size\<close>. A part of the \<open>switch\<close>
  either returns from the function or goes on.
\<close>

datatype 'a flow = Return harbor "call list" | Go 'a harbor "call list"

text \<open>\<open>memcpy (s->size + s->read, buffer, n)\<close>.\<close>

definition copy_size :: "slave \<Rightarrow> u8 list \<Rightarrow> int \<Rightarrow> int \<Rightarrow> u8 list res" where
  "copy_size s mem pos n =
     (if sl_read s < 0 \<or> sl_read s + n > 4 then Inl OutOfBounds
      else bindR (memcpy_from mem pos n) (\<lambda>bs.
        Inr (take (nat (sl_read s)) (sl_size s) @ bs @ drop (nat (sl_read s + n)) (sl_size s))))"

definition length_field :: "u8 list \<Rightarrow> int" where
  "length_field bs = uint (bs ! 1) * 2 ^ 16 + uint (bs ! 2) * 2 ^ 8 + uint (bs ! 3)"

definition case_handshake ::
  "harbor \<Rightarrow> nat \<Rightarrow> int \<Rightarrow> u8 list \<Rightarrow> int \<Rightarrow> int \<Rightarrow> (int \<times> int) flow res option" where
  "case_handshake h i fd mem pos n =
     bindO (Some (nthR mem pos)) (\<lambda>remote_id.
       if uint remote_id \<noteq> int i then
         bindO (close_harbor h i) (\<lambda>(h', calls).
           Some (Inr (Return h' (SkynetError (''Invalid shakehand id ('' @ to_string (int i) @ '') from fd = '' @
             to_string fd @ '' , harbor = '' @ to_string (uint remote_id)) # calls))))
       else
         bindO (dispatch_queue (set_slave i (\<lambda>s. s\<lparr>sl_status := kStatusHeader\<rparr>) h) i) (\<lambda>(h', calls).
           Some (Inr (Go (pos + 1, n - 1) h' calls))))"

definition case_header ::
  "harbor \<Rightarrow> nat \<Rightarrow> u8 list \<Rightarrow> int \<Rightarrow> int \<Rightarrow> (int \<times> int) flow res option" where
  "case_header h i mem pos n =
     (let s = slave_at h i; need = 4 - sl_read s in
      if n < need then
        bindO (Some (copy_size s mem pos n)) (\<lambda>bs.
          Some (Inr (Return (set_slave i (\<lambda>s. s\<lparr>sl_size := bs, sl_read := sl_read s + n\<rparr>) h) [])))
      else
        bindO (Some (copy_size s mem pos need)) (\<lambda>bs.
          let h1 = set_slave i (\<lambda>s. s\<lparr>sl_size := bs\<rparr>) h in
          if bs ! 0 \<noteq> 0 then
            bindO (close_harbor h1 i) (\<lambda>(h', calls).
              Some (Inr (Return h' (SkynetError (''Message is too long from harbor '' @ to_string (int i)) # calls))))
          else
            let h2 = set_slave i (\<lambda>s. s\<lparr>sl_length := length_field bs, sl_read := 0,
                                        sl_status := kStatusContent\<rparr>) h1
            in Some (Inr (if n - need = 0 then Return h2 [] else Go (pos + need, n - need) h2 []))))"

definition case_content ::
  "(call \<Rightarrow> int) \<Rightarrow> harbor \<Rightarrow> nat \<Rightarrow> u8 list \<Rightarrow> int \<Rightarrow> int \<Rightarrow> (int \<times> int) flow res option" where
  "case_content answer h i mem pos n =
     (let s = slave_at h i; need = sl_length s - sl_read s in
      if pos < 0 \<or> int (length mem) < pos then Some (Inl OutOfBounds)
      else
        bindO (Some (std_string (drop (nat pos) mem))) (\<lambda>str.
          let recv = sl_recv_buffer s @ str in
          if n < need then
            Some (Inr (Return (set_slave i (\<lambda>s. s\<lparr>sl_recv_buffer := recv, sl_read := sl_read s + n\<rparr>) h) []))
          else
            bindO (Some (forward_local_messsage answer h recv (sl_length s))) (\<lambda>calls.
              let h' = set_slave i (\<lambda>s. s\<lparr>sl_length := 0, sl_read := 0, sl_recv_buffer := [],
                                          sl_status := kStatusHeader\<rparr>) h
              in Some (Inr (if n - need = 0 then Return h' calls else Go (pos + need, n - need) h' calls)))))"

text \<open>One pass through the \<open>switch\<close>, with its fall-throughs.\<close>

definition from_content ::
  "(call \<Rightarrow> int) \<Rightarrow> nat \<Rightarrow> u8 list \<Rightarrow> call list \<Rightarrow> harbor \<Rightarrow> int \<Rightarrow> int \<Rightarrow> (int \<times> int) flow res option" where
  "from_content answer i mem out h pos n =
     bindO (case_content answer h i mem pos n) (\<lambda>r. Some (Inr (case r of
       Return h' calls \<Rightarrow> Return h' (out @ calls) | Go p h' calls \<Rightarrow> Go p h' (out @ calls))))"

definition from_header ::
  "(call \<Rightarrow> int) \<Rightarrow> nat \<Rightarrow> u8 list \<Rightarrow> call list \<Rightarrow> harbor \<Rightarrow> int \<Rightarrow> int \<Rightarrow> (int \<times> int) flow res option" where
  "from_header answer i mem out h pos n =
     bindO (case_header h i mem pos n) (\<lambda>r. case r of
       Return h' calls \<Rightarrow> Some (Inr (Return h' (out @ calls)))
     | Go p h' calls \<Rightarrow> from_content answer i mem (out @ calls) h' (fst p) (snd p))"

definition switch_status ::
  "(call \<Rightarrow> int) \<Rightarrow> nat \<Rightarrow> int \<Rightarrow> u8 list \<Rightarrow> call list \<Rightarrow> harbor \<Rightarrow> int \<Rightarrow> int \<Rightarrow> (int \<times> int) flow res option" where
  "switch_status answer i fd mem out h pos n =
     (let st = sl_status (slave_at h i) in
      if st = kStatusHandshake then
        bindO (case_handshake h i fd mem pos n) (\<lambda>r. case r of
          Return h' calls \<Rightarrow> Some (Inr (Return h' (out @ calls)))
        | Go p h' calls \<Rightarrow>
            if snd p = 0 then Some (Inr (Go p h' (out @ calls)))
            else from_header answer i mem (out @ calls) h' (fst p) (snd p))
      else if st = kStatusHeader then from_header answer i mem out h pos n
      else if st = kStatusContent then from_content answer i mem out h pos n
      else Some (Inr (Return h out)))"

partial_function (option) push_loop ::
  "(call \<Rightarrow> int) \<Rightarrow> nat \<Rightarrow> int \<Rightarrow> u8 list \<Rightarrow> call list \<Rightarrow> harbor \<Rightarrow> int \<Rightarrow> int \<Rightarrow> harbor_result" where
  "push_loop answer i fd mem out h pos n =
     (case switch_status answer i fd mem out h pos n of
        None \<Rightarrow> None
      | Some r \<Rightarrow>
          (case r of
             Inl e \<Rightarrow> Some (Inl e)
           | Inr f \<Rightarrow>
               (case f of
                  Return h' calls \<Rightarrow> Some (Inr (h', calls))
                | Go p h' calls \<Rightarrow> push_loop answer i fd mem calls h' (fst p) (snd p))))"

text \<open>\<open>for (i = 1; i < kRemoteMax; i++) if (h->s[i].fd == fd)\<close>, also the function \<open>harbor_id\<close>.\<close>

definition find_slave :: "harbor \<Rightarrow> int \<Rightarrow> nat option" where
  "find_slave h fd = List.find (\<lambda>i. sl_fd (slave_at h i) = fd) [1 ..< kRemoteMax]"

definition harbor_id :: "harbor \<Rightarrow> int \<Rightarrow> nat" where
  "harbor_id h fd = (case find_slave h fd of None \<Rightarrow> 0 | Some i \<Rightarrow> i)"

definition push_socket_data :: "(call \<Rightarrow> int) \<Rightarrow> harbor \<Rightarrow> socket_message \<Rightarrow> harbor_result" where
  "push_socket_data answer h m =
     (if sm_type m \<noteq> kSocketTypeData then Some (Inl AssertionFailed)
      else
        case find_slave h (sm_id m) of
          None \<Rightarrow> returns h [SkynetError (''Invalid socket fd ('' @ to_string (sm_id m) @ '') data'')]
        | Some i \<Rightarrow> push_loop answer i (sm_id m) (sm_buffer m @ [0]) [] h 0 (sm_ud m))"

section \<open>Names and sending\<close>

definition update_name :: "harbor \<Rightarrow> u8 list \<Rightarrow> u32 \<Rightarrow> harbor_result" where
  "update_name h name handle =
     (let (hash, _) = search_or_insert (h_map h) name;
          hash' = modify_node hash name (\<lambda>n. n\<lparr>kv_value := handle\<rparr>);
          h1 = h\<lparr>h_map := hash'\<rparr>
      in case hash_search hash' name of
           None \<Rightarrow> Some (Inl NullDereference)
         | Some node \<Rightarrow>
             if kv_queue node = None then returns h1 []
             else
               andthen (dispatch_name_queue h1 name node) (\<lambda>h2.
                 case hash_search (h_map h2) name of
                   None \<Rightarrow> Some (Inl NullDereference)
                 | Some node' \<Rightarrow>
                     (case release_queue (kv_queue node') of
                        None \<Rightarrow> None
                      | Some _ \<Rightarrow>
                          returns (h2\<lparr>h_map := modify_node (h_map h2) name (\<lambda>n. n\<lparr>kv_queue := None\<rparr>)\<rparr>) [])))"

definition slave_header :: "u32 \<Rightarrow> u32 \<Rightarrow> int \<Rightarrow> int \<Rightarrow> remote_message_header" where
  "slave_header source destination ty session =
     \<lparr>rh_source = source, rh_destination = push_bit 24 (word_of_int ty) OR (destination AND kHandleMask),
      rh_session = word_of_int session\<rparr>"

definition remote_send_handle ::
  "harbor \<Rightarrow> u32 \<Rightarrow> u32 \<Rightarrow> int \<Rightarrow> int \<Rightarrow> u8 list \<Rightarrow> nat \<Rightarrow> harbor_result" where
  "remote_send_handle h source destination ty session msg sz =
     (let i = harbor_of destination; s = slave_at h i in
      if int i = h_id h then
        returns h [ServiceSend source destination (ty OR kPtypeTagDontcopy) session (take sz msg)]
      else if sl_fd s = 0 \<or> sl_status s = kStatusHandshake then
        if sl_status s = kStatusDown then
          returns h [ServiceSend destination source kPtypeError session []]
        else
          let q = (case sl_queue s of None \<Rightarrow> new_queue | Some q \<Rightarrow> q);
              q' = push_queue msg sz (slave_header source destination ty session) q
          in returns (set_slave i (\<lambda>s. s\<lparr>sl_queue := Some q'\<rparr>) h) []
      else
        (case send_remote (sl_fd s) msg sz (slave_header source destination ty session) of
           Inl e \<Rightarrow> Some (Inl e)
         | Inr calls \<Rightarrow> returns h calls))"

definition remote_send_name ::
  "harbor \<Rightarrow> u32 \<Rightarrow> u8 list \<Rightarrow> int \<Rightarrow> int \<Rightarrow> u8 list \<Rightarrow> nat \<Rightarrow> harbor_result" where
  "remote_send_name h source name ty session msg sz =
     (let (hash, node) = search_or_insert (h_map h) name; h1 = h\<lparr>h_map := hash\<rparr> in
      if kv_value node = 0 then
        let header = \<lparr>rh_source = source, rh_destination = push_bit 24 (word_of_int ty),
                      rh_session = word_of_int session\<rparr>;
            q = push_queue msg sz header (case kv_queue node of None \<Rightarrow> new_queue | Some q \<Rightarrow> q)
        in returns (h1\<lparr>h_map := modify_node hash name (\<lambda>n. n\<lparr>kv_queue := Some q\<rparr>)\<rparr>)
             [ServiceSend 0 (h_slave h) kPtypeText 0
               (bytes_of ''Q '' @ takeWhile (\<lambda>b. b \<noteq> 0) (take kGlobalNameLength name))]
      else remote_send_handle h1 source (kv_value node) ty session msg sz)"

section \<open>Commands and the main loop\<close>

definition set_name_command :: "harbor \<Rightarrow> u8 list \<Rightarrow> u32 \<Rightarrow> harbor_result" where
  "set_name_command h name source =
     (if name = [] \<or> length name \<ge> kGlobalNameLength then returns h []
      else update_name h (pad_name name) source)"

definition connect_command :: "harbor \<Rightarrow> bool \<Rightarrow> u8 list \<Rightarrow> harbor_result" where
  "connect_command h is_S text =
     (let buffer = c_str (string_of text);
          (fd, rest) = (case scan_int buffer of None \<Rightarrow> (0, None) | Some (v, r) \<Rightarrow> (v, Some r));
          i = (case rest of None \<Rightarrow> 0 | Some r \<Rightarrow> (case scan_int r of None \<Rightarrow> 0 | Some (v, _) \<Rightarrow> v))
      in if fd = 0 \<or> i \<le> 0 \<or> i \<ge> int kRemoteMax then returns h []
         else if sl_fd (slave_at h (nat i)) \<noteq> 0 then returns h []
         else
           let h1 = set_slave (nat i) (\<lambda>s. s\<lparr>sl_fd := fd\<rparr>) h in
           case handshake (h_id h1) fd of
             Inl e \<Rightarrow> Some (Inl e)
           | Inr calls \<Rightarrow>
               andthen (returns h1 (SocketStart fd # calls)) (\<lambda>h2.
                 if is_S then returns (set_slave (nat i) (\<lambda>s. s\<lparr>sl_status := kStatusHandshake\<rparr>) h2) []
                 else dispatch_queue (set_slave (nat i) (\<lambda>s. s\<lparr>sl_status := kStatusHeader\<rparr>) h2) (nat i)))"

definition harbor_command :: "harbor \<Rightarrow> u8 list \<Rightarrow> u32 \<Rightarrow> harbor_result" where
  "harbor_command h msg source =
     (case msg of
        [] \<Rightarrow> Some (Inl OutOfBounds)
      | c # rest \<Rightarrow>
          if c = of_char CHR ''N'' then set_name_command h (drop 1 rest) source
          else if c = of_char CHR ''S'' \<or> c = of_char CHR ''A'' then
            if rest = [] then Some (Inl OutOfBounds)
            else connect_command h (c = of_char CHR ''S'') (drop 1 rest)
          else returns h [])"

text \<open>\<open>struct RemoteMessage\<close>, and what the message pointer of \<open>mainloop\<close> holds by its type.\<close>

record remote_message =
  rm_name :: "u8 list"
  rm_handle :: u32
  rm_message :: "u8 list"
  rm_sz :: nat
  rm_type :: int

datatype harbor_payload =
    SocketData socket_message
  | Command "u8 list"
  | Remote remote_message
  | OtherMessage

definition socket_event :: "(call \<Rightarrow> int) \<Rightarrow> harbor \<Rightarrow> socket_message \<Rightarrow> harbor_result" where
  "socket_event answer h m =
     (if sm_type m = kSocketTypeData then push_socket_data answer h m
      else if sm_type m = kSocketTypeError \<or> sm_type m = kSocketTypeClose then
        if harbor_id h (sm_id m) \<noteq> 0 then report_harbor_down h (harbor_id h (sm_id m))
        else returns h [SkynetError (''Unkown fd ('' @ to_string (sm_id m) @ '') closed'')]
      else returns h [])"

definition remote_message_out :: "harbor \<Rightarrow> int \<Rightarrow> u32 \<Rightarrow> remote_message \<Rightarrow> harbor_result" where
  "remote_message_out h session source r =
     (if rm_handle r = 0
      then remote_send_name h source (rm_name r) (rm_type r) session (rm_message r) (rm_sz r)
      else remote_send_handle h source (rm_handle r) (rm_type r) session (rm_message r) (rm_sz r))"

definition harbor_mainloop ::
  "(call \<Rightarrow> int) \<Rightarrow> harbor \<Rightarrow> int \<Rightarrow> int \<Rightarrow> u32 \<Rightarrow> harbor_payload \<Rightarrow> harbor_result" where
  "harbor_mainloop answer h ty session source msg =
     (if ty = kPtypeSocket then
        (case msg of SocketData m \<Rightarrow> socket_event answer h m | _ \<Rightarrow> Some (Inl TypeConfusion))
      else if ty = kPtypeHarbor then
        (case msg of Command bs \<Rightarrow> harbor_command h bs source | _ \<Rightarrow> Some (Inl TypeConfusion))
      else if ty = kPtypeSystem then
        (case msg of Remote r \<Rightarrow> remote_message_out h session source r | _ \<Rightarrow> Some (Inl TypeConfusion))
      else
        returns h (if session \<noteq> 0 \<and> ty \<noteq> kPtypeError
                   then [ServiceSend 0 source kPtypeError session []] else []))"

definition harbor_init :: "harbor \<Rightarrow> string \<Rightarrow> (harbor \<times> call list \<times> int) res option" where
  "harbor_init h args =
     (let (harbor_id, rest) = (case scan_int args of None \<Rightarrow> (0, None) | Some (v, r) \<Rightarrow> (v, Some r));
          slave = (case rest of None \<Rightarrow> 0 | Some r \<Rightarrow> (case scan_uint r of None \<Rightarrow> 0 | Some v \<Rightarrow> v))
      in if slave = 0 then Some (Inr (h, [], 1))
         else
           let h1 = h\<lparr>h_id := harbor_id, h_slave := slave\<rparr> in
           bindO (if harbor_id = 0 then close_all_remotes h1 else returns h1 []) (\<lambda>(h2, calls).
             Some (Inr (h2, calls @ [ServiceCallback, HarborStart], 0))))"

end
