(* ===== verification/HarborFacts.thy ===== *)
theory HarborFacts
  imports Harbor
begin

text \<open>
  Properties of the harbor service: its queues are first-in first-out, its wire header round-trips,
  its name table is a map; and what happens to a message on the way out (queued, bound to a name,
  sent) and on the way in (the receive state machine).
\<close>

section \<open>Containers\<close>

text \<open>C12 The ring of a message queue is a first-in first-out queue of unbounded length: for every
  sequence of pushes and pops on a new queue, through any number of wrap-arounds and doublings, the
  pops answer what they would answer on a list.\<close>

theorem harbor_queue_fifo:
  "run_ops push_queue_msg pop_queue ops new_queue = list_ops ops []"
  using ring.run_ops_list [OF new_queue_ok(1), of ops] by simp


text \<open>C14 The chained table of global names is a map: after any distinct names have been entered into
  an empty table, each is found with its handle and no other name is found.\<close>

theorem harbor_names_map:
  assumes "distinct (map fst kvs)" and "\<And>k. k \<in> set (map fst kvs) \<Longrightarrow> is_name k" and "is_name name"
  shows "name_value (fold (\<lambda>(k, v). set_value k v) kvs hash_new) name = map_of kvs name"
proof -
  have none: "name_value hash_new k = None" for k by (simp add: name_value_def)
  with global_names.enter_all_ok [of hash_new kvs] assms show ?thesis
    by (auto split: option.splits)
qed

definition name_a :: "u8 list" where "name_a = pad_name [65]"
definition name_b :: "u8 list" where "name_b = pad_name [66]"

lemma sample_names: "is_name name_a" "is_name name_b" "name_a \<noteq> name_b"
  by (simp_all add: name_a_def name_b_def pad_name_is_name kGlobalNameLength_def)
    (simp add: pad_name_def)

theorem harbor_names_map_witness:
  "name_value (fold (\<lambda>(k, v). set_value k v) [(name_a, 1), (name_b, 2)] hash_new) name_b = Some 2"
  using harbor_names_map [of "[(name_a, 1), (name_b, 2)]" name_b] sample_names by auto

section \<open>Messages on the way out\<close>

lemma slave_at_set [simp]:
  "i < length (h_s h) \<Longrightarrow> slave_at (set_slave j f h) i = (if i = j then f (slave_at h i) else slave_at h i)"
  by (simp add: slave_at_def set_slave_def)

lemma set_slave_frame [simp]:
  "h_id (set_slave j f h) = h_id h" "h_slave (set_slave j f h) = h_slave h"
  "h_map (set_slave j f h) = h_map h" "length (h_s (set_slave j f h)) = length (h_s h)"
  by (simp_all add: set_slave_def)

lemma map_frame [simp]: "slave_at (h\<lparr>h_map := m\<rparr>) i = slave_at h i"
  by (simp add: slave_at_def)

text \<open>What an optional queue holds.\<close>

definition waiting :: "harbor_msg_queue option \<Rightarrow> harbor_msg list" where
  "waiting q = (case q of None \<Rightarrow> [] | Some r \<Rightarrow> ring_contents r)"

definition queue_ok :: "harbor_msg_queue option \<Rightarrow> bool" where
  "queue_ok q = (case q of None \<Rightarrow> True | Some r \<Rightarrow> ring_inv r)"

lemma push_waiting:
  assumes "queue_ok q"
  shows "queue_ok (Some (push_queue buf n hdr (case q of None \<Rightarrow> new_queue | Some r \<Rightarrow> r)))"
    and "waiting (Some (push_queue buf n hdr (case q of None \<Rightarrow> new_queue | Some r \<Rightarrow> r))) =
      waiting q @ [\<lparr>hm_header = hdr, hm_buffer = buf, hm_size = n\<rparr>]"
  using assms ring_push by (auto simp: queue_ok_def waiting_def push_queue_def split: option.splits)


definition sample_harbor :: harbor where
  "sample_harbor = harbor_create\<lparr>h_id := 1, h_slave := 0x01000004\<rparr>"

lemma sample_harbor_slaves:
  "length (h_s sample_harbor) = kRemoteMax" "i < kRemoteMax \<Longrightarrow> slave_at sample_harbor i = slave_zero"
  by (simp_all add: sample_harbor_def harbor_create_def slave_at_def)

lemma sample_dest: "harbor_of 0x02000007 = 2"
  by (simp add: harbor_of_def)


lemma send_all_empty:
  "\<forall>m \<in> set ms. hm_size m \<le> length (hm_buffer m) \<and> hm_size m + kHeaderCookieLength < 2 ^ 24 \<Longrightarrow>
     send_all fd ms = Inr (map (\<lambda>m. SocketSendBuffer fd [] (hm_size m + 16)) ms)"
  by (induction ms) (simp_all add: send_remote_empty)

text \<open>C16 When a node connects, its queue is emptied in order, one socket message for each queued
  message with the right size, but every message below 16 MB is passed as an empty string: the
  bytes are cut off at the NUL that begins the length field.\<close>

theorem dispatch_queue_sends_empty:
  assumes "i < length (h_s h)" and "sl_fd (slave_at h i) \<noteq> 0" and "queue_ok (sl_queue (slave_at h i))"
    and "\<forall>m \<in> set (waiting (sl_queue (slave_at h i))).
      hm_size m \<le> length (hm_buffer m) \<and> hm_size m + kHeaderCookieLength < 2 ^ 24"
  shows "\<exists>h'. dispatch_queue h i = returns h'
      (map (\<lambda>m. SocketSendBuffer (sl_fd (slave_at h i)) [] (hm_size m + 16))
        (waiting (sl_queue (slave_at h i)))) \<and> sl_queue (slave_at h' i) = None"
proof (cases "sl_queue (slave_at h i)")
  case None
  with assms(2) show ?thesis by (simp add: dispatch_queue_def Let_def waiting_def) blast
next
  case (Some q)
  with assms(3) have inv: "ring_inv q" by (simp add: queue_ok_def)
  from ring.drain_ok [OF inv, of "[]"] obtain q' where
    "drain pop_queue q [] = Some (ring_contents q, q')" by auto
  with assms Some send_all_empty [of "ring_contents q"] show ?thesis
    by (simp add: dispatch_queue_def Let_def waiting_def)
      (intro exI [of _ "set_slave i (\<lambda>s. s\<lparr>sl_queue := None\<rparr>) h"], simp)
qed

definition sample_message_queued :: harbor_msg where
  "sample_message_queued =
     \<lparr>hm_header = slave_header 0x01000005 0x02000007 10 3, hm_buffer = [1, 2], hm_size = 2\<rparr>"

definition connected_harbor :: harbor where
  "connected_harbor = set_slave 2 (\<lambda>s. s\<lparr>sl_fd := 9, sl_status := kStatusHeader,
      sl_queue := Some (push_queue_msg sample_message_queued new_queue)\<rparr>) sample_harbor"

lemma connected_harbor_slave:
  "2 < length (h_s connected_harbor)"
  "slave_at connected_harbor 2 = slave_zero\<lparr>sl_fd := 9, sl_status := kStatusHeader,
      sl_queue := Some (push_queue_msg sample_message_queued new_queue)\<rparr>"
  using sample_harbor_slaves by (simp_all add: connected_harbor_def kRemoteMax_def)

theorem dispatch_queue_sends_empty_witness:
  "\<exists>h'. dispatch_queue connected_harbor 2 = returns h' [SocketSendBuffer 9 [] 18] \<and>
     sl_queue (slave_at h' 2) = None"
proof -
  have q: "ring_inv (push_queue_msg sample_message_queued new_queue)"
    "ring_contents (push_queue_msg sample_message_queued new_queue) = [sample_message_queued]"
    using ring_push by simp_all
  show ?thesis
    using dispatch_queue_sends_empty [OF connected_harbor_slave(1)] unfolding connected_harbor_slave(2)
    by (simp add: queue_ok_def waiting_def q) (simp add: sample_message_queued_def kHeaderCookieLength_def)
qed

text \<open>A connection to or from another node never gets as far as its handshake: on a node whose
  id is not 0 modulo 256 the one-byte array with the id is read as a C string, past its end.\<close>

theorem connect_command_faults:
  assumes "scan_int (c_str (string_of text)) = Some (fd, r)" and "scan_int r = Some (i, r')"
    and "fd \<noteq> 0" and "0 < i" and "i < int kRemoteMax" and "length (h_s h) = kRemoteMax"
    and "sl_fd (slave_at h (nat i)) = 0" and "(word_of_int (h_id h) :: u8) \<noteq> 0"
  shows "connect_command h is_S text = Some (Inl OutOfBounds)"
  using assms by (simp add: connect_command_def handshake_def std_string_def Let_def)

theorem connect_command_faults_witness:
  "connect_command sample_harbor True (bytes_of ''5 2'') = Some (Inl OutOfBounds)"
proof -
  have t: "scan_int (c_str (string_of (bytes_of ''5 2''))) = Some (5, '' 2'')"
    "scan_int '' 2'' = Some (2, [])" by code_simp+
  have s: "slave_at sample_harbor 2 = slave_zero"
    using sample_harbor_slaves(2) [of 2] by (simp add: kRemoteMax_def)
  show ?thesis
    by (rule connect_command_faults [OF t])
      (simp_all add: s sample_harbor_slaves(1), simp_all add: kRemoteMax_def slave_zero_def sample_harbor_def)
qed

section \<open>Names\<close>

lemma keeps [simp]:
  "keeps_key (\<lambda>n. n\<lparr>kv_value := v\<rparr>)" "keeps_key (\<lambda>n. n\<lparr>kv_queue := q\<rparr>)"
  by (simp_all add: keeps_key_def)

lemma andthen_returns [simp]: "andthen (returns h []) f = f h"
  by (cases "f h") (auto simp: bindO_def split: sum.splits)

text \<open>A message to an unknown name waits at the node of the name.\<close>

definition name_header :: "u32 \<Rightarrow> int \<Rightarrow> int \<Rightarrow> remote_message_header" where
  "name_header source ty session =
     \<lparr>rh_source = source, rh_destination = push_bit 24 (word_of_int ty), rh_session = word_of_int session\<rparr>"

lemma send_unknown_name:
  assumes "map_inv (h_map h)" and "is_name name" and "hash_search (h_map h) name = None"
  shows "\<exists>m query q. remote_send_name h source name ty session msg n = returns (h\<lparr>h_map := m\<rparr>) [query] \<and>
    map_inv m \<and> hash_search m name = Some ((keyvalue_new name)\<lparr>kv_queue := Some q\<rparr>) \<and> ring_inv q \<and>
    ring_contents q = [\<lparr>hm_header = name_header source ty session, hm_buffer = msg, hm_size = n\<rparr>]"
proof -
  define q where "q = push_queue msg n (name_header source ty session) new_queue"
  define m0 where "m0 = hash_insert (h_map h) name"
  define m1 where "m1 = modify_node m0 name (\<lambda>k. k\<lparr>kv_queue := Some q\<rparr>)"
  have inv: "map_inv m0" "map_inv m1" using assms(1,2) by (simp_all add: m0_def m1_def insert_inv modify_inv)
  have "hash_search m0 name = Some (keyvalue_new name)"
    using search_insert [OF assms(1,2,2)] by (simp add: m0_def)
  then have "hash_search m1 name = Some ((keyvalue_new name)\<lparr>kv_queue := Some q\<rparr>)"
    using search_modify [OF inv(1) assms(2,2)] by (simp add: m1_def)
  moreover have "\<exists>query. remote_send_name h source name ty session msg n = returns (h\<lparr>h_map := m1\<rparr>) [query]"
    using assms(3) by (simp add: remote_send_name_def search_or_insert_def keyvalue_new_def Let_def
        m0_def [symmetric] name_header_def [symmetric] q_def [symmetric] m1_def) (rule exI, rule refl)
  moreover have "ring_inv q \<and> ring_contents q = [\<lparr>hm_header = name_header source ty session, hm_buffer = msg, hm_size = n\<rparr>]"
    using ring_push by (simp add: q_def push_queue_def)
  ultimately show ?thesis using inv(2) by metis
qed

text \<open>Binding the name to a node that is not connected hands the queue over as it is.\<close>

lemma bind_waiting_name:
  assumes "map_inv (h_map h)" and "is_name name"
    and "hash_search (h_map h) name = Some ((keyvalue_new name)\<lparr>kv_queue := Some q\<rparr>)"
    and "harbor_of handle < length (h_s h)" and "harbor_of handle \<noteq> harbor_of (h_slave h)"
    and "sl_fd (slave_at h (harbor_of handle)) = 0" and "sl_status (slave_at h (harbor_of handle)) \<noteq> kStatusDown"
    and "sl_queue (slave_at h (harbor_of handle)) = None"
  shows "\<exists>h'. update_name h name handle = returns h' [] \<and> sl_queue (slave_at h' (harbor_of handle)) = Some q"
proof -
  let ?i = "harbor_of handle"
  define m2 where "m2 = modify_node (h_map h) name (\<lambda>k. k\<lparr>kv_value := handle\<rparr>)"
  define m3 where "m3 = modify_node m2 name (\<lambda>k. k\<lparr>kv_queue := None\<rparr>)"
  define m4 where "m4 = modify_node m3 name (\<lambda>k. k\<lparr>kv_queue := None\<rparr>)"
  let ?node = "(keyvalue_new name)\<lparr>kv_queue := Some q, kv_value := handle\<rparr>"
  let ?h2 = "set_slave ?i (\<lambda>s. s\<lparr>sl_queue := Some q\<rparr>) (h\<lparr>h_map := m3\<rparr>)"
  have inv2: "map_inv m2" using assms(1) by (simp add: m2_def modify_inv)
  have s2: "hash_search m2 name = Some ?node"
    using search_modify [OF assms(1,2,2)] assms(3) by (simp add: m2_def)
  have s3: "hash_search m3 name = Some (?node\<lparr>kv_queue := None\<rparr>)"
    using search_modify [OF inv2 assms(2,2)] s2 by (simp add: m3_def)
  have "dispatch_name_queue (h\<lparr>h_map := m2\<rparr>) name ?node = returns ?h2 []"
    using assms(5-8) by (simp add: dispatch_name_queue_def name_queue_move_def name_queue_local_def
        Let_def m3_def returns_def andthen_def)
  then have "update_name h name handle = returns (?h2\<lparr>h_map := m4\<rparr>) []"
    using assms(3) s2 s3 by (simp add: update_name_def search_or_insert_def Let_def m2_def [symmetric]
        release_queue_def m4_def [symmetric] returns_def andthen_def)
  then show ?thesis using assms(4) by (intro exI [of _ "?h2\<lparr>h_map := m4\<rparr>"]) simp
qed

lemma name_header_no_handle: "rh_destination (name_header source ty session) AND kHandleMask = 0"
proof -
  have "push_bit 24 w AND mask 24 = (0 :: u32)" for w by (rule bit_eqI) (auto simp: bit_simps)
  moreover have "kHandleMask = mask 24" by (simp add: kHandleMask_def mask_eq_exp_minus_1)
  ultimately show ?thesis by (simp only: name_header_def remote_message_header.select_convs)
qed

text \<open>A message sent to a name that is not known yet waits at the name. When the name is then
  bound to a handle of a node that is not connected, the message moves to that node's queue, but
  its destination stays without the handle: it will be delivered to handle 0 of that node.\<close>

theorem named_message_loses_handle:
  assumes "map_inv (h_map h)" and "is_name name" and "hash_search (h_map h) name = None"
    and "length (h_s h) = kRemoteMax" and "harbor_of handle \<noteq> harbor_of (h_slave h)"
    and "sl_fd (slave_at h (harbor_of handle)) = 0" and "sl_status (slave_at h (harbor_of handle)) \<noteq> kStatusDown"
    and "sl_queue (slave_at h (harbor_of handle)) = None"
  shows "\<exists>h1 query h2 hdr. remote_send_name h source name ty session msg n = returns h1 [query] \<and>
    update_name h1 name handle = returns h2 [] \<and>
    waiting (sl_queue (slave_at h2 (harbor_of handle))) =
      [\<lparr>hm_header = hdr, hm_buffer = msg, hm_size = n\<rparr>] \<and>
    rh_source hdr = source \<and> rh_destination hdr = push_bit 24 (word_of_int ty) \<and>
    rh_destination hdr AND kHandleMask = 0"
proof -
  let ?hdr = "name_header source ty session"
  obtain m query q where send: "remote_send_name h source name ty session msg n = returns (h\<lparr>h_map := m\<rparr>) [query]"
    and m: "map_inv m" "hash_search m name = Some ((keyvalue_new name)\<lparr>kv_queue := Some q\<rparr>)"
    and q: "ring_contents q = [\<lparr>hm_header = ?hdr, hm_buffer = msg, hm_size = n\<rparr>]"
    using send_unknown_name [OF assms(1-3)] by blast
  have "harbor_of handle < length (h_s h)" using assms(4) harbor_of_less by simp
  then obtain h2 where bind: "update_name (h\<lparr>h_map := m\<rparr>) name handle = returns h2 []"
    "sl_queue (slave_at h2 (harbor_of handle)) = Some q"
    using bind_waiting_name [of "h\<lparr>h_map := m\<rparr>" name q handle] m assms(2,5-8) by auto
  then have "waiting (sl_queue (slave_at h2 (harbor_of handle))) = [\<lparr>hm_header = ?hdr, hm_buffer = msg, hm_size = n\<rparr>]"
    using q by (simp add: waiting_def)
  moreover have "rh_source ?hdr = source" "rh_destination ?hdr = push_bit 24 (word_of_int ty)"
    by (simp_all add: name_header_def)
  ultimately show ?thesis using send bind(1) name_header_no_handle [of source ty session] by metis
qed

theorem named_message_loses_handle_witness:
  "\<exists>h1 query h2 hdr. remote_send_name sample_harbor 0x01000005 name_a 10 3 [1, 2] 2 = returns h1 [query] \<and>
    update_name h1 name_a 0x02000007 = returns h2 [] \<and>
    waiting (sl_queue (slave_at h2 2)) = [\<lparr>hm_header = hdr, hm_buffer = [1, 2], hm_size = 2\<rparr>] \<and>
    rh_source hdr = 0x01000005 \<and> rh_destination hdr = push_bit 24 (word_of_int 10) \<and>
    rh_destination hdr AND kHandleMask = 0"
proof -
  have s: "slave_at sample_harbor 2 = slave_zero"
    by (rule sample_harbor_slaves) (simp add: kRemoteMax_def)
  have i: "harbor_of (h_slave sample_harbor) = 1"
    by (simp add: sample_harbor_def harbor_of_def)
  have m: "map_inv (h_map sample_harbor)" "hash_search (h_map sample_harbor) name_a = None"
    by (simp_all add: sample_harbor_def harbor_create_def)
  show ?thesis
    using named_message_loses_handle [OF m(1) sample_names(1) m(2) sample_harbor_slaves(1),
        where handle = "0x02000007" and source = "0x01000005" and ty = 10 and session = 3
          and msg = "[1, 2]" and n = 2]
    unfolding sample_dest s i by (simp add: slave_zero_def status_defs)
qed

section \<open>Messages on the way in\<close>

text \<open>A connection between two messages, and one whole message as it stands on the wire.\<close>

definition idle_slave :: "harbor \<Rightarrow> nat \<Rightarrow> int \<Rightarrow> bool" where
  "idle_slave h i fd \<longleftrightarrow> find_slave h fd = Some i \<and> i < length (h_s h) \<and>
     sl_status (slave_at h i) = kStatusHeader \<and> sl_read (slave_at h i) = 0 \<and>
     length (sl_size (slave_at h i)) = 4 \<and> sl_recv_buffer (slave_at h i) = []"

definition wire :: "u8 list \<Rightarrow> u8 list" where
  "wire content = to_bigendian (of_nat (length content)) @ content"

lemma to_bigendian_length:
  assumes "n < 2 ^ 24"
  shows "to_bigendian (of_nat n) ! 0 = 0" and "length_field (to_bigendian (of_nat n)) = int n"
proof -
  have n: "unat (of_nat n :: u32) = n" using assms by (simp add: unat_of_nat)
  then have "unat (drop_bit 24 (of_nat n :: u32)) = 0"
    using assms by (simp add: unat_drop_bit_eq drop_bit_eq_div unat_div)
  then have "drop_bit 24 (of_nat n :: u32) = 0" by (simp only: unat_eq_0)
  then show z: "to_bigendian (of_nat n) ! 0 = 0" by (simp add: to_bigendian_def)
  let ?b = "to_bigendian (of_nat n)"
  have "?b = [?b ! 0, ?b ! 1, ?b ! 2, ?b ! 3]" by (simp add: to_bigendian_def)
  then have "from_bigendian [?b ! 0, ?b ! 1, ?b ! 2, ?b ! 3] = of_nat n"
    using from_to_bigendian [of "of_nat n"] by metis
  then have "uint (from_bigendian [?b ! 0, ?b ! 1, ?b ! 2, ?b ! 3]) = int n"
    using n by (simp add: uint_nat)
  then show "length_field ?b = int n"
    using z by (simp add: uint_from_bigendian length_field_def)
qed

text \<open>The loop up to the forwarding of the first message, when one whole message has arrived.\<close>

lemma receive_one:
  assumes "idle_slave h i fd" and "length content < 2 ^ 24" and "0 < length content"
    and "sm_type m = kSocketTypeData" and "sm_id m = fd" and "sm_buffer m = wire content"
    and "sm_ud m = int (length (sm_buffer m))"
  shows "\<exists>h1. push_socket_data answer h m =
    (case forward_local_messsage answer h1 (takeWhile (\<lambda>b. b \<noteq> 0) content) (int (length content)) of
       Inl e \<Rightarrow> Some (Inl e)
     | Inr calls \<Rightarrow> Some (Inr (set_slave i (\<lambda>s. s\<lparr>sl_length := 0, sl_read := 0, sl_recv_buffer := [],
                                          sl_status := kStatusHeader\<rparr>) h1, calls))) \<and> h_id h1 = h_id h"
proof -
  let ?len = "to_bigendian (of_nat (length content))"
  let ?mem = "?len @ content @ [0]"
  have sl: "sl_status (slave_at h i) = kStatusHeader" "sl_read (slave_at h i) = 0"
    "length (sl_size (slave_at h i)) = 4" "sl_recv_buffer (slave_at h i) = []" "i < length (h_s h)"
    "find_slave h fd = Some i"
    using assms(1) by (simp_all add: idle_slave_def)
  define h1 where "h1 = set_slave i (\<lambda>s. s\<lparr>sl_length := int (length content), sl_read := 0,
      sl_status := kStatusContent\<rparr>) (set_slave i (\<lambda>s. s\<lparr>sl_size := ?len\<rparr>) h)"
  have copy: "copy_size (slave_at h i) ?mem 0 4 = Inr ?len"
    using sl memcpy_from_nat [of 0 4 ?mem] by (simp add: copy_size_def)
  have header: "case_header h i ?mem 0 (int (4 + length content)) =
      Some (Inr (Go (4, int (length content)) h1 []))"
    using sl copy to_bigendian_length [OF assms(2)] assms(3)
    by (simp add: case_header_def Let_def h1_def)
  have h1: "sl_length (slave_at h1 i) = int (length content)" "sl_read (slave_at h1 i) = 0"
    "sl_recv_buffer (slave_at h1 i) = []"
    using sl by (simp_all add: h1_def)
  have str: "std_string (drop 4 ?mem) = Inr (takeWhile (\<lambda>b. b \<noteq> 0) content)"
    by (simp add: std_string_def takeWhile_stop)
  let ?fwd = "forward_local_messsage answer h1 (takeWhile (\<lambda>b. b \<noteq> 0) content) (int (length content))"
  let ?after = "set_slave i (\<lambda>s. s\<lparr>sl_length := 0, sl_read := 0, sl_recv_buffer := [], sl_status := kStatusHeader\<rparr>) h1"
  have content: "case_content answer h1 i ?mem 4 (int (length content)) =
      (case ?fwd of Inl e \<Rightarrow> Some (Inl e) | Inr calls \<Rightarrow> Some (Inr (Return ?after calls)))"
    using str h1 by (simp add: case_content_def Let_def split: sum.split)
  have "push_loop answer i fd ?mem [] h 0 (int (4 + length content)) =
      (case ?fwd of Inl e \<Rightarrow> Some (Inl e) | Inr calls \<Rightarrow> Some (Inr (?after, calls)))"
    using sl(1) header content
    by (subst push_loop.simps)
      (simp add: switch_status_def Let_def from_header_def from_content_def status_defs split: sum.split)
  moreover have "h_id h1 = h_id h" by (simp add: h1_def)
  ultimately show ?thesis
    using assms(4-7) sl(6)
    by (intro exI [of _ h1]) (simp add: push_socket_data_def wire_def)
qed


text \<open>A message whose session is below 2^24 is cut off at the latest at the zero byte its session
  begins with: its header is then read from behind the end of the receive buffer.\<close>

theorem receive_with_nul_faults:
  assumes "idle_slave h i fd" and "content = body @ header_to_message hdr"
    and "rh_session hdr < 2 ^ 24" and "length content < 2 ^ 24"
    and "m = \<lparr>sm_type = kSocketTypeData, sm_id = fd, sm_ud = int (4 + length content),
              sm_buffer = wire content, sm_tail = t\<rparr>"
  shows "push_socket_data answer h m = Some (Inl OutOfBounds)"
proof -
  have len: "length content = length body + 12" using assms(2) by (simp add: kHeaderCookieLength_def)
  then have pos: "0 < length content" by simp
  have m: "sm_type m = kSocketTypeData" "sm_id m = fd" "sm_buffer m = wire content"
    "sm_ud m = int (length (sm_buffer m))"
    using assms(5) by (simp_all add: wire_def)
  obtain h1 where r: "push_socket_data answer h m =
    (case forward_local_messsage answer h1 (takeWhile (\<lambda>b. b \<noteq> 0) content) (int (length content)) of
       Inl e \<Rightarrow> Some (Inl e)
     | Inr calls \<Rightarrow> Some (Inr (set_slave i (\<lambda>s. s\<lparr>sl_length := 0, sl_read := 0, sl_recv_buffer := [],
                                          sl_status := kStatusHeader\<rparr>) h1, calls)))"
    using receive_one [OF assms(1,4) pos m] by blast
  have "unat (rh_session hdr) < 2 ^ 24" using assms(3) by (simp add: word_less_nat_alt)
  then have "to_bigendian (rh_session hdr) ! 0 = 0"
    using to_bigendian_length(1) [of "unat (rh_session hdr)"] by simp
  then have "content ! (length body + 8) = 0"
    using assms(2) by (simp add: header_to_message_def nth_append)
  then have "length (takeWhile (\<lambda>b. b \<noteq> 0) content) \<le> length body + 8"
    by (intro takeWhile_short) (simp_all add: len)
  then have "forward_local_messsage answer h1 (takeWhile (\<lambda>b. b \<noteq> 0) content) (int (length content)) = Inl OutOfBounds"
    by (simp add: forward_local_messsage_def memcpy_from_def len kHeaderCookieLength_def)
  with r show ?thesis by simp
qed

definition sample_header :: "u32 \<Rightarrow> remote_message_header" where
  "sample_header session =
     \<lparr>rh_source = 0x02030405, rh_destination = 0x0a010107, rh_session = session\<rparr>"

definition sample_data :: "u32 \<Rightarrow> socket_message" where
  "sample_data session = \<lparr>sm_type = kSocketTypeData, sm_id = 9, sm_ud = 17,
     sm_buffer = wire ([5] @ header_to_message (sample_header session)), sm_tail = []\<rparr>"

lemma connected_idle: "idle_slave connected_harbor 2 9"
proof -
  have "slave_at connected_harbor 1 = slave_zero"
    using sample_harbor_slaves by (simp add: connected_harbor_def kRemoteMax_def)
  moreover have "[1 ..< kRemoteMax] = 1 # 2 # [3 ..< 256]"
    by (simp add: kRemoteMax_def upt_conv_Cons numeral_3_eq_3)
  ultimately show ?thesis
    using connected_harbor_slave by (simp add: idle_slave_def find_slave_def) (simp add: slave_zero_def)
qed


theorem receive_with_nul_faults_witness:
  "push_socket_data (\<lambda>_. 1) connected_harbor (sample_data 3) = Some (Inl OutOfBounds)"
  by (rule receive_with_nul_faults [OF connected_idle refl, where body = "[5]" and hdr = "sample_header 3" and t = "[]"])
    (simp_all add: sample_data_def kHeaderCookieLength_def sample_header_def)

end
