(* ===== verification/Locks.thy ===== *)
theory Locks
  imports Prelude
begin

text \<open>
  The two locks of the framework, \<open>skynet-src/include/spinlock.h\<close> and \<open>rwlock.h\<close>, as transition
  systems: the shared words, and for each thread the atomic operation it is about to execute.
  Every transition is one atomic operation of the source; threads interleave at will and compare
  exchange may fail spuriously. The threads are the positions of the list of program counters.
\<close>

section \<open>Spin lock\<close>

text \<open>
  \<open>Exchange\<close>: about to exchange in \<open>spinlock_lock\<close>; \<open>Spin\<close>: about to load in its inner loop;
  \<open>TryExchange\<close>: about to exchange in \<open>spinlock_trylock\<close>; \<open>Holds\<close>: the lock call has returned.
\<close>

datatype spin_pc = Away | Exchange | Spin | TryExchange | Holds

record spinlock =
  sp_lock :: int
  sp_pcs :: "spin_pc list"

definition spinlock_init :: "nat \<Rightarrow> spinlock" where
  "spinlock_init threads = \<lparr>sp_lock = 0, sp_pcs = replicate threads Away\<rparr>"

abbreviation spin_goto :: "nat \<Rightarrow> spin_pc \<Rightarrow> spinlock \<Rightarrow> spinlock" where
  "spin_goto i pc s \<equiv> s\<lparr>sp_pcs := (sp_pcs s)[i := pc]\<rparr>"

inductive spin_step :: "spinlock \<Rightarrow> spinlock \<Rightarrow> bool" where
  lock_call: "i < length (sp_pcs s) \<Longrightarrow> sp_pcs s ! i = Away \<Longrightarrow> spin_step s (spin_goto i Exchange s)"
| lock_got: "i < length (sp_pcs s) \<Longrightarrow> sp_pcs s ! i = Exchange \<Longrightarrow> sp_lock s = 0 \<Longrightarrow>
    spin_step s (spin_goto i Holds (s\<lparr>sp_lock := 1\<rparr>))"
| lock_busy: "i < length (sp_pcs s) \<Longrightarrow> sp_pcs s ! i = Exchange \<Longrightarrow> sp_lock s \<noteq> 0 \<Longrightarrow>
    spin_step s (spin_goto i Spin (s\<lparr>sp_lock := 1\<rparr>))"
| spin_free: "i < length (sp_pcs s) \<Longrightarrow> sp_pcs s ! i = Spin \<Longrightarrow> sp_lock s = 0 \<Longrightarrow>
    spin_step s (spin_goto i Exchange s)"
| spin_again: "i < length (sp_pcs s) \<Longrightarrow> sp_pcs s ! i = Spin \<Longrightarrow> sp_lock s \<noteq> 0 \<Longrightarrow> spin_step s s"
| try_free: "i < length (sp_pcs s) \<Longrightarrow> sp_pcs s ! i = Away \<Longrightarrow> sp_lock s = 0 \<Longrightarrow>
    spin_step s (spin_goto i TryExchange s)"
| try_taken: "i < length (sp_pcs s) \<Longrightarrow> sp_pcs s ! i = Away \<Longrightarrow> sp_lock s \<noteq> 0 \<Longrightarrow> spin_step s s"
| try_got: "i < length (sp_pcs s) \<Longrightarrow> sp_pcs s ! i = TryExchange \<Longrightarrow> sp_lock s = 0 \<Longrightarrow>
    spin_step s (spin_goto i Holds (s\<lparr>sp_lock := 1\<rparr>))"
| try_lost: "i < length (sp_pcs s) \<Longrightarrow> sp_pcs s ! i = TryExchange \<Longrightarrow> sp_lock s \<noteq> 0 \<Longrightarrow>
    spin_step s (spin_goto i Away (s\<lparr>sp_lock := 1\<rparr>))"
| unlock: "i < length (sp_pcs s) \<Longrightarrow> sp_pcs s ! i = Holds \<Longrightarrow>
    spin_step s (spin_goto i Away (s\<lparr>sp_lock := 0\<rparr>))"

section \<open>Counting threads\<close>

definition count_of :: "('a \<Rightarrow> bool) \<Rightarrow> 'a list \<Rightarrow> int" where
  "count_of P xs = int (length (filter P xs))"

lemma count_Cons: "count_of P (x # xs) = (if P x then 1 else 0) + count_of P xs"
  by (simp add: count_of_def)

lemma count_update [simp]:
  assumes "i < length xs"
  shows "count_of P (xs[i := x]) = count_of P xs - (if P (xs ! i) then 1 else 0) + (if P x then 1 else 0)"
  using assms by (induction xs arbitrary: i) (auto simp: count_Cons split: nat.split)

lemma count_nonneg: "0 \<le> count_of P xs"
  by (simp add: count_of_def)

lemma count_pos: "i < length xs \<Longrightarrow> P (xs ! i) \<Longrightarrow> 0 < count_of P xs"
  by (auto simp: count_of_def filter_empty_conv)

lemma count_two:
  assumes "i < length xs" and "j < length xs" and "i \<noteq> j" and "P (xs ! i)" and "P (xs ! j)"
  shows "2 \<le> count_of P xs"
proof -
  have "{i, j} \<subseteq> {k. k < length xs \<and> P (xs ! k)}" using assms by auto
  then have "card {i, j} \<le> card {k. k < length xs \<and> P (xs ! k)}" by (intro card_mono) auto
  with assms(3) show ?thesis by (simp add: count_of_def length_filter_conv_card)
qed

section \<open>The spin lock excludes\<close>

text \<open>The lock word counts the holders.\<close>

definition spin_inv :: "spinlock \<Rightarrow> bool" where
  "spin_inv s \<longleftrightarrow> (sp_lock s = 0 \<or> sp_lock s = 1) \<and> count_of (\<lambda>pc. pc = Holds) (sp_pcs s) = sp_lock s"

lemma spin_inv_step: "spin_step s s' \<Longrightarrow> spin_inv s \<Longrightarrow> spin_inv s'"
  by (induction rule: spin_step.induct)
    (auto simp: spin_inv_def dest: count_pos [where P = "\<lambda>pc. pc = Holds"])

lemma spin_inv_reachable: "spin_step\<^sup>*\<^sup>* s s' \<Longrightarrow> spin_inv s \<Longrightarrow> spin_inv s'"
  by (induction rule: rtranclp_induct) (auto intro: spin_inv_step)

lemma spin_inv_init: "spin_inv (spinlock_init n)"
  by (simp add: spin_inv_def spinlock_init_def count_of_def)

text \<open>C18 However any number of threads interleave, through \<open>spinlock_lock\<close> and \<open>spinlock_trylock\<close>,
  at most one of them holds the spin lock, and the lock word is 0 exactly when nobody does: it
  is never left taken.\<close>

theorem spinlock_excludes:
  assumes "spin_step\<^sup>*\<^sup>* (spinlock_init n) s"
  shows "(\<forall>i j. i < length (sp_pcs s) \<and> j < length (sp_pcs s) \<and> sp_pcs s ! i = Holds \<and> sp_pcs s ! j = Holds \<longrightarrow> i = j)
    \<and> (sp_lock s = 0 \<longleftrightarrow> (\<forall>i < length (sp_pcs s). sp_pcs s ! i \<noteq> Holds))"
proof -
  have inv: "spin_inv s" using spin_inv_reachable [OF assms spin_inv_init] .
  have "i = j" if "i < length (sp_pcs s)" "j < length (sp_pcs s)" "sp_pcs s ! i = Holds" "sp_pcs s ! j = Holds" for i j
  proof (rule ccontr)
    assume "i \<noteq> j"
    from count_two [OF that(1,2) this, of "\<lambda>pc. pc = Holds"] that(3,4) inv show False
      by (simp add: spin_inv_def)
  qed
  moreover have "sp_lock s = 0 \<longleftrightarrow> (\<forall>i < length (sp_pcs s). sp_pcs s ! i \<noteq> Holds)"
  proof
    assume "sp_lock s = 0"
    then have "count_of (\<lambda>pc. pc = Holds) (sp_pcs s) = 0" using inv by (simp add: spin_inv_def)
    then show "\<forall>i < length (sp_pcs s). sp_pcs s ! i \<noteq> Holds"
      using count_pos [of _ "sp_pcs s" "\<lambda>pc. pc = Holds"] by fastforce
  next
    assume "\<forall>i < length (sp_pcs s). sp_pcs s ! i \<noteq> Holds"
    then have "count_of (\<lambda>pc. pc = Holds) (sp_pcs s) = 0" by (auto simp: count_of_def filter_empty_conv in_set_conv_nth)
    then show "sp_lock s = 0" using inv by (simp add: spin_inv_def)
  qed
  ultimately show ?thesis by blast
qed

theorem spinlock_excludes_witness:
  "\<exists>s. spin_step\<^sup>*\<^sup>* (spinlock_init 2) s \<and> sp_pcs s ! 0 = Holds \<and> sp_pcs s ! 1 = Spin \<and> sp_lock s \<noteq> 0"
proof -
  let ?s = "\<lambda>l a b. \<lparr>sp_lock = l, sp_pcs = [a, b]\<rparr>"
  have i: "spinlock_init 2 = ?s 0 Away Away" by (simp add: spinlock_init_def numeral_2_eq_2)
  have "spin_step (?s 0 Away Away) (?s 0 Exchange Away)" using lock_call [of 0 "?s 0 Away Away"] by simp
  moreover have "spin_step (?s 0 Exchange Away) (?s 0 Exchange Exchange)"
    using lock_call [of 1 "?s 0 Exchange Away"] by simp
  moreover have "spin_step (?s 0 Exchange Exchange) (?s 1 Holds Exchange)"
    using lock_got [of 0 "?s 0 Exchange Exchange"] by simp
  moreover have "spin_step (?s 1 Holds Exchange) (?s 1 Holds Spin)"
    using lock_busy [of 1 "?s 1 Holds Exchange"] by simp
  ultimately have "spin_step\<^sup>*\<^sup>* (spinlock_init 2) (?s 1 Holds Spin)"
    unfolding i by (meson r_into_rtranclp rtranclp_trans)
  with spinlock_excludes [OF this] show ?thesis by (intro exI [of _ "?s 1 Holds Spin"]) simp
qed

section \<open>Reader-writer lock\<close>

text \<open>
  Readers: \<open>RLoad\<close> about to load \<open>write\<close>, \<open>RAdd\<close> to add to \<open>read\<close>, \<open>RCheck\<close> to load \<open>write\<close> again,
  \<open>RSub\<close> to take the addition back, \<open>Reads\<close> inside. Writers: \<open>WCas v\<close> about to compare \<open>write\<close> with
  the local \<open>val = v\<close>, which a failed exchange overwrites, \<open>WWait\<close> to load \<open>read\<close>, \<open>Writes\<close> inside.
\<close>

datatype rw_pc = Idle | RLoad | RAdd | RCheck | RSub | Reads | WCas int | WWait | Writes

record rwlock =
  rw_write :: int
  rw_read :: int
  rw_pcs :: "rw_pc list"

definition rwlockInit :: "nat \<Rightarrow> rwlock" where
  "rwlockInit threads = \<lparr>rw_write = 0, rw_read = 0, rw_pcs = replicate threads Idle\<rparr>"

abbreviation at_pc :: "nat \<Rightarrow> rw_pc \<Rightarrow> rwlock \<Rightarrow> bool" where
  "at_pc i pc s \<equiv> i < length (rw_pcs s) \<and> rw_pcs s ! i = pc"

abbreviation rw_goto :: "nat \<Rightarrow> rw_pc \<Rightarrow> rwlock \<Rightarrow> rwlock" where
  "rw_goto i pc s \<equiv> s\<lparr>rw_pcs := (rw_pcs s)[i := pc]\<rparr>"

text \<open>\<open>W\<close> are the threads that call \<open>rwlock_wlock\<close>.\<close>

inductive rw_step :: "nat set \<Rightarrow> rwlock \<Rightarrow> rwlock \<Rightarrow> bool" for W where
  rlock_call: "at_pc i Idle s \<Longrightarrow> rw_step W s (rw_goto i RLoad s)"
| rlock_spin: "at_pc i RLoad s \<Longrightarrow> rw_write s \<noteq> 0 \<Longrightarrow> rw_step W s s"
| rlock_free: "at_pc i RLoad s \<Longrightarrow> rw_write s = 0 \<Longrightarrow> rw_step W s (rw_goto i RAdd s)"
| rlock_add: "at_pc i RAdd s \<Longrightarrow> rw_step W s (rw_goto i RCheck (s\<lparr>rw_read := rw_read s + 1\<rparr>))"
| rlock_back: "at_pc i RCheck s \<Longrightarrow> rw_write s \<noteq> 0 \<Longrightarrow> rw_step W s (rw_goto i RSub s)"
| rlock_in: "at_pc i RCheck s \<Longrightarrow> rw_write s = 0 \<Longrightarrow> rw_step W s (rw_goto i Reads s)"
| rlock_sub: "at_pc i RSub s \<Longrightarrow> rw_step W s (rw_goto i RLoad (s\<lparr>rw_read := rw_read s - 1\<rparr>))"
| runlock: "at_pc i Reads s \<Longrightarrow> rw_step W s (rw_goto i Idle (s\<lparr>rw_read := rw_read s - 1\<rparr>))"
| wlock_call: "at_pc i Idle s \<Longrightarrow> i \<in> W \<Longrightarrow> rw_step W s (rw_goto i (WCas 0) s)"
| wlock_fail: "at_pc i (WCas v) s \<Longrightarrow> rw_step W s (rw_goto i (WCas (rw_write s)) s)"
| wlock_set: "at_pc i (WCas v) s \<Longrightarrow> rw_write s = v \<Longrightarrow>
    rw_step W s (rw_goto i WWait (s\<lparr>rw_write := 1\<rparr>))"
| wlock_spin: "at_pc i WWait s \<Longrightarrow> rw_read s \<noteq> 0 \<Longrightarrow> rw_step W s s"
| wlock_in: "at_pc i WWait s \<Longrightarrow> rw_read s = 0 \<Longrightarrow> rw_step W s (rw_goto i Writes s)"
| wunlock: "at_pc i Writes s \<Longrightarrow> rw_step W s (rw_goto i Idle (s\<lparr>rw_write := 0\<rparr>))"

fun counted :: "rw_pc \<Rightarrow> bool" where
  "counted RCheck = True" | "counted RSub = True" | "counted Reads = True" | "counted _ = False"

fun owner :: "rw_pc \<Rightarrow> bool" where
  "owner WWait = True" | "owner Writes = True" | "owner _ = False"

fun writing :: "rw_pc \<Rightarrow> bool" where
  "writing (WCas v) = True" | "writing WWait = True" | "writing Writes = True" | "writing _ = False"

text \<open>With at most one writing thread \<open>w\<close>.\<close>

definition rw_ok :: "nat \<Rightarrow> int \<Rightarrow> int \<Rightarrow> rw_pc list \<Rightarrow> bool" where
  "rw_ok w wr rd pcs \<longleftrightarrow>
     rd = count_of counted pcs \<and>
     wr = (if w < length pcs \<and> owner (pcs ! w) then 1 else 0) \<and>
     (\<forall>i < length pcs. writing (pcs ! i) \<longrightarrow> i = w) \<and>
     (w < length pcs \<and> pcs ! w = Writes \<longrightarrow> (\<forall>i < length pcs. pcs ! i \<noteq> Reads)) \<and>
     (\<forall>v. w < length pcs \<and> pcs ! w = WCas v \<longrightarrow> v = 0)"

definition rw_inv :: "nat \<Rightarrow> rwlock \<Rightarrow> bool" where
  "rw_inv w s \<longleftrightarrow> rw_ok w (rw_write s) (rw_read s) (rw_pcs s)"

lemma owner_writing: "owner pc \<Longrightarrow> writing pc"
  by (cases pc) simp_all

lemma rw_invD:
  assumes "rw_inv w s"
  shows "rw_read s = count_of counted (rw_pcs s)"
    and "rw_write s = (if w < length (rw_pcs s) \<and> owner (rw_pcs s ! w) then 1 else 0)"
    and "at_pc i pc s \<Longrightarrow> writing pc \<Longrightarrow> i = w"
    and "at_pc w Writes s \<Longrightarrow> i < length (rw_pcs s) \<Longrightarrow> rw_pcs s ! i \<noteq> Reads"
    and "at_pc w (WCas v) s \<Longrightarrow> v = 0"
  using assms unfolding rw_inv_def rw_ok_def by blast+

text \<open>A reader's transition: the counters follow, and it enters only when \<open>write\<close> is 0.\<close>

lemma rw_inv_reader:
  assumes inv: "rw_inv w s" and at: "at_pc i p s" and p: "\<not> writing p" "\<not> writing p'"
    and rd: "rd = rw_read s - (if counted p then 1 else 0) + (if counted p' then 1 else 0)"
    and enter: "p' = Reads \<Longrightarrow> rw_write s = 0"
  shows "rw_inv w (s\<lparr>rw_read := rd, rw_pcs := (rw_pcs s)[i := p']\<rparr>)"
proof -
  note D = rw_invD [OF inv]
  have other: "(rw_pcs s)[i := p'] ! k = (if k = i then p' else rw_pcs s ! k)" for k
    using at by (cases "k = i") simp_all
  have "owner (rw_pcs s ! w) = owner ((rw_pcs s)[i := p'] ! w)"
    using at p owner_writing by (auto simp: other)
  with D(2) have "rw_write s = (if w < length (rw_pcs s) \<and> owner ((rw_pcs s)[i := p'] ! w) then 1 else 0)"
    by simp
  moreover have "k = w" if "k < length (rw_pcs s)" "writing ((rw_pcs s)[i := p'] ! k)" for k
  proof -
    have "k \<noteq> i" using that(2) other [of k] p by auto
    with that other [of k] have "at_pc k (rw_pcs s ! k) s" "writing (rw_pcs s ! k)" by simp_all
    then show ?thesis by (rule D(3))
  qed
  moreover have "(rw_pcs s)[i := p'] ! k \<noteq> Reads"
    if "w < length (rw_pcs s)" "(rw_pcs s)[i := p'] ! w = Writes" "k < length (rw_pcs s)" for k
  proof -
    have "w \<noteq> i" using that(2) other [of w] p by auto
    then have w: "at_pc w Writes s" using that(1,2) other [of w] by simp
    then have "rw_write s = 1" using D(2) by simp
    then show ?thesis using other [of k] D(4) [OF w that(3)] enter by (cases "k = i") auto
  qed
  moreover have "v = 0" if "w < length (rw_pcs s)" "(rw_pcs s)[i := p'] ! w = WCas v" for v
  proof -
    have "w \<noteq> i" using that(2) other [of w] p by auto
    then have "at_pc w (WCas v) s" using that other [of w] by simp
    then show ?thesis by (rule D(5))
  qed
  moreover have "rd = count_of counted ((rw_pcs s)[i := p'])" using at D(1) rd by simp
  ultimately have "rw_ok w (rw_write s) rd ((rw_pcs s)[i := p'])"
    unfolding rw_ok_def length_list_update by blast
  then show ?thesis by (simp add: rw_inv_def)
qed

text \<open>A transition of the writer \<open>w\<close>, which sets the word \<open>write\<close>.\<close>

lemma rw_inv_writer:
  assumes inv: "rw_inv w s" and at: "at_pc w p s" and p: "\<not> counted p" "\<not> counted p'"
    and wr: "wr = (if owner p' then 1 else 0)" and enter: "p' = Writes \<Longrightarrow> rw_read s = 0"
    and cas: "\<And>v. p' = WCas v \<Longrightarrow> v = 0"
  shows "rw_inv w (s\<lparr>rw_write := wr, rw_pcs := (rw_pcs s)[w := p']\<rparr>)"
proof -
  note D = rw_invD [OF inv]
  have other: "(rw_pcs s)[w := p'] ! k = (if k = w then p' else rw_pcs s ! k)" for k
    using at by (cases "k = w") simp_all
  have "k = w" if "k < length (rw_pcs s)" "writing ((rw_pcs s)[w := p'] ! k)" for k
  proof (rule ccontr)
    assume "k \<noteq> w"
    then have "(rw_pcs s)[w := p'] ! k = rw_pcs s ! k" by simp
    with that have "at_pc k (rw_pcs s ! k) s" "writing (rw_pcs s ! k)" by simp_all
    then have "k = w" by (rule D(3))
    with \<open>k \<noteq> w\<close> show False by simp
  qed
  moreover have "(rw_pcs s)[w := p'] ! k \<noteq> Reads" if "p' = Writes" "k < length (rw_pcs s)" for k
  proof
    assume "(rw_pcs s)[w := p'] ! k = Reads"
    then have "rw_pcs s ! k = Reads" using other [of k] that(1) by (simp split: if_splits)
    then show False using count_pos [OF that(2), of counted] D(1) enter [OF that(1)] by simp
  qed
  moreover have "rw_read s = count_of counted ((rw_pcs s)[w := p'])" using at D(1) p by simp
  moreover have "(rw_pcs s)[w := p'] ! w = p'" using at by simp
  ultimately have "rw_ok w wr (rw_read s) ((rw_pcs s)[w := p'])"
    using at wr cas unfolding rw_ok_def length_list_update by auto
  then show ?thesis by (simp add: rw_inv_def)
qed

lemma rw_same [simp]: "s\<lparr>rw_read := rw_read s\<rparr> = s" "s\<lparr>rw_write := rw_write s\<rparr> = s"
  by simp_all

lemma rw_inv_step: "rw_step W s s' \<Longrightarrow> W \<subseteq> {w} \<Longrightarrow> rw_inv w s \<Longrightarrow> rw_inv w s'"
proof (induction rule: rw_step.induct)
  case (rlock_call i s)
  then show ?case using rw_inv_reader [of w s i Idle RLoad "rw_read s"] by simp
next
  case (rlock_free i s)
  then show ?case using rw_inv_reader [of w s i RLoad RAdd "rw_read s"] by simp
next
  case (rlock_add i s)
  then show ?case using rw_inv_reader [of w s i RAdd RCheck "rw_read s + 1"] by simp
next
  case (rlock_back i s)
  then show ?case using rw_inv_reader [of w s i RCheck RSub "rw_read s"] by simp
next
  case (rlock_in i s)
  then show ?case using rw_inv_reader [of w s i RCheck Reads "rw_read s"] by simp
next
  case (rlock_sub i s)
  then show ?case using rw_inv_reader [of w s i RSub RLoad "rw_read s - 1"] by simp
next
  case (runlock i s)
  then show ?case using rw_inv_reader [of w s i Reads Idle "rw_read s - 1"] by simp
next
  case (wlock_call i s)
  then have "i = w" by blast
  have "rw_inv w (s\<lparr>rw_write := rw_write s, rw_pcs := (rw_pcs s)[w := WCas 0]\<rparr>)"
    by (rule rw_inv_writer [of w s Idle]) (use wlock_call \<open>i = w\<close> rw_invD(2) [of w s] in simp_all)
  then show ?case using \<open>i = w\<close> by (simp only: rw_same)
next
  case (wlock_fail i v s)
  then have "i = w" using rw_invD(3) [of w s i "WCas v"] by simp
  have "rw_inv w (s\<lparr>rw_write := rw_write s, rw_pcs := (rw_pcs s)[w := WCas (rw_write s)]\<rparr>)"
    by (rule rw_inv_writer [of w s "WCas v"]) (use wlock_fail \<open>i = w\<close> rw_invD(2) [of w s] in simp_all)
  then show ?case using \<open>i = w\<close> by (simp only: rw_same)
next
  case (wlock_set i v s)
  then have "i = w" using rw_invD(3) [of w s i "WCas v"] by simp
  with wlock_set show ?case using rw_inv_writer [of w s "WCas v" WWait 1] by simp
next
  case (wlock_in i s)
  then have "i = w" using rw_invD(3) [of w s i WWait] by simp
  have "rw_inv w (s\<lparr>rw_write := rw_write s, rw_pcs := (rw_pcs s)[w := Writes]\<rparr>)"
    by (rule rw_inv_writer [of w s WWait]) (use wlock_in \<open>i = w\<close> rw_invD(2) [of w s] in simp_all)
  then show ?case using \<open>i = w\<close> by (simp only: rw_same)
next
  case (wunlock i s)
  then have "i = w" using rw_invD(3) [of w s i Writes] by simp
  with wunlock show ?case using rw_inv_writer [of w s Writes Idle 0] by simp
qed

lemma rw_inv_reachable: "(rw_step W)\<^sup>*\<^sup>* s s' \<Longrightarrow> W \<subseteq> {w} \<Longrightarrow> rw_inv w s \<Longrightarrow> rw_inv w s'"
  by (induction rule: rtranclp_induct) (auto intro: rw_inv_step)

lemma rw_inv_init: "rw_inv w (rwlockInit n)"
  by (auto simp: rw_inv_def rw_ok_def rwlockInit_def count_of_def)

text \<open>C19 As long as only one thread ever takes the lock for writing, the reader-writer lock
  excludes: while it writes no thread reads, and the word \<open>read\<close> is never negative.\<close>

theorem rwlock_one_writer_excludes:
  assumes "(rw_step W)\<^sup>*\<^sup>* (rwlockInit n) s" and "W \<subseteq> {w}"
  shows "\<not> (at_pc i Writes s \<and> at_pc j Reads s) \<and> \<not> (at_pc i Writes s \<and> at_pc j Writes s \<and> i \<noteq> j) \<and>
         0 \<le> rw_read s"
proof -
  have "rw_inv w s" using rw_inv_reachable [OF assms rw_inv_init] .
  moreover from this have "k = w" if "at_pc k Writes s" for k
    using that rw_invD(3) by simp
  ultimately show ?thesis using count_nonneg [of counted "rw_pcs s"] unfolding rw_inv_def rw_ok_def by metis
qed

text \<open>A schedule is checked by executing its transitions one after the other.\<close>

lemma rw_then: "(rw_step W)\<^sup>*\<^sup>* s s1 \<Longrightarrow> rw_step W s1 s2 \<Longrightarrow> (rw_step W)\<^sup>*\<^sup>* s s2"
  by (rule rtranclp.rtrancl_into_rtrancl)

abbreviation rw_two :: "int \<Rightarrow> int \<Rightarrow> rw_pc \<Rightarrow> rw_pc \<Rightarrow> rwlock" where
  "rw_two wr rd a b \<equiv> \<lparr>rw_write = wr, rw_read = rd, rw_pcs = [a, b]\<rparr>"

lemma rw_init_two: "rwlockInit 2 = rw_two 0 0 Idle Idle"
  by (simp add: rwlockInit_def numeral_2_eq_2)

theorem rwlock_one_writer_excludes_witness:
  "\<exists>s. (rw_step {0})\<^sup>*\<^sup>* (rwlockInit 2) s \<and> at_pc 0 Writes s \<and> at_pc 1 RAdd s \<and> 0 \<le> rw_read s"
proof -
  have "(rw_step {0})\<^sup>*\<^sup>* (rwlockInit 2) (rw_two 0 0 Idle RLoad)"
    using rw_then [OF rtranclp.rtrancl_refl rlock_call [of 1 "rw_two 0 0 Idle Idle" "{0}"]]
    by (simp add: rw_init_two)
  from rw_then [OF this rlock_free [of 1]] have "(rw_step {0})\<^sup>*\<^sup>* (rwlockInit 2) (rw_two 0 0 Idle RAdd)"
    by simp
  from rw_then [OF this wlock_call [of 0]] have "(rw_step {0})\<^sup>*\<^sup>* (rwlockInit 2) (rw_two 0 0 (WCas 0) RAdd)"
    by simp
  from rw_then [OF this wlock_set [of 0]] have "(rw_step {0})\<^sup>*\<^sup>* (rwlockInit 2) (rw_two 1 0 WWait RAdd)"
    by simp
  from rw_then [OF this wlock_in [of 0]] have r: "(rw_step {0})\<^sup>*\<^sup>* (rwlockInit 2) (rw_two 1 0 Writes RAdd)"
    by simp
  with rwlock_one_writer_excludes [OF r, of 0 0 1] show ?thesis
    by (intro exI [of _ "rw_two 1 0 Writes RAdd"]) simp
qed

text \<open>Two threads that take the lock for writing are not kept apart: a failed compare exchange
  leaves the value it found, 1, in the variable it compares with, so the next one succeeds while
  the lock is taken. Both are inside.\<close>

theorem rwlock_two_writers:
  "\<exists>s. (rw_step {0, 1})\<^sup>*\<^sup>* (rwlockInit 2) s \<and> at_pc 0 Writes s \<and> at_pc 1 Writes s"
proof -
  let ?r = "(rw_step {0, 1})\<^sup>*\<^sup>* (rwlockInit 2)"
  have "?r (rw_two 0 0 (WCas 0) Idle)"
    using rw_then [OF rtranclp.rtrancl_refl wlock_call [of 0 "rw_two 0 0 Idle Idle" "{0, 1}"]]
    by (simp add: rw_init_two)
  from rw_then [OF this wlock_set [of 0]] have "?r (rw_two 1 0 WWait Idle)" by simp
  from rw_then [OF this wlock_in [of 0]] have "?r (rw_two 1 0 Writes Idle)" by simp
  from rw_then [OF this wlock_call [of 1]] have "?r (rw_two 1 0 Writes (WCas 0))" by simp
  from rw_then [OF this wlock_fail [of 1]] have "?r (rw_two 1 0 Writes (WCas 1))" by simp
  from rw_then [OF this wlock_set [of 1]] have "?r (rw_two 1 0 Writes WWait)" by simp
  from rw_then [OF this wlock_in [of 1]] have "?r (rw_two 1 0 Writes Writes)" by simp
  then show ?thesis by (intro exI [of _ "rw_two 1 0 Writes Writes"]) simp
qed

end
