(* ===== verification/Handle.thy ===== *)
theory Handle
  imports NameIndex Calls HarborWire
begin

text \<open>
  \<open>skynet-src/handle.cpp\<close>: the storage of all services. Contexts are addresses (\<open>ctx\<close>); what a
  context's field \<open>handle_\<close> holds is the argument \<open>gh\<close> (\<open>Context::GetHandle\<close>). The operations
  are the critical sections of the source, executed one at a time; \<open>hs_write\<close> is the word \<open>write\<close> of
  the reader-writer lock. By the semantics of \<open>rwlock.h\<close> (theory \<open>Locks\<close>), a reader waits as long as
  \<open>write\<close> is set, so it is stuck when no call is going to reset it, while a writer overwrites it.
\<close>

section \<open>Data\<close>

type_synonym ctx = nat

record handle_name =
  hn_name :: string
  hn_handle :: u32

record handle_storage =
  hs_write :: bool
  hs_harbor :: u32
  hs_handle_index :: u32
  hs_slot :: "ctx option list"
  hs_name_count :: int
  hs_name :: "handle_name list"

definition kDefaultSoltSize :: nat where "kDefaultSoltSize = 4"
definition kMaxSlotSize :: nat where "kMaxSlotSize = 0x40000000"
definition handle_mask :: nat where "handle_mask = 0xffffff"

definition HandleInit :: "int \<Rightarrow> handle_storage" where
  "HandleInit harbor =
     \<lparr>hs_write = False, hs_harbor = push_bit 24 (word_of_int (harbor AND 0xff)), hs_handle_index = 1,
      hs_slot = replicate kDefaultSoltSize None, hs_name_count = 0,
      hs_name = replicate 2 \<lparr>hn_name = [], hn_handle = 0\<rparr>\<rparr>"

section \<open>Lock\<close>

definition rlock :: "handle_storage \<Rightarrow> unit res" where
  "rlock s = (if hs_write s then Inl Deadlock else Inr ())"

definition wlock :: "handle_storage \<Rightarrow> handle_storage" where
  "wlock s = s\<lparr>hs_write := True\<rparr>"

definition wunlock :: "handle_storage \<Rightarrow> handle_storage" where
  "wunlock s = s\<lparr>hs_write := False\<rparr>"

section \<open>Slots\<close>

text \<open>\<open>handle & (slot.size () - 1)\<close>, the subtraction in 64 bits.\<close>

definition slot_hash :: "u32 \<Rightarrow> nat \<Rightarrow> nat" where
  "slot_hash handle n = unat ((ucast handle :: u64) AND (of_nat n - 1))"

text \<open>The scan of \<open>HandleRegister\<close> for a free slot; \<open>k\<close> iterations are left.\<close>

fun register_scan :: "ctx option list \<Rightarrow> nat \<Rightarrow> u32 \<Rightarrow> u32 option" where
  "register_scan slot 0 handle = None"
| "register_scan slot (Suc k) handle =
     (let handle = (if unat handle > handle_mask then 1 else handle) in
      if slot ! slot_hash handle (length slot) = None then Some handle
      else register_scan slot k (handle + 1))"

text \<open>
  Moving the contexts to a vector of twice the size: the hash is taken modulo the old size, and
  the slot that is asserted to be empty is one of the old vector.
\<close>

fun rehash :: "(ctx \<Rightarrow> u32) \<Rightarrow> ctx option list \<Rightarrow> nat list \<Rightarrow> ctx option list \<Rightarrow> ctx option list res" where
  "rehash gh slot [] new_slot = Inr new_slot"
| "rehash gh slot (i # is) new_slot =
     (case slot ! i of
        None \<Rightarrow> rehash gh slot is new_slot
      | Some c \<Rightarrow>
          (let hash = slot_hash (gh c) (length slot) in
           bindR (assertR (slot ! hash = None)) (\<lambda>_. rehash gh slot is (new_slot[hash := Some c]))))"

lemma rehash_length: "rehash gh slot is new_slot = Inr r \<Longrightarrow> length r = length new_slot"
  by (induction "is" arbitrary: new_slot) (auto split: option.splits simp: bindR_Inr_iff Let_def)

function register_loop :: "(ctx \<Rightarrow> u32) \<Rightarrow> handle_storage \<Rightarrow> ctx \<Rightarrow> (u32 \<times> handle_storage) res" where
  "register_loop gh s c =
     (let slot = hs_slot s in
      case register_scan slot (length slot) (hs_handle_index s) of
        Some handle \<Rightarrow>
          Inr (handle OR hs_harbor s,
               wunlock (s\<lparr>hs_slot := slot[slot_hash handle (length slot) := Some c],
                          hs_handle_index := handle + 1\<rparr>))
      | None \<Rightarrow>
          if length slot = 0 \<or> 2 * length slot - 1 > handle_mask then Inl AssertionFailed
          else
            case rehash gh slot [0 ..< length slot] (replicate (2 * length slot) None) of
              Inl e \<Rightarrow> Inl e
            | Inr new_slot \<Rightarrow> register_loop gh (s\<lparr>hs_slot := new_slot\<rparr>) c)"
  by pat_completeness auto
termination
  by (relation "measure (\<lambda>(gh, s, c). handle_mask + 1 - length (hs_slot s))")
    (auto dest!: rehash_length simp: handle_mask_def neq_Nil_conv)

declare register_loop.simps [simp del]

definition HandleRegister :: "(ctx \<Rightarrow> u32) \<Rightarrow> handle_storage \<Rightarrow> ctx \<Rightarrow> (u32 \<times> handle_storage) res" where
  "HandleRegister gh s c = register_loop gh (wlock s) c"

text \<open>The result is the context that \<open>Grab\<close> is called on.\<close>

definition HandleGrab :: "(ctx \<Rightarrow> u32) \<Rightarrow> handle_storage \<Rightarrow> u32 \<Rightarrow> ctx option res" where
  "HandleGrab gh s handle =
     bindR (rlock s) (\<lambda>_.
     bindR (nthR (hs_slot s) (int (slot_hash handle (length (hs_slot s))))) (\<lambda>c.
       Inr (case c of None \<Rightarrow> None | Some c \<Rightarrow> if gh c = handle then Some c else None)))"

section \<open>Names\<close>

text \<open>The binary search: the entry with the name, or the place for it.\<close>

function name_search :: "handle_name list \<Rightarrow> string \<Rightarrow> int \<Rightarrow> int \<Rightarrow> (handle_name + int) res" where
  "name_search names name begin stop =
     (if begin \<le> stop then
        let mid = (begin + stop) div 2 in
        bindR (nthR names mid) (\<lambda>n.
          if hn_name n = name then Inr (Inl n)
          else if hn_name n < name then name_search names name (mid + 1) stop
          else name_search names name begin (mid - 1))
      else Inr (Inr begin))"
  by pat_completeness auto
termination
  by (relation "measure (\<lambda>(names, name, begin, stop). nat (stop + 1 - begin))") auto

declare name_search.simps [simp del]

definition HandleFindname :: "handle_storage \<Rightarrow> string \<Rightarrow> u32 res" where
  "HandleFindname s name =
     bindR (rlock s) (\<lambda>_.
     bindR (name_search (hs_name s) name 0 (hs_name_count s - 1)) (\<lambda>r.
       Inr (case r of Inl n \<Rightarrow> hn_handle n | Inr _ \<Rightarrow> 0)))"

text \<open>\<open>for (int i = name_count; i > begin; i--) name[i] = name[i - 1];\<close>\<close>

fun shift_names :: "handle_name list \<Rightarrow> int \<Rightarrow> nat \<Rightarrow> handle_name list res" where
  "shift_names names begin 0 = Inr names"
| "shift_names names begin (Suc k) =
     (let i = begin + int (Suc k) in
      bindR (nthR names (i - 1)) (\<lambda>n.
      bindR (updR names i n) (\<lambda>names'. shift_names names' begin k)))"

definition HandleNamehandle ::
  "handle_storage \<Rightarrow> u32 \<Rightarrow> string \<Rightarrow> (string \<times> handle_storage) res" where
  "HandleNamehandle s0 handle name =
     (let s = wlock s0 in
      bindR (name_search (hs_name s) name 0 (hs_name_count s - 1)) (\<lambda>r.
        case r of
          Inl _ \<Rightarrow> Inr ([], s)
        | Inr begin \<Rightarrow>
            bindR (if hs_name_count s \<ge> int (length (hs_name s)) then
                     bindR (assertR (length (hs_name s) * 2 \<le> kMaxSlotSize)) (\<lambda>_.
                       Inr (hs_name s @ replicate (length (hs_name s)) \<lparr>hn_name = [], hn_handle = 0\<rparr>))
                   else Inr (hs_name s)) (\<lambda>names.
            bindR (shift_names names begin (nat (hs_name_count s - begin))) (\<lambda>names.
            bindR (updR names begin \<lparr>hn_name = name, hn_handle = handle\<rparr>) (\<lambda>names.
              Inr (name, wunlock (s\<lparr>hs_name := names, hs_name_count := hs_name_count s + 1\<rparr>)))))))"

section \<open>Retiring\<close>

text \<open>The loop that takes the names of a handle out; \<open>k\<close> iterations are left.\<close>

fun compact_names ::
  "u32 \<Rightarrow> handle_name list \<Rightarrow> int \<Rightarrow> int \<Rightarrow> nat \<Rightarrow> (handle_name list \<times> int) res" where
  "compact_names handle names i j 0 = Inr (names, j)"
| "compact_names handle names i j (Suc k) =
     bindR (nthR names i) (\<lambda>n.
       if hn_handle n = handle then
         bindR (updR names i (n\<lparr>hn_name := []\<rparr>)) (\<lambda>names'. compact_names handle names' (i + 1) j k)
       else if i \<noteq> j then
         bindR (updR names j n) (\<lambda>names'. compact_names handle names' (i + 1) (j + 1) k)
       else compact_names handle names (i + 1) (j + 1) k)"

text \<open>The results: the value returned, and the context that is released.\<close>

definition HandleRetire ::
  "(ctx \<Rightarrow> u32) \<Rightarrow> handle_storage \<Rightarrow> u32 \<Rightarrow> (int \<times> ctx option \<times> handle_storage) res" where
  "HandleRetire gh s0 handle =
     (let s = wlock s0; hash = slot_hash handle (length (hs_slot s)) in
      bindR (nthR (hs_slot s) (int hash)) (\<lambda>c.
        if c \<noteq> None \<and> gh (the c) = handle then
          bindR (compact_names handle (hs_name s) 0 0 (nat (hs_name_count s))) (\<lambda>(names, j).
            Inr (1, c, wunlock (s\<lparr>hs_slot := (hs_slot s)[hash := None], hs_name := names, hs_name_count := j\<rparr>)))
        else Inr (0, None, wunlock s)))"

text \<open>One sweep of \<open>HandleRetireall\<close> over the slots, with the number of contexts it met.\<close>

fun retire_sweep ::
  "(ctx \<Rightarrow> u32) \<Rightarrow> nat list \<Rightarrow> handle_storage \<Rightarrow> (nat \<times> ctx list \<times> handle_storage) res" where
  "retire_sweep gh [] s = Inr (0, [], s)"
| "retire_sweep gh (i # is) s =
     bindR (rlock s) (\<lambda>_.
     bindR (nthR (hs_slot s) (int i)) (\<lambda>c.
       case c of
         None \<Rightarrow> retire_sweep gh is s
       | Some c \<Rightarrow>
           bindR (if gh c \<noteq> 0 then HandleRetire gh s (gh c) else Inr (0, None, s)) (\<lambda>(_, r, s').
           bindR (retire_sweep gh is s') (\<lambda>(n, cs, s'').
             Inr (n + 1, (case r of None \<Rightarrow> cs | Some c \<Rightarrow> c # cs), s'')))))"

partial_function (option) HandleRetireall ::
  "(ctx \<Rightarrow> u32) \<Rightarrow> handle_storage \<Rightarrow> ctx list \<Rightarrow> (ctx list \<times> handle_storage) res option" where
  "HandleRetireall gh s released =
     (case retire_sweep gh [0 ..< length (hs_slot s)] s of
        Inl e \<Rightarrow> Some (Inl e)
      | Inr r \<Rightarrow>
          (case r of (n, cs, s') \<Rightarrow>
             if n = 0 then Some (Inr (released @ cs, s'))
             else HandleRetireall gh s' (released @ cs)))"

end
