(* ===== verification/HandleFacts.thy ===== *)
theory HandleFacts
  imports Handle
begin

text \<open>
  Properties of the handle storage: the names are a sorted array that implements a map, a handle
  leads to the context that was registered under it, and what goes wrong when the slots are full,
  a name is taken or a context stands in two slots.
\<close>

section \<open>Names as a map\<close>

definition names :: "handle_storage \<Rightarrow> handle_name list" where
  "names s = take (nat (hs_name_count s)) (hs_name s)"

definition sorted_names :: "handle_name list \<Rightarrow> bool" where
  "sorted_names ns \<longleftrightarrow> sorted_wrt (\<lambda>a b. hn_name a < hn_name b) ns"

definition names_inv :: "handle_storage \<Rightarrow> bool" where
  "names_inv s \<longleftrightarrow> 0 \<le> hs_name_count s \<and> hs_name_count s \<le> int (length (hs_name s)) \<and>
     0 < length (hs_name s) \<and> sorted_names (names s)"

definition name_map :: "handle_name list \<Rightarrow> (string \<times> u32) list" where
  "name_map ns = map (\<lambda>n. (hn_name n, hn_handle n)) ns"

lemma sorted_nth:
  "sorted_names ns \<Longrightarrow> i < j \<Longrightarrow> j < length ns \<Longrightarrow> hn_name (ns ! i) < hn_name (ns ! j)"
  unfolding sorted_names_def by (rule sorted_wrt_nth_less)

text \<open>
  The search keeps all smaller names on the left of \<open>begin\<close> and all greater ones on the right of
  \<open>stop\<close>; it ends with the entry, or with the place where the name belongs.
\<close>

definition is_place :: "handle_name list \<Rightarrow> string \<Rightarrow> int \<Rightarrow> bool" where
  "is_place ns name p \<longleftrightarrow> 0 \<le> p \<and> p \<le> int (length ns) \<and>
     (\<forall>i < length ns. if int i < p then hn_name (ns ! i) < name else name < hn_name (ns ! i))"

definition search_post :: "handle_name list \<Rightarrow> string \<Rightarrow> (handle_name + int) res \<Rightarrow> bool" where
  "search_post ns name r = (case r of
      Inl e \<Rightarrow> False
    | Inr (Inl e) \<Rightarrow> e \<in> set ns \<and> hn_name e = name
    | Inr (Inr p) \<Rightarrow> is_place ns name p)"

lemma name_search_ok:
  assumes "sorted_names ns"
    and "0 \<le> lo" and "lo \<le> hi + 1" and "hi < int (length ns)"
    and "\<And>i. i < length ns \<Longrightarrow> int i < lo \<Longrightarrow> hn_name (ns ! i) < name"
    and "\<And>i. i < length ns \<Longrightarrow> hi < int i \<Longrightarrow> name < hn_name (ns ! i)"
  shows "search_post ns name (name_search (ns @ garbage) name lo hi)"
  using assms
proof (induction "nat (hi + 1 - lo)" arbitrary: lo hi rule: less_induct)
  case less
  show ?case
  proof (cases "lo \<le> hi")
    case False
    with less.prems(3) have "lo = hi + 1" by simp
    with less.prems have "is_place ns name lo" by (auto simp: is_place_def)
    with False show ?thesis by (subst name_search.simps) (simp add: search_post_def)
  next
    case True
    define mid where "mid = nat ((lo + hi) div 2)"
    have mid: "(lo + hi) div 2 = int mid" "lo \<le> int mid" "int mid \<le> hi"
      using True less.prems(2) by (auto simp: mid_def)
    then have bound: "mid < length ns" using less.prems(4) by simp
    have step: "name_search (ns @ garbage) name lo hi =
        (if hn_name (ns ! mid) = name then Inr (Inl (ns ! mid))
         else if hn_name (ns ! mid) < name then name_search (ns @ garbage) name (int mid + 1) hi
         else name_search (ns @ garbage) name lo (int mid - 1))"
      using True bound by (subst name_search.simps) (simp add: mid(1) nth_append)
    note lt = sorted_nth [OF less.prems(1)]
    consider (eq) "hn_name (ns ! mid) = name" | (below) "hn_name (ns ! mid) < name"
      | (above) "name < hn_name (ns ! mid)" by (metis linorder_less_linear)
    then show ?thesis
    proof cases
      case eq
      then show ?thesis using bound by (simp add: step search_post_def)
    next
      case below
      have "hn_name (ns ! i) < name" if "i < length ns" "int i < int mid + 1" for i
        using that lt [of i mid] bound below by (cases "i = mid") (auto intro: less_trans)
      then have "search_post ns name (name_search (ns @ garbage) name (int mid + 1) hi)"
        using less.prems mid by (intro less.hyps) auto
      then show ?thesis using below by (auto simp add: step)
    next
      case above
      have "name < hn_name (ns ! i)" if "i < length ns" "int mid - 1 < int i" for i
        using that lt [of mid i] bound above by (cases "i = mid") (auto intro: less_trans)
      then have "search_post ns name (name_search (ns @ garbage) name lo (int mid - 1))"
        using less.prems mid by (intro less.hyps) auto
      then show ?thesis using above by (auto simp add: step)
    qed
  qed
qed

text \<open>On a storage: the search finds the entry of the name, or the name is absent.\<close>

lemma names_length: "names_inv s \<Longrightarrow> length (names s) = nat (hs_name_count s)"
  by (auto simp: names_inv_def names_def)

lemma search_names:
  assumes "names_inv s"
  shows "search_post (names s) name (name_search (hs_name s) name 0 (hs_name_count s - 1))"
proof -
  have "hs_name s = names s @ drop (nat (hs_name_count s)) (hs_name s)" by (simp add: names_def)
  moreover have "search_post (names s) name
      (name_search (names s @ drop (nat (hs_name_count s)) (hs_name s)) name 0 (hs_name_count s - 1))"
    using assms by (intro name_search_ok) (auto simp: names_inv_def names_length)
  ultimately show ?thesis by metis
qed

lemma sorted_distinct: "sorted_names ns \<Longrightarrow> distinct (map hn_name ns)"
  unfolding distinct_conv_nth by (metis length_map linorder_neqE_nat nth_map order_less_irrefl sorted_nth)

lemma map_of_names:
  "sorted_names ns \<Longrightarrow> e \<in> set ns \<Longrightarrow> map_of (name_map ns) (hn_name e) = Some (hn_handle e)"
  using sorted_distinct by (auto simp: name_map_def comp_def intro!: map_of_is_SomeI)

lemma place_absent: "is_place ns name p \<Longrightarrow> map_of (name_map ns) name = None"
  by (auto simp: is_place_def name_map_def map_of_eq_None_iff in_set_conv_nth comp_def split: if_splits)

definition find_name :: "handle_storage \<Rightarrow> string \<Rightarrow> u32 option" where
  "find_name s name =
     (case name_search (hs_name s) name 0 (hs_name_count s - 1) of
        Inr (Inl n) \<Rightarrow> Some (hn_handle n) | _ \<Rightarrow> None)"

lemma find_name_map: "names_inv s \<Longrightarrow> find_name s name = map_of (name_map (names s)) name"
  using search_names [of s name] map_of_names place_absent
  by (fastforce simp: find_name_def search_post_def names_inv_def split: sum.splits)

section \<open>Entering a name\<close>

text \<open>The shifting loop opens a gap at \<open>begin\<close>: the entries from there on move one place up.\<close>

lemma shift_names_ok:
  assumes "p + Suc k \<le> length xs"
  shows "\<exists>g. shift_names xs (int p) k = Inr (take p xs @ g # take k (drop p xs) @ drop (p + Suc k) xs)"
  using assms
proof (induction k arbitrary: xs)
  case 0
  then have "xs = take p xs @ xs ! p # drop (Suc p) xs" by (simp add: id_take_nth_drop)
  then show ?case by (intro exI [of _ "xs ! p"]) simp
next
  case (Suc k)
  let ?x = "xs ! (p + k)"
  let ?ys = "xs[p + Suc k := ?x]"
  have "shift_names xs (int p) (Suc k) = shift_names ?ys (int p) k"
    using Suc.prems by (simp add: nthR_def updR_def Let_def nat_add_distrib nat_int_add)
  moreover obtain g where "shift_names ?ys (int p) k =
      Inr (take p ?ys @ g # take k (drop p ?ys) @ drop (p + Suc k) ?ys)"
    using Suc.IH [of ?ys] Suc.prems by auto
  moreover have "take p ?ys = take p xs" "take k (drop p ?ys) = take k (drop p xs)"
    by (simp_all add: drop_update_swap)
  moreover have "drop (p + Suc k) ?ys = ?x # drop (p + Suc (Suc k)) xs"
    using Suc.prems by (simp add: drop_update_swap Cons_nth_drop_Suc [symmetric])
  moreover have "take (Suc k) (drop p xs) = take k (drop p xs) @ [?x]"
    using Suc.prems by (simp add: take_Suc_conv_app_nth)
  ultimately show ?case by auto
qed

lemma place_insert_sorted:
  assumes "sorted_names ns" and "is_place ns (hn_name e) (int p)"
  shows "sorted_names (take p ns @ e # drop p ns)"
proof -
  have p: "p \<le> length ns" using assms(2) by (simp add: is_place_def)
  have below: "\<forall>a \<in> set (take p ns). hn_name a < hn_name e"
    using assms(2) p by (auto simp: is_place_def in_set_conv_nth split: if_splits)
  have above: "\<forall>b \<in> set (drop p ns). hn_name e < hn_name b"
  proof
    fix b assume "b \<in> set (drop p ns)"
    then obtain i where "p + i < length ns" "b = ns ! (p + i)"
      using p by (auto simp: in_set_conv_nth less_diff_conv add.commute)
    moreover from this(1) assms(2) have "if int (p + i) < int p then hn_name (ns ! (p + i)) < hn_name e
        else hn_name e < hn_name (ns ! (p + i))" unfolding is_place_def by blast
    ultimately show "hn_name e < hn_name b" by simp
  qed
  have "sorted_wrt (\<lambda>a b. hn_name a < hn_name b) (take p ns @ drop p ns)"
    using assms(1) by (simp add: sorted_names_def)
  then show ?thesis
    using below above unfolding sorted_names_def
    by (auto simp: sorted_wrt_append intro: less_trans [of _ "hn_name e"])
qed

text \<open>
  A free name is entered: the array stays sorted, the map gains the name, the lock is released. The
  capacity is a power of two, so that it can be doubled up to \<open>kMaxSlotSize\<close>.
\<close>

definition capacity_ok :: "handle_storage \<Rightarrow> bool" where
  "capacity_ok s \<longleftrightarrow> (\<exists>k \<le> 30. length (hs_name s) = 2 ^ k)"

lemma capacity_grows:
  assumes "capacity_ok s" and "length (hs_name s) < kMaxSlotSize"
  shows "length (hs_name s) * 2 \<le> kMaxSlotSize"
    and "length ns = length (hs_name s) * 2 \<Longrightarrow> capacity_ok (s\<lparr>hs_name := ns\<rparr>)"
proof -
  obtain k where k: "k \<le> 30" "length (hs_name s) = 2 ^ k" using assms(1) by (auto simp: capacity_ok_def)
  with assms(2) have "(2::nat) ^ k < 2 ^ 30" by (simp add: kMaxSlotSize_def)
  then have "Suc k \<le> 30" by (simp only: power_strict_increasing_iff Suc_le_eq)
  then have "(2::nat) ^ Suc k \<le> 2 ^ 30" by (intro power_increasing) simp_all
  then show "length (hs_name s) * 2 \<le> kMaxSlotSize" using k by (simp add: kMaxSlotSize_def)
  show "capacity_ok (s\<lparr>hs_name := ns\<rparr>)" if "length ns = length (hs_name s) * 2"
    using that k \<open>Suc k \<le> 30\<close> by (auto simp: capacity_ok_def intro!: exI [of _ "Suc k"])
qed

lemma enter_name_ok:
  assumes "names_inv s" and "capacity_ok s" and "hs_name_count s < int kMaxSlotSize"
    and "find_name s name = None"
  shows "\<exists>s' p. HandleNamehandle s handle name = Inr (name, s') \<and> names_inv s' \<and>
    names s' = take p (names s) @ \<lparr>hn_name = name, hn_handle = handle\<rparr> # drop p (names s) \<and>
    \<not> hs_write s' \<and> hs_slot s' = hs_slot s \<and> capacity_ok s'"
proof -
  let ?n = "nat (hs_name_count s)" and ?e = "\<lparr>hn_name = name, hn_handle = handle\<rparr>"
  have n: "int ?n = hs_name_count s" "?n \<le> length (hs_name s)" using assms(1) by (auto simp: names_inv_def)
  obtain q where q: "name_search (hs_name s) name 0 (hs_name_count s - 1) = Inr (Inr q)"
    "is_place (names s) name q"
    using search_names [OF assms(1), of name] assms(4)
    unfolding search_post_def find_name_def by (auto split: sum.splits)
  define p where "p = nat q"
  have "q = int p" using q(2) by (simp add: is_place_def p_def)
  with q have search: "name_search (hs_name s) name 0 (hs_name_count s - 1) = Inr (Inr (int p))"
    and place: "is_place (names s) name (int p)" by simp_all
  have "int p \<le> int (length (names s))" using place unfolding is_place_def by blast
  then have p: "p \<le> ?n" by (simp only: names_length [OF assms(1)] of_nat_le_iff)
  define ns where "ns = (if ?n \<ge> length (hs_name s)
    then hs_name s @ replicate (length (hs_name s)) \<lparr>hn_name = [], hn_handle = 0\<rparr> else hs_name s)"
  have len: "0 < length (hs_name s)" using assms(1) by (simp add: names_inv_def)
  have l: "length ns = (if length (hs_name s) \<le> ?n then length (hs_name s) + length (hs_name s)
      else length (hs_name s))"
    by (simp add: ns_def)
  have "?n < length ns"
  proof (cases "length (hs_name s) \<le> ?n")
    case True
    then have "length ns = length (hs_name s) + length (hs_name s)" by (simp only: l if_True)
    with n(2) len show ?thesis by linarith
  qed (simp add: l)
  moreover have "take ?n ns = names s" using n(2) by (simp add: ns_def names_def)
  ultimately have ns: "?n < length ns" "take ?n ns = names s" by blast+
  obtain g where shift: "shift_names ns (int p) (?n - p) =
      Inr (take p ns @ g # take (?n - p) (drop p ns) @ drop (p + Suc (?n - p)) ns)"
    using shift_names_ok [of p "?n - p" ns] p ns(1) by auto
  define xs where "xs = take p ns @ ?e # take (?n - p) (drop p ns) @ drop (Suc ?n) ns"
  have fits: "length (hs_name s) * 2 \<le> kMaxSlotSize" if "int (length (hs_name s)) \<le> hs_name_count s"
    using capacity_grows(1) [OF assms(2)] that assms(3) by simp
  have "nat (hs_name_count s - int p) = ?n - p" using n(1) by linarith
  then have run: "HandleNamehandle s handle name =
      Inr (name, wunlock ((wlock s)\<lparr>hs_name := xs, hs_name_count := hs_name_count s + 1\<rparr>))"
    using search shift p ns(1) fits n
    by (auto simp: HandleNamehandle_def Let_def wlock_def ns_def updR_def xs_def
        list_update_append nth_append)
  let ?s = "wunlock ((wlock s)\<lparr>hs_name := xs, hs_name_count := hs_name_count s + 1\<rparr>)"
  have sn: "nat (hs_name_count s + 1) = Suc ?n" using n(1) by linarith
  have tk: "take p (names s) = take p ns" "drop p (names s) = take (?n - p) (drop p ns)"
    using p ns by (simp_all add: ns(2) [symmetric] min_absorb1 drop_take)
  have names': "names ?s = take p (names s) @ ?e # drop p (names s)"
    using p ns(1) unfolding tk
    by (simp add: names_def wunlock_def wlock_def xs_def sn Suc_diff_le min_absorb2)
  moreover have "sorted_names (take p (names s) @ ?e # drop p (names s))"
    using place_insert_sorted [of "names s" ?e p] assms(1) place by (simp add: names_inv_def)
  moreover have "0 \<le> hs_name_count s" using assms(1) by (simp add: names_inv_def)
  ultimately have "names_inv ?s"
    using p ns(1) by (auto simp: names_inv_def wunlock_def wlock_def xs_def)
  moreover have "capacity_ok ?s"
  proof (cases "length (hs_name s) \<le> ?n")
    case True
    then have "length xs = length (hs_name s) * 2" "length (hs_name s) < kMaxSlotSize"
      using p ns(1) l n assms(3) by (auto simp: xs_def)
    then have "capacity_ok (s\<lparr>hs_name := xs\<rparr>)" by (intro capacity_grows(2) [OF assms(2)])
    then show ?thesis by (simp add: capacity_ok_def wunlock_def wlock_def)
  next
    case False
    then have "length xs = length (hs_name s)" using p ns(1) l by (simp add: xs_def)
    with assms(2) show ?thesis by (simp add: capacity_ok_def wunlock_def wlock_def)
  qed
  ultimately show ?thesis using run names'
    by (intro exI [of _ ?s] exI [of _ p]) (simp add: wunlock_def wlock_def)
qed

definition enter_name :: "string \<Rightarrow> u32 \<Rightarrow> handle_storage \<Rightarrow> handle_storage" where
  "enter_name name handle s = (case HandleNamehandle s handle name of Inl _ \<Rightarrow> s | Inr (_, s') \<Rightarrow> s')"

definition storage_inv :: "handle_storage \<Rightarrow> bool" where
  "storage_inv s \<longleftrightarrow> names_inv s \<and> capacity_ok s"

definition name_room :: "nat \<Rightarrow> handle_storage \<Rightarrow> bool" where
  "name_room n s \<longleftrightarrow> hs_name_count s + int n \<le> int kMaxSlotSize"

lemma map_of_insert:
  assumes "sorted_names (take p ns @ e # drop p ns)"
  shows "map_of (name_map (take p ns @ e # drop p ns)) x =
    (if x = hn_name e then Some (hn_handle e) else map_of (name_map ns) x)"
proof (cases "x = hn_name e")
  case True
  with map_of_names [OF assms, of e] show ?thesis by simp
next
  case False
  then have "map_of (name_map (take p ns @ e # drop p ns)) x = map_of (name_map (take p ns @ drop p ns)) x"
    unfolding name_map_def map_append by (simp add: map_add_def split: option.split)
  with False show ?thesis by simp
qed

lemma enter_name_map:
  assumes "storage_inv s" and "name_room (Suc n) s" and "find_name s name = None"
  shows "storage_inv (enter_name name handle s)" and "name_room n (enter_name name handle s)"
    and "find_name (enter_name name handle s) x = (if x = name then Some handle else find_name s x)"
proof -
  have inv: "names_inv s" "capacity_ok s" "hs_name_count s < int kMaxSlotSize"
    using assms(1,2) by (auto simp: storage_inv_def name_room_def)
  from enter_name_ok [OF inv assms(3)] obtain s' p where
    s': "HandleNamehandle s handle name = Inr (name, s')" "names_inv s'" "capacity_ok s'"
    "names s' = take p (names s) @ \<lparr>hn_name = name, hn_handle = handle\<rparr> # drop p (names s)" by blast
  then have e: "enter_name name handle s = s'" by (simp add: enter_name_def)
  from s'(2,3) show "storage_inv (enter_name name handle s)" by (simp add: e storage_inv_def)
  have "length (names s') = Suc (length (names s))" unfolding s'(4) by simp
  then have "hs_name_count s' = hs_name_count s + 1"
    using names_length [OF inv(1)] names_length [OF s'(2)] inv(1) s'(2) unfolding names_inv_def by linarith
  with assms(2) show "name_room n (enter_name name handle s)" by (simp add: e name_room_def)
  show "find_name (enter_name name handle s) x = (if x = name then Some handle else find_name s x)"
    using map_of_insert [of p "names s" "\<lparr>hn_name = name, hn_handle = handle\<rparr>" x] s'(2,4) inv(1)
    by (simp add: e find_name_map names_inv_def)
qed

interpretation local_names: name_index storage_inv name_room "\<lambda>_. True" find_name enter_name
  by unfold_locales (use enter_name_map in blast)+

section \<open>Properties of the names\<close>

lemma HandleInit_ok: "storage_inv (HandleInit harbor)" "find_name (HandleInit harbor) name = None"
proof -
  show inv: "storage_inv (HandleInit harbor)"
    by (auto simp: storage_inv_def names_inv_def HandleInit_def capacity_ok_def names_def sorted_names_def
        intro!: exI [of _ 1])
  show "find_name (HandleInit harbor) name = None"
    using find_name_map [of "HandleInit harbor" name] inv
    by (simp add: storage_inv_def) (simp add: names_def HandleInit_def name_map_def)
qed

lemma enter_name_unlocks: "\<not> hs_write s \<Longrightarrow> storage_inv s \<Longrightarrow> name_room (Suc n) s \<Longrightarrow> find_name s name = None \<Longrightarrow>
    \<not> hs_write (enter_name name handle s)"
  using enter_name_ok [of s name handle] by (auto simp: enter_name_def storage_inv_def name_room_def)

lemma Findname_find: "\<not> hs_write s \<Longrightarrow> storage_inv s \<Longrightarrow>
    HandleFindname s name = Inr (case find_name s name of None \<Rightarrow> 0 | Some h \<Rightarrow> h)"
  using search_names [of s name]
  by (auto simp: HandleFindname_def rlock_def find_name_def storage_inv_def search_post_def split: sum.splits)

lemma enter_all_unlocked:
  assumes "\<not> hs_write s" and "storage_inv s" and "name_room (length kvs) s"
    and "distinct (map fst kvs)" and "\<And>k. k \<in> set (map fst kvs) \<Longrightarrow> find_name s k = None"
  shows "\<not> hs_write (fold (\<lambda>(k, v). enter_name k v) kvs s)"
  using assms
proof (induction kvs arbitrary: s)
  case (Cons kv kvs)
  obtain k v where kv: "kv = (k, v)" by fastforce
  have k: "name_room (Suc (length kvs)) s" "find_name s k = None"
    using Cons.prems(3,5) by (simp_all add: kv)
  have "find_name (enter_name k v s) k' = None" if "k' \<in> set (map fst kvs)" for k'
    using enter_name_map(3) [OF Cons.prems(2) k] Cons.prems(4,5) that by (auto simp: kv)
  with Cons.IH [of "enter_name k v s"] enter_name_map(1,2) [OF Cons.prems(2) k]
    enter_name_unlocks [OF Cons.prems(1,2) k] Cons.prems(4) show ?case by (simp add: kv)
qed simp

text \<open>C20 The names of services are a map: after any distinct names have been registered, in any
  order and through any number of doublings of the array, the binary search of \<open>HandleFindname\<close>
  finds each with its handle, and 0 for every other name.\<close>

theorem names_are_a_map:
  assumes "distinct (map fst kvs)" and "length kvs \<le> kMaxSlotSize"
  shows "HandleFindname (fold (\<lambda>(k, v). enter_name k v) kvs (HandleInit harbor)) name =
    Inr (case map_of kvs name of None \<Rightarrow> 0 | Some h \<Rightarrow> h)"
proof -
  have room: "name_room (length kvs) (HandleInit harbor)"
    using assms(2) by (simp add: name_room_def HandleInit_def)
  have open_lock: "\<not> hs_write (HandleInit harbor)" by (simp add: HandleInit_def)
  note all = local_names.enter_all_ok [OF HandleInit_ok(1) room assms(1)]
  note free = enter_all_unlocked [OF open_lock HandleInit_ok(1) room assms(1)]
  from all free HandleInit_ok(2) show ?thesis
    by (simp add: Findname_find split: option.splits)
qed

theorem names_are_a_map_witness:
  "HandleFindname (fold (\<lambda>(k, v). enter_name k v)
     [(''logger'', 1), (''gate'', 2), (''harbor'', 3)] (HandleInit 1)) ''gate'' = Inr 2"
  using names_are_a_map [of "[(''logger'', 1), (''gate'', 2), (''harbor'', 3)]" 1 "''gate''"]
  by (simp add: kMaxSlotSize_def)

text \<open>Registering a name that is taken answers the empty name and leaves the storage locked for
  writing: from then on every lookup of a name or of a handle waits for ever.\<close>

theorem taken_name_locks:
  assumes "storage_inv s" and "find_name s name = Some h"
  shows "\<exists>s'. HandleNamehandle s handle name = Inr ([], s') \<and> names s' = names s \<and>
    HandleFindname s' other = Inl Deadlock \<and> HandleGrab gh s' any = Inl Deadlock"
proof -
  from assms(2) obtain n where "name_search (hs_name s) name 0 (hs_name_count s - 1) = Inr (Inl n)"
    by (auto simp: find_name_def split: sum.splits)
  then have "HandleNamehandle s handle name = Inr ([], wlock s)"
    by (simp add: HandleNamehandle_def Let_def wlock_def)
  then show ?thesis
    by (intro exI [of _ "wlock s"])
      (simp add: names_def wlock_def HandleFindname_def HandleGrab_def rlock_def)
qed

theorem taken_name_locks_witness:
  "\<exists>s'. HandleNamehandle (enter_name ''gate'' 2 (HandleInit 1)) 5 ''gate'' = Inr ([], s') \<and>
    names s' = names (enter_name ''gate'' 2 (HandleInit 1)) \<and>
    HandleFindname s' ''logger'' = Inl Deadlock \<and> HandleGrab (\<lambda>_. 0) s' 2 = Inl Deadlock"
proof -
  have room: "name_room (Suc 0) (HandleInit 1)"
    by (simp add: name_room_def HandleInit_def kMaxSlotSize_def)
  note e = enter_name_map [OF HandleInit_ok(1) room HandleInit_ok(2), where name = "''gate''" and handle = 2]
  show ?thesis by (rule taken_name_locks [OF e(1), of _ 2]) (simp add: e(3))
qed

end
