(* ===== verification/HandleSlots.thy ===== *)
theory HandleSlots
  imports HandleFacts
begin

text \<open>
  Properties of the slots of the handle storage: registration, lookup by handle, retirement.
\<close>

section \<open>Hashing\<close>

definition slots_ok :: "handle_storage \<Rightarrow> bool" where
  "slots_ok s \<longleftrightarrow> (\<exists>k \<le> 24. length (hs_slot s) = 2 ^ k)"

lemma slot_hash_mod:
  assumes "k \<le> 24"
  shows "slot_hash handle (2 ^ k) = unat handle mod 2 ^ k"
proof -
  have "(of_nat (2 ^ k) - 1 :: u64) = mask k" by (simp add: mask_eq_exp_minus_1)
  then have "slot_hash handle (2 ^ k) = unat (take_bit k (ucast handle :: u64))"
    by (simp add: slot_hash_def take_bit_eq_mask)
  also have "\<dots> = take_bit k (unat (ucast handle :: u64))" by (simp add: unsigned_take_bit_eq)
  also have "unat (ucast handle :: u64) = unat handle"
    by (simp add: unsigned_ucast_eq take_bit_nat_eq_self_iff) (use unsigned_less [of handle, where ?'a = nat] in simp)
  finally show ?thesis by (simp add: take_bit_eq_mod)
qed

lemma slot_hash_less: "slots_ok s \<Longrightarrow> slot_hash handle (length (hs_slot s)) < length (hs_slot s)"
  by (auto simp: slots_ok_def slot_hash_mod)

text \<open>The harbor id in the high 8 bits takes no part.\<close>

lemma unat_or_high: "unat (h OR push_bit 24 w) mod 2 ^ 24 = unat (h :: u32) mod 2 ^ 24"
proof -
  have "take_bit 24 (h OR push_bit 24 w) = take_bit 24 h"
    by (rule bit_eqI) (auto simp: bit_simps)
  then have "unat (take_bit 24 (h OR push_bit 24 w)) = unat (take_bit 24 h)" by (simp only:)
  then show ?thesis by (simp only: unsigned_take_bit_eq) (simp only: take_bit_eq_mod)
qed

lemma slot_hash_or:
  assumes "k \<le> 24"
  shows "slot_hash (h OR push_bit 24 w) (2 ^ k) = slot_hash h (2 ^ k)"
proof -
  have "(2::nat) ^ k dvd 2 ^ 24" using assms by (rule le_imp_power_dvd)
  then show ?thesis
    using unat_or_high [of h w] by (metis mod_mod_cancel slot_hash_mod [OF assms])
qed

section \<open>Registration\<close>

lemma scan_free: "register_scan slot k handle = Some h \<Longrightarrow> slot ! slot_hash h (length slot) = None"
  by (induction slot k handle rule: register_scan.induct) (auto simp: Let_def split: if_splits)

lemma register_scan_finds:
  assumes "length slot = 2 ^ m" and "m \<le> 24" and "unat handle + k \<le> 2 ^ 24"
    and "j < k" and "slot ! ((unat handle + j) mod 2 ^ m) = None"
  shows "\<exists>h. register_scan slot k handle = Some h"
  using assms(3-)
proof (induction k arbitrary: handle j)
  case (Suc k)
  have le: "\<not> unat handle > handle_mask" using Suc.prems(1) by (simp add: handle_mask_def)
  show ?case
  proof (cases "slot ! slot_hash handle (length slot) = None")
    case True
    then show ?thesis using le by (simp add: Let_def)
  next
    case False
    then obtain i where j: "j = Suc i"
      using Suc.prems(3) assms(1) slot_hash_mod [OF assms(2), of handle] by (cases j) auto
    then have "unat (handle + 1) = unat handle + 1"
      using Suc.prems(1,2) by (simp add: unat_word_ariths)
    with Suc.IH [of "handle + 1" i] Suc.prems j have "\<exists>h. register_scan slot k (handle + 1) = Some h"
      by simp
    then show ?thesis using False le by (simp add: Let_def)
  qed
qed simp

lemma residue_hit: "i < n \<Longrightarrow> \<exists>j < n. (a + j) mod n = i" for n :: nat
proof -
  assume "i < n"
  define j where "j = (i + n - a mod n) mod n"
  have "(a + j) mod n = (a mod n + (i + n - a mod n)) mod n" by (simp add: j_def mod_simps)
  also have "\<dots> = i" using \<open>i < n\<close> by (simp add: le_diff_conv2 less_imp_le_nat mod_less_divisor trans_le_add2)
  finally show ?thesis using \<open>i < n\<close> by (intro exI [of _ j]) (simp add: j_def)
qed

text \<open>Registering takes a free slot, gives a handle that leads to it, and releases the lock.\<close>

lemma register_ok:
  assumes "slots_ok s" and "i < length (hs_slot s)" and "hs_slot s ! i = None"
    and "unat (hs_handle_index s) + length (hs_slot s) \<le> 2 ^ 24" and "hs_harbor s = push_bit 24 w"
  shows "\<exists>h s'. HandleRegister gh s c = Inr (h, s') \<and>
    hs_slot s ! slot_hash h (length (hs_slot s)) = None \<and>
    hs_slot s' = (hs_slot s)[slot_hash h (length (hs_slot s)) := Some c] \<and> \<not> hs_write s'"
proof -
  obtain m where m: "m \<le> 24" "length (hs_slot s) = 2 ^ m" using assms(1) by (auto simp: slots_ok_def)
  obtain j where "j < 2 ^ m" "(unat (hs_handle_index s) + j) mod 2 ^ m = i"
    using residue_hit [of i "2 ^ m"] assms(2) m by auto
  then obtain h where h: "register_scan (hs_slot s) (length (hs_slot s)) (hs_handle_index s) = Some h"
    using register_scan_finds [OF m(2,1), of "hs_handle_index s" "2 ^ m" j] assms(3,4) m(2) by auto
  have hash: "slot_hash (h OR hs_harbor s) (length (hs_slot s)) = slot_hash h (length (hs_slot s))"
    using slot_hash_or [OF m(1)] assms(5) m(2) by simp
  show ?thesis
    using h scan_free [OF h] hash unfolding HandleRegister_def
    by (subst register_loop.simps) (simp add: wlock_def wunlock_def Let_def)
qed

text \<open>C21 A service is registered under a handle that was free, and is found under it: right after the
  caller has stored the handle in the context, \<open>HandleGrab\<close> with that handle returns the context,
  and every context that could be grabbed before can still be grabbed with its own handle.\<close>

theorem register_then_grab:
  assumes "slots_ok s" and "i < length (hs_slot s)" and "hs_slot s ! i = None"
    and "unat (hs_handle_index s) + length (hs_slot s) \<le> 2 ^ 24" and "hs_harbor s = push_bit 24 w"
    and "\<not> hs_write s"
  shows "\<exists>h s'. HandleRegister gh s c = Inr (h, s') \<and> HandleGrab gh s h = Inr None \<and>
    HandleGrab (gh(c := h)) s' h = Inr (Some c) \<and>
    (\<forall>d g. d \<noteq> c \<longrightarrow> HandleGrab gh s g = Inr (Some d) \<longrightarrow> HandleGrab (gh(c := h)) s' g = Inr (Some d))"
proof -
  obtain h s' where r: "HandleRegister gh s c = Inr (h, s')"
    "hs_slot s ! slot_hash h (length (hs_slot s)) = None"
    "hs_slot s' = (hs_slot s)[slot_hash h (length (hs_slot s)) := Some c]" "\<not> hs_write s'"
    using register_ok [OF assms(1-5)] by blast
  note hash = slot_hash_less [OF assms(1)]
  have grab: "HandleGrab g t x = Inr (case hs_slot t ! slot_hash x (length (hs_slot t)) of
      None \<Rightarrow> None | Some e \<Rightarrow> if g e = x then Some e else None)"
    if "\<not> hs_write t" "slot_hash x (length (hs_slot t)) < length (hs_slot t)" for g t x
    using that by (simp add: HandleGrab_def rlock_def)
  have "HandleGrab gh s h = Inr None" using grab [OF assms(6) hash] r(2) by simp
  moreover have "HandleGrab (gh(c := h)) s' h = Inr (Some c)"
    using grab [OF r(4), of h] hash [of h] r(3) by simp
  moreover have "HandleGrab (gh(c := h)) s' g = Inr (Some d)"
    if "d \<noteq> c" "HandleGrab gh s g = Inr (Some d)" for d g
  proof -
    have "hs_slot s ! slot_hash g (length (hs_slot s)) = Some d" "gh d = g"
      using that(2) grab [OF assms(6) hash] by (auto split: option.splits if_splits)
    moreover from this(1) have "slot_hash g (length (hs_slot s)) \<noteq> slot_hash h (length (hs_slot s))"
      using r(2) by auto
    ultimately show ?thesis using grab [OF r(4), of g] hash [of g] r(3) that(1) by simp
  qed
  ultimately show ?thesis using r(1) by blast
qed

lemma Init_slots: "slots_ok (HandleInit harbor)" "length (hs_slot (HandleInit harbor)) = 4"
  by (auto simp: slots_ok_def HandleInit_def kDefaultSoltSize_def intro!: exI [of _ 2])

theorem register_then_grab_witness:
  "\<exists>h s'. HandleRegister (\<lambda>_. 0) (HandleInit 1) 10 = Inr (h, s') \<and>
    HandleGrab (\<lambda>_. 0) (HandleInit 1) h = Inr None \<and>
    HandleGrab ((\<lambda>_. 0)(10 := h)) s' h = Inr (Some 10) \<and>
    (\<forall>d g. d \<noteq> 10 \<longrightarrow> HandleGrab (\<lambda>_. 0) (HandleInit 1) g = Inr (Some d) \<longrightarrow>
      HandleGrab ((\<lambda>_. 0)(10 := h)) s' g = Inr (Some d))"
  by (rule register_then_grab [OF Init_slots(1), of 0 _ "word_of_int (1 AND 0xff)"])
    (simp_all add: HandleInit_def kDefaultSoltSize_def)

lemma scan_full:
  "(\<And>h. slot ! slot_hash h (length slot) \<noteq> None) \<Longrightarrow> register_scan slot k handle = None"
  by (induction slot k handle rule: register_scan.induct) (auto simp: Let_def)

lemma register_full:
  assumes "slots_ok s" and "\<And>i. i < length (hs_slot s) \<Longrightarrow> hs_slot s ! i \<noteq> None"
  shows "HandleRegister gh s c = Inl AssertionFailed"
proof -
  have full: "hs_slot s ! slot_hash h (length (hs_slot s)) \<noteq> None" for h
    using assms slot_hash_less by blast
  then have scan: "register_scan (hs_slot s) (length (hs_slot s)) (hs_handle_index s) = None"
    by (rule scan_full)
  have pos: "0 < length (hs_slot s)" using assms(1) by (auto simp: slots_ok_def)
  then obtain d where "hs_slot s ! 0 = Some d" using assms(2) [of 0] by blast
  moreover from pos have "[0 ..< length (hs_slot s)] = 0 # [1 ..< length (hs_slot s)]"
    by (simp add: upt_conv_Cons)
  ultimately have "rehash gh (hs_slot s) [0 ..< length (hs_slot s)] new = Inl AssertionFailed" for new
    using full [of "gh d"] by (simp add: Let_def)
  then show ?thesis using scan unfolding HandleRegister_def
    by (subst register_loop.simps) (simp add: wlock_def Let_def)
qed

lemma register_first:
  assumes "length (hs_slot s) \<noteq> 0" and "unat (hs_handle_index s) \<le> handle_mask"
    and "slot_hash (hs_handle_index s) (length (hs_slot s)) = n" and "hs_slot s ! n = None"
    and "\<not> hs_write s"
  shows "HandleRegister gh s c = Inr (hs_handle_index s OR hs_harbor s,
     s\<lparr>hs_slot := (hs_slot s)[n := Some c], hs_handle_index := hs_handle_index s + 1\<rparr>)"
proof -
  obtain k where k: "length (hs_slot s) = Suc k" using assms(1) by (cases "length (hs_slot s)") auto
  then have "register_scan (hs_slot s) (length (hs_slot s)) (hs_handle_index s) = Some (hs_handle_index s)"
    using assms(2,3,4) by (simp add: Let_def)
  then show ?thesis using assms(3,5) unfolding HandleRegister_def
    by (subst register_loop.simps) (simp add: wlock_def wunlock_def Let_def)
qed

text \<open>The registrations of a list of contexts, one after the other.\<close>

fun register_all :: "(ctx \<Rightarrow> u32) \<Rightarrow> handle_storage \<Rightarrow> ctx list \<Rightarrow> (u32 list \<times> handle_storage) res" where
  "register_all gh s [] = Inr ([], s)"
| "register_all gh s (c # cs) =
     bindR (HandleRegister gh s c) (\<lambda>(h, s').
     bindR (register_all gh s' cs) (\<lambda>(hs, s''). Inr (h # hs, s'')))"

text \<open>The slots can never be enlarged: four registrations succeed after the start, with the handles
  1 to 4 of the harbor, and the fifth fails the assertion that looks at the old slots while they
  are moved to the new ones.\<close>

theorem fifth_registration_asserts:
  "\<exists>s. register_all gh (HandleInit harbor) [a, b, c, d] =
      Inr (map (\<lambda>h. h OR hs_harbor (HandleInit harbor)) [1, 2, 3, 4], s) \<and>
    HandleRegister gh s e = Inl AssertionFailed"
proof -
  have h: "slot_hash 1 4 = 1" "slot_hash 2 4 = 2" "slot_hash 3 4 = 3" "slot_hash 4 4 = 0"
    using slot_hash_mod [of 2] by simp_all
  let ?i = "HandleInit harbor"
  define st where "st xs k = ?i\<lparr>hs_slot := xs, hs_handle_index := k\<rparr>" for xs k
  define s where "s = st [Some d, Some a, Some b, Some c] 5"
  have step: "HandleRegister gh (st xs k) x = Inr (k OR hs_harbor ?i, st (xs[n := Some x]) (k + 1))"
    if "length xs = 4" "unat k \<le> handle_mask" "slot_hash k 4 = n" "xs ! n = None" for xs k x n
    using that by (subst register_first [where n = n]) (auto simp: st_def HandleInit_def)
  have init: "?i = st [None, None, None, None] 1"
    by (simp add: st_def HandleInit_def kDefaultSoltSize_def numeral_eq_Suc)
  have "register_all gh (st [None, None, None, None] 1) [a, b, c, d] =
      Inr (map (\<lambda>h. h OR hs_harbor ?i) [1, 2, 3, 4], s)"
    by (simp add: step [where n = 1] step [where n = 2] step [where n = 3] step [where n = 0] h
        handle_mask_def s_def)
  then have "register_all gh ?i [a, b, c, d] = Inr (map (\<lambda>h. h OR hs_harbor ?i) [1, 2, 3, 4], s)"
    by (simp only: init [symmetric])
  moreover have "HandleRegister gh s e = Inl AssertionFailed"
  proof (rule register_full)
    show "slots_ok s" by (auto simp: slots_ok_def s_def st_def intro!: exI [of _ 2])
    show "hs_slot s ! i \<noteq> None" if "i < length (hs_slot s)" for i
      using that by (auto simp: s_def st_def less_Suc_eq)
  qed
  ultimately show ?thesis by blast
qed

end
