(* ===== verification/HandleRetire.thy ===== *)
theory HandleRetire
  imports HandleSlots
begin

text \<open>
  Properties of retirement: a retired handle disappears from the slots and from the names,
  \<open>HandleRetireall\<close> empties the storage when every context stands in the slot of its handle, and
  never returns when one does not.
\<close>

section \<open>The names of a retired handle\<close>

text \<open>The loop keeps the entries of other handles, in their order, at the front of the array.\<close>

lemma compact_names_ok:
  assumes "j \<le> i" and "i + k \<le> length xs"
  shows "\<exists>ys. compact_names h xs (int i) (int j) k =
      Inr (ys, int (j + length (filter (\<lambda>n. hn_handle n \<noteq> h) (take k (drop i xs))))) \<and>
    length ys = length xs \<and>
    take (j + length (filter (\<lambda>n. hn_handle n \<noteq> h) (take k (drop i xs)))) ys =
      take j xs @ filter (\<lambda>n. hn_handle n \<noteq> h) (take k (drop i xs))"
  using assms
proof (induction k arbitrary: xs i j)
  case (Suc k)
  let ?keep = "\<lambda>n. hn_handle n \<noteq> h"
  have i: "i < length xs" using Suc.prems by simp
  then have front: "take (Suc k) (drop i xs) = xs ! i # take k (drop (Suc i) xs)"
    by (simp add: Cons_nth_drop_Suc [symmetric])
  have next_ints: "int i + 1 = int (Suc i)" "int j + 1 = int (Suc j)" by simp_all
  consider (drop) "hn_handle (xs ! i) = h" | (move) "?keep (xs ! i)" "i \<noteq> j" | (keep) "?keep (xs ! i)" "i = j"
    by blast
  then show ?case
  proof cases
    case drop
    let ?xs = "xs[i := (xs ! i)\<lparr>hn_name := []\<rparr>]"
    have same: "drop (Suc i) ?xs = drop (Suc i) xs" "take j ?xs = take j xs"
      using Suc.prems(1) by simp_all
    have "compact_names h xs (int i) (int j) (Suc k) = compact_names h ?xs (int (Suc i)) (int j) k"
      using drop i by (simp del: of_nat_Suc add: next_ints)
    with Suc.IH [of j "Suc i" ?xs] Suc.prems drop show ?thesis
      by (simp del: of_nat_Suc compact_names.simps add: front same)
  next
    case move
    let ?xs = "xs[j := xs ! i]"
    have same: "drop (Suc i) ?xs = drop (Suc i) xs" "take (Suc j) ?xs = take j xs @ [xs ! i]"
      using Suc.prems i by (simp_all add: take_Suc_conv_app_nth)
    have "compact_names h xs (int i) (int j) (Suc k) = compact_names h ?xs (int (Suc i)) (int (Suc j)) k"
      using move i Suc.prems by (simp del: of_nat_Suc add: next_ints)
    with Suc.IH [of "Suc j" "Suc i" ?xs] Suc.prems move show ?thesis
      by (simp del: of_nat_Suc compact_names.simps add: front same)
  next
    case keep
    have "take (Suc j) xs = take j xs @ [xs ! i]" using i keep by (simp add: take_Suc_conv_app_nth)
    moreover have "compact_names h xs (int i) (int j) (Suc k) = compact_names h xs (int (Suc i)) (int (Suc j)) k"
      using keep i by (simp del: of_nat_Suc add: next_ints)
    ultimately show ?thesis using Suc.IH [of "Suc j" "Suc i" xs] Suc.prems keep
      by (simp del: of_nat_Suc compact_names.simps add: front [unfolded keep(2)])
  qed
qed simp

lemma sorted_filter: "sorted_names ns \<Longrightarrow> sorted_names (filter P ns)"
  unfolding sorted_names_def by (rule sorted_wrt_filter)

lemma map_of_filter_names:
  assumes "sorted_names ns"
  shows "map_of (name_map (filter (\<lambda>n. hn_handle n \<noteq> h) ns)) x =
    (if map_of (name_map ns) x = Some h then None else map_of (name_map ns) x)"
proof (cases "map_of (name_map ns) x")
  case None
  then have "map_of (name_map (filter (\<lambda>n. hn_handle n \<noteq> h) ns)) x = None"
    by (auto simp: name_map_def map_of_eq_None_iff)
  with None show ?thesis by simp
next
  case (Some v)
  then obtain e where e: "e \<in> set ns" "hn_name e = x" "hn_handle e = v"
    by (auto simp: name_map_def dest!: map_of_SomeD)
  show ?thesis
  proof (cases "v = h")
    case True
    have "hn_handle e' = h" if "e' \<in> set ns" "hn_name e' = x" for e'
      using map_of_names [OF assms that(1)] that(2) Some True by simp
    then show ?thesis using Some True by (auto simp: name_map_def map_of_eq_None_iff)
  next
    case False
    then have "e \<in> set (filter (\<lambda>n. hn_handle n \<noteq> h) ns)" using e by simp
    from map_of_names [OF sorted_filter [OF assms] this] show ?thesis using e Some False by simp
  qed
qed

section \<open>Retiring one handle\<close>

lemma Retire_hit:
  assumes "storage_inv s" and "slots_ok s"
    and "hs_slot s ! slot_hash h (length (hs_slot s)) = Some c" and "gh c = h"
  shows "\<exists>s'. HandleRetire gh s h = Inr (1, Some c, s') \<and> storage_inv s' \<and> \<not> hs_write s' \<and>
    names s' = filter (\<lambda>n. hn_handle n \<noteq> h) (names s) \<and>
    hs_slot s' = (hs_slot s)[slot_hash h (length (hs_slot s)) := None]"
proof -
  let ?F = "filter (\<lambda>n. hn_handle n \<noteq> h) (names s)" and ?n = "nat (hs_name_count s)"
  have inv: "names_inv s" "capacity_ok s" using assms(1) by (simp_all add: storage_inv_def)
  have n: "0 + ?n \<le> length (hs_name s)" using inv(1) by (auto simp: names_inv_def)
  obtain ys where ys: "compact_names h (hs_name s) 0 0 ?n = Inr (ys, int (length ?F))"
    "length ys = length (hs_name s)" "take (length ?F) ys = ?F"
    using compact_names_ok [OF _ n, of 0 h] by (auto simp: names_def)
  define s' where "s' = wunlock ((wlock s)\<lparr>hs_slot := (hs_slot s)[slot_hash h (length (hs_slot s)) := None],
    hs_name := ys, hs_name_count := int (length ?F)\<rparr>)"
  have "HandleRetire gh s h = Inr (1, Some c, s')"
    using ys(1) assms(3,4) slot_hash_less [OF assms(2)]
    by (simp add: HandleRetire_def Let_def wlock_def s'_def)
  moreover have nm: "names s' = ?F" using ys(3) by (simp add: names_def s'_def wunlock_def wlock_def)
  moreover have "length ?F \<le> length (hs_name s)"
    using n length_filter_le [of "\<lambda>n. hn_handle n \<noteq> h" "names s"] by (simp add: names_def)
  then have "names_inv s'"
    using inv(1) nm ys(2) sorted_filter [of "names s"] length_greater_0_conv [of ys]
    by (simp add: names_inv_def) (simp add: s'_def wunlock_def wlock_def)
  moreover have "capacity_ok s'" using inv(2) ys(2) by (simp add: capacity_ok_def s'_def wunlock_def wlock_def)
  ultimately show ?thesis by (simp add: storage_inv_def) (simp add: s'_def wunlock_def wlock_def)
qed

lemma Retire_miss:
  assumes "slots_ok s" and "\<And>c. hs_slot s ! slot_hash h (length (hs_slot s)) = Some c \<Longrightarrow> gh c \<noteq> h"
  shows "HandleRetire gh s h = Inr (0, None, s\<lparr>hs_write := False\<rparr>)"
  using assms(2) slot_hash_less [OF assms(1), of h]
  by (cases "hs_slot s ! slot_hash h (length (hs_slot s))")
    (auto simp: HandleRetire_def Let_def wlock_def wunlock_def)

lemma storage_inv_write: "storage_inv (s\<lparr>hs_write := b\<rparr>) = storage_inv s"
  by (simp add: storage_inv_def names_inv_def names_def capacity_ok_def)


section \<open>Retiring everything\<close>

lemma Retireall_step: "HandleRetireall gh s acc =
    (case retire_sweep gh [0 ..< length (hs_slot s)] s of
       Inl e \<Rightarrow> Some (Inl e)
     | Inr (n, cs, s') \<Rightarrow> if n = 0 then Some (Inr (acc @ cs, s')) else HandleRetireall gh s' (acc @ cs))"
  by (subst HandleRetireall.simps) (auto split: sum.splits)

text \<open>Every context stands in the slot that its handle leads to.\<close>

definition placed :: "(ctx \<Rightarrow> u32) \<Rightarrow> handle_storage \<Rightarrow> bool" where
  "placed gh s \<longleftrightarrow> (\<forall>i < length (hs_slot s). \<forall>c. hs_slot s ! i = Some c \<longrightarrow>
     gh c \<noteq> 0 \<and> slot_hash (gh c) (length (hs_slot s)) = i)"

definition present :: "ctx option list \<Rightarrow> ctx list" where
  "present slots = map the (filter (\<lambda>c. c \<noteq> None) slots)"

lemma sweep_placed:
  assumes "storage_inv s" and "slots_ok s" and "\<not> hs_write s" and "placed gh s"
    and "i \<le> length (hs_slot s)" and "\<And>j. j < i \<Longrightarrow> hs_slot s ! j = None"
  shows "\<exists>s'. retire_sweep gh [i ..< length (hs_slot s)] s =
      Inr (length (present (drop i (hs_slot s))), present (drop i (hs_slot s)), s') \<and>
    storage_inv s' \<and> slots_ok s' \<and> \<not> hs_write s' \<and> hs_slot s' = replicate (length (hs_slot s)) None"
  using assms
proof (induction "length (hs_slot s) - i" arbitrary: s i)
  case 0
  then have "i = length (hs_slot s)" by simp
  then show ?case using 0 by (auto simp: present_def list_eq_iff_nth_eq)
next
  case (Suc k)
  let ?n = "length (hs_slot s)"
  have i: "i < ?n" "[i ..< ?n] = i # [Suc i ..< ?n]" using Suc.hyps(2) by (simp_all add: upt_conv_Cons)
  have split: "drop i (hs_slot s) = hs_slot s ! i # drop (Suc i) (hs_slot s)"
    using i(1) by (simp add: Cons_nth_drop_Suc)
  show ?case
  proof (cases "hs_slot s ! i")
    case None
    have "\<exists>s'. retire_sweep gh [Suc i ..< ?n] s =
        Inr (length (present (drop (Suc i) (hs_slot s))), present (drop (Suc i) (hs_slot s)), s') \<and>
      storage_inv s' \<and> slots_ok s' \<and> \<not> hs_write s' \<and> hs_slot s' = replicate ?n None"
      using Suc.prems Suc.hyps(2) None i(1)
      by (intro Suc.hyps(1)) (auto simp: less_Suc_eq)
    then show ?thesis using None Suc.prems(3) i by (simp add: split rlock_def present_def)
  next
    case (Some c)
    have hash: "gh c \<noteq> 0" "slot_hash (gh c) ?n = i" using Suc.prems(4) i(1) Some by (auto simp: placed_def)
    obtain t where t: "HandleRetire gh s (gh c) = Inr (1, Some c, t)" "storage_inv t" "\<not> hs_write t"
      "hs_slot t = (hs_slot s)[i := None]"
      using Retire_hit [OF Suc.prems(1,2), of "gh c" c gh] Some hash(2) by auto
    have "hs_slot s ! j = Some e" if "hs_slot t ! j = Some e" "j < ?n" for j e
      using that by (cases "j = i") (auto simp: t(4))
    then have "placed gh t" using Suc.prems(4) by (auto simp: placed_def t(4))
    then have "\<exists>s'. retire_sweep gh [Suc i ..< length (hs_slot t)] t =
        Inr (length (present (drop (Suc i) (hs_slot t))), present (drop (Suc i) (hs_slot t)), s') \<and>
      storage_inv s' \<and> slots_ok s' \<and> \<not> hs_write s' \<and> hs_slot s' = replicate (length (hs_slot t)) None"
      using Suc.prems Suc.hyps(2) t i(1)
      by (intro Suc.hyps(1)) (auto simp: less_Suc_eq slots_ok_def)
    then show ?thesis using Some Suc.prems(3) i t hash(1) by (auto simp: split rlock_def present_def)
  qed
qed

text \<open>A context that its handle does not lead to stays in its slot through every sweep.\<close>

definition misplaced :: "(ctx \<Rightarrow> u32) \<Rightarrow> nat \<Rightarrow> ctx \<Rightarrow> handle_storage \<Rightarrow> bool" where
  "misplaced gh i c s \<longleftrightarrow> storage_inv s \<and> slots_ok s \<and> \<not> hs_write s \<and> i < length (hs_slot s) \<and>
     hs_slot s ! i = Some c \<and> slot_hash (gh c) (length (hs_slot s)) \<noteq> i"

lemma Retire_misplaced:
  assumes "misplaced gh i c s"
  shows "\<exists>n r s'. HandleRetire gh s h = Inr (n, r, s') \<and> misplaced gh i c s' \<and>
    length (hs_slot s') = length (hs_slot s)"
proof (cases "\<exists>d. hs_slot s ! slot_hash h (length (hs_slot s)) = Some d \<and> gh d = h")
  case True
  then obtain d where d: "hs_slot s ! slot_hash h (length (hs_slot s)) = Some d" "gh d = h" by blast
  then have "slot_hash h (length (hs_slot s)) \<noteq> i" using assms by (auto simp: misplaced_def)
  moreover obtain s' where "HandleRetire gh s h = Inr (1, Some d, s')" "storage_inv s'" "\<not> hs_write s'"
    "hs_slot s' = (hs_slot s)[slot_hash h (length (hs_slot s)) := None]"
    using Retire_hit [of s h d gh, OF _ _ d] assms by (auto simp: misplaced_def)
  ultimately show ?thesis using assms by (auto simp: misplaced_def slots_ok_def)
next
  case False
  with assms show ?thesis
    by (subst Retire_miss) (auto simp: misplaced_def storage_inv_write slots_ok_def)
qed

lemma sweep_misplaced:
  assumes "misplaced gh i c s" and "set is \<subseteq> {..< length (hs_slot s)}"
  shows "\<exists>n cs s'. retire_sweep gh is s = Inr (n, cs, s') \<and> misplaced gh i c s' \<and> (i \<in> set is \<longrightarrow> 0 < n)"
  using assms
proof (induction "is" arbitrary: s)
  case (Cons k ks)
  have k: "rlock s = Inr ()" "k < length (hs_slot s)"
    using Cons.prems by (auto simp: misplaced_def rlock_def)
  show ?case
  proof (cases "hs_slot s ! k")
    case None
    moreover have "k \<noteq> i" using None Cons.prems(1) by (auto simp: misplaced_def)
    ultimately show ?thesis using Cons k by auto
  next
    case (Some d)
    obtain n r t where t: "(if gh d \<noteq> 0 then HandleRetire gh s (gh d) else Inr (0, None, s)) = Inr (n, r, t)"
      "misplaced gh i c t" "length (hs_slot t) = length (hs_slot s)"
      using Retire_misplaced [OF Cons.prems(1), of "gh d"] Cons.prems(1) by (cases "gh d = 0") auto
    obtain m cs s' where "retire_sweep gh ks t = Inr (m, cs, s')" "misplaced gh i c s'"
      using Cons.IH [OF t(2)] Cons.prems(2) t(3) by auto
    then show ?thesis using Some k t(1) by simp
  qed
qed simp

lemma Retireall_misplaced: "misplaced gh i c s \<Longrightarrow> HandleRetireall gh s acc = None"
proof -
  have "\<forall>i c. \<not> misplaced gh i c s" if "HandleRetireall gh s acc = Some r" for r
  proof (rule HandleRetireall.raw_induct [where P = "\<lambda>gh s acc r. \<forall>i c. \<not> misplaced gh i c s", OF _ that])
    fix rec gh s acc r
    assume IH: "\<And>gh s acc r. rec gh s acc = Some r \<Longrightarrow> \<forall>i c. \<not> misplaced gh i c s"
      and run: "(case retire_sweep gh [0 ..< length (hs_slot s)] s of Inl e \<Rightarrow> Some (Inl e)
        | Inr (n, cs, s') \<Rightarrow> if n = 0 then Some (Inr (acc @ cs, s')) else rec gh s' (acc @ cs)) = Some r"
    show "\<forall>i c. \<not> misplaced gh i c s"
    proof (intro allI notI)
      fix i c assume m: "misplaced gh i c s"
      then have "i \<in> set [0 ..< length (hs_slot s)]" by (simp add: misplaced_def)
      with sweep_misplaced [OF m, of "[0 ..< length (hs_slot s)]"] obtain n cs s' where
        sw: "retire_sweep gh [0 ..< length (hs_slot s)] s = Inr (n, cs, s')" "misplaced gh i c s'" "0 < n"
        by (auto simp: atLeast0LessThan)
      with run have "rec gh s' (acc @ cs) = Some r" by simp
      with IH sw(2) show False by blast
    qed
  qed
  then show "misplaced gh i c s \<Longrightarrow> HandleRetireall gh s acc = None" by (metis option.exhaust)
qed

text \<open>C23 When every context stands in the slot of its handle, \<open>HandleRetireall\<close> ends after one sweep that
  releases the contexts in the order of the slots and a second one that finds none.\<close>

theorem retireall_empties:
  assumes "storage_inv s" and "slots_ok s" and "\<not> hs_write s" and "placed gh s"
  shows "\<exists>s'. HandleRetireall gh s [] = Some (Inr (present (hs_slot s), s')) \<and>
    hs_slot s' = replicate (length (hs_slot s)) None \<and> \<not> hs_write s'"
proof -
  obtain t where t: "retire_sweep gh [0 ..< length (hs_slot s)] s =
      Inr (length (present (hs_slot s)), present (hs_slot s), t)"
    "storage_inv t" "slots_ok t" "\<not> hs_write t" "hs_slot t = replicate (length (hs_slot s)) None"
    using sweep_placed [OF assms, of 0] by auto
  have "placed gh t" using t(5) by (simp add: placed_def)
  moreover have none: "present (hs_slot t) = []" by (simp add: t(5) present_def)
  ultimately obtain u where u: "retire_sweep gh [0 ..< length (hs_slot t)] t = Inr (0, [], u)"
    "\<not> hs_write u" "hs_slot u = replicate (length (hs_slot t)) None"
    using sweep_placed [OF t(2-4), of gh 0] by auto
  show ?thesis
  proof (cases "present (hs_slot s) = []")
    case True
    then show ?thesis by (subst Retireall_step) (use t in auto)
  next
    case False
    have "HandleRetireall gh t (present (hs_slot s)) = Some (Inr (present (hs_slot s), u))"
      by (subst Retireall_step) (simp add: u(1))
    then have "HandleRetireall gh s [] = Some (Inr (present (hs_slot s), u))"
      by (subst Retireall_step) (simp add: t(1) False)
    then show ?thesis using u(2,3) t(5) by simp
  qed
qed

text \<open>A context that is registered a second time stands in a slot that its new handle does not lead
  to. As long as it is alive, \<open>HandleRetireall\<close> never returns.\<close>

theorem retireall_stuck:
  assumes "storage_inv s" and "slots_ok s" and "\<not> hs_write s" and "i < length (hs_slot s)"
    and "hs_slot s ! i = Some c" and "slot_hash (gh c) (length (hs_slot s)) \<noteq> i"
  shows "HandleRetireall gh s acc = None"
  using assms by (intro Retireall_misplaced [of gh i c]) (simp add: misplaced_def)

section \<open>Witnesses\<close>

text \<open>One service, registered as 0x01000001, with the name \<open>gate\<close>; and one registered twice.\<close>

definition one_service :: handle_storage where
  "one_service = enter_name ''gate'' 0x1000001
     ((HandleInit 1)\<lparr>hs_slot := [None, Some 7, None, None], hs_handle_index := 2\<rparr>)"

lemma free_init: "find_name ((HandleInit 1)\<lparr>hs_slot := xs, hs_handle_index := k\<rparr>) name = None"
  using HandleInit_ok(2) [of 1 name] by (simp add: find_name_def)

lemma init_inv: "storage_inv ((HandleInit 1)\<lparr>hs_slot := xs, hs_handle_index := k\<rparr>)"
  using HandleInit_ok(1) [of 1] by (simp add: storage_inv_def names_inv_def names_def capacity_ok_def)

lemma one_service: "storage_inv one_service" "slots_ok one_service" "\<not> hs_write one_service"
    "hs_slot one_service = [None, Some 7, None, None]" "slot_hash 0x1000001 4 = 1"
    "HandleFindname one_service ''gate'' = Inr 0x1000001"
proof -
  let ?s = "(HandleInit 1)\<lparr>hs_slot := [None, Some 7, None, None], hs_handle_index := 2\<rparr>"
  have room: "name_room (Suc 0) ?s" by (simp add: name_room_def HandleInit_def kMaxSlotSize_def)
  have unl: "\<not> hs_write ?s" by (simp add: HandleInit_def)
  have lt: "hs_name_count ?s < int kMaxSlotSize" using room by (simp add: name_room_def)
  obtain t p where t: "HandleNamehandle ?s 0x1000001 ''gate'' = Inr (''gate'', t)" "\<not> hs_write t"
    "hs_slot t = hs_slot ?s"
    using enter_name_ok [OF _ _ lt free_init] init_inv unfolding storage_inv_def by blast
  have st: "one_service = t" by (simp add: one_service_def enter_name_def t(1))
  show inv: "storage_inv one_service" unfolding one_service_def
    by (rule enter_name_map(1) [OF init_inv room free_init])
  show w: "\<not> hs_write one_service" and sl: "hs_slot one_service = [None, Some 7, None, None]"
    using t by (simp_all add: st)
  show "slots_ok one_service" using sl by (auto simp: slots_ok_def intro!: exI [of _ 2])
  show "slot_hash 0x1000001 4 = 1" using slot_hash_mod [of 2 "0x1000001"] by simp
  have "find_name one_service ''gate'' = Some 0x1000001" unfolding one_service_def
    using enter_name_map(3) [OF init_inv room free_init] by simp
  then show "HandleFindname one_service ''gate'' = Inr 0x1000001" using Findname_find [OF w inv] by simp
qed

lemma four: "Suc (Suc (Suc (Suc 0))) = 4" by simp


theorem retireall_empties_witness:
  "\<exists>s'. HandleRetireall (\<lambda>_. 0x1000001) one_service [] = Some (Inr ([7], s')) \<and>
    hs_slot s' = [None, None, None, None]"
proof -
  have "placed (\<lambda>_. 0x1000001) one_service"
    using one_service(4,5) by (auto simp: placed_def four nth_Cons split: nat.splits)
  from retireall_empties [OF one_service(1-3) this] one_service(4) show ?thesis
    by (auto simp: present_def numeral_eq_Suc)
qed

theorem retireall_stuck_witness:
  "HandleRetireall (\<lambda>_. 0x1000002) one_service [] = None"
proof (rule retireall_stuck [OF one_service(1-3), of 1 7])
  have "slot_hash 0x1000002 4 = 2" using slot_hash_mod [of 2 "0x1000002"] by simp
  then show "slot_hash 0x1000002 (length (hs_slot one_service)) \<noteq> 1" using one_service(4) by (simp add: four)
qed (simp_all add: one_service(4))

end
