(* ===== verification/Chain.thy ===== *)
theory Chain
  imports Prelude
begin

text \<open>
  Singly linked lists in a heap, as the run queue of \<open>skynet-src/mq.cpp\<close>, the buckets of
  \<open>skynet-src/timer.cpp\<close> and the write buffers of \<open>skynet-src/socket_server.cpp\<close> have them: nodes
  are addresses, the link of a node is a partial function, and a queue is a pointer to its first
  and one to its last node.
\<close>

section \<open>Segments\<close>

text \<open>The links lead from \<open>p\<close> through the nodes \<open>xs\<close> to the pointer \<open>r\<close>.\<close>

fun segment :: "('a \<Rightarrow> 'a option) \<Rightarrow> 'a option \<Rightarrow> 'a list \<Rightarrow> 'a option \<Rightarrow> bool" where
  "segment f p [] r = (p = r)"
| "segment f p (x # xs) r = (p = Some x \<and> segment f (f x) xs r)"

lemma segment_append: "segment f p (xs @ ys) r = (\<exists>q. segment f p xs q \<and> segment f q ys r)"
  by (induction xs arbitrary: p) auto

lemma segment_snoc: "segment f p (xs @ [x]) r = (segment f p xs (Some x) \<and> f x = r)"
  by (auto simp: segment_append)

lemma segment_cong: "(\<And>x. x \<in> set xs \<Longrightarrow> f x = g x) \<Longrightarrow> segment f p xs r = segment g p xs r"
  by (induction xs arbitrary: p) auto

lemma segment_None: "segment f None xs r \<longleftrightarrow> xs = [] \<and> r = None"
  by (cases xs) auto

text \<open>Reading a list from the heap, at most \<open>k\<close> nodes of it.\<close>

fun follow :: "('a \<Rightarrow> 'a option) \<Rightarrow> 'a option \<Rightarrow> nat \<Rightarrow> 'a list" where
  "follow f None k = []"
| "follow f (Some x) 0 = []"
| "follow f (Some x) (Suc k) = x # follow f (f x) k"

lemma follow_segment: "segment f p xs None \<Longrightarrow> length xs \<le> k \<Longrightarrow> follow f p k = xs"
proof (induction xs arbitrary: p k)
  case (Cons x xs)
  then show ?case by (cases k) auto
qed simp

section \<open>Queues\<close>

definition last_node :: "'a list \<Rightarrow> 'a option" where
  "last_node xs = (if xs = [] then None else Some (last xs))"

lemma last_node_simps [simp]:
  "last_node [] = None" "last_node (xs @ [x]) = Some x"
  "last_node xs = None \<longleftrightarrow> xs = []" "None = last_node xs \<longleftrightarrow> xs = []"
  by (auto simp: last_node_def)

lemma last_node_Some: "last_node xs = Some l \<longleftrightarrow> (\<exists>ys. xs = ys @ [l])"
  by (cases xs rule: rev_cases) (auto simp: last_node_def)

definition linked :: "('a \<Rightarrow> 'a option) \<Rightarrow> 'a option \<Rightarrow> 'a option \<Rightarrow> 'a list \<Rightarrow> bool" where
  "linked f first final xs \<longleftrightarrow> segment f first xs None \<and> distinct xs \<and> final = last_node xs"

lemma linked_Nil: "linked f first final [] \<longleftrightarrow> first = None \<and> final = None"
  by (simp add: linked_def)

lemma linked_first_None: "linked f None final xs \<longleftrightarrow> xs = [] \<and> final = None"
  by (auto simp: linked_def segment_None)

lemma linked_final_None: "linked f first None xs \<longleftrightarrow> xs = [] \<and> first = None"
  by (auto simp: linked_def)

lemma linked_ptr_cong: "(\<And>x. x \<in> set xs \<Longrightarrow> f x = g x) \<Longrightarrow> linked f p t xs = linked g p t xs"
  using segment_cong [of xs f g] by (simp add: linked_def)

lemma linked_push_empty: "f x = None \<Longrightarrow> linked f (Some x) (Some x) [x]"
  by (simp add: linked_def last_node_def)

lemma linked_push:
  assumes "linked f p (Some l) xs" and "x \<notin> set xs" and "g l = Some x" and "g x = None"
    and "\<And>y. y \<in> set xs \<Longrightarrow> y \<noteq> l \<Longrightarrow> g y = f y"
  shows "linked g p (Some x) (xs @ [x])"
proof -
  obtain ys where xs: "xs = ys @ [l]" using assms(1) by (auto simp: linked_def last_node_Some eq_commute)
  then have "segment f p ys (Some l)" "distinct xs" using assms(1) by (auto simp: linked_def segment_snoc)
  moreover have "f y = g y" if "y \<in> set ys" for y
    using assms(5) [of y, symmetric] calculation(2) that by (auto simp: xs)
  then have "segment f p ys (Some l) = segment g p ys (Some l)" by (rule segment_cong)
  ultimately show ?thesis using assms(2-4) by (auto simp: linked_def segment_append last_node_def xs)
qed

lemma linked_first: "linked f (Some x) t xs \<Longrightarrow> \<exists>ys. xs = x # ys"
  by (cases xs) (auto simp: linked_def)

lemma linked_tail:
  assumes "linked f p t (x # xs)"
  shows "p = Some x" and "linked f (f x) (if xs = [] then None else t) xs" and "x \<notin> set xs"
    and "f x = None \<longleftrightarrow> xs = []"
proof -
  show "p = Some x" "x \<notin> set xs" using assms by (auto simp: linked_def)
  show "linked f (f x) (if xs = [] then None else t) xs"
    using assms by (auto simp: linked_def last_node_def)
  show "f x = None \<longleftrightarrow> xs = []" using assms by (cases xs) (auto simp: linked_def)
qed

end
