(* ===== verification/Mq.thy ===== *)
theory Mq
  imports Harbor Chain
begin

text \<open>
  \<open>skynet-src/mq.cpp\<close>: the message queue of a service and the global run queue that links the
  message queues which have work. Message queues are addresses in a heap; the run queue is linked
  through their field \<open>next_\<close>. Every operation takes the spin locks it needs and gives them back
  before it ends, so one operation is one step of the model.
\<close>

section \<open>Data\<close>

text \<open>
  What the field \<open>data\<close> of a message points to: nothing, a copy of bytes, a socket message, a
  message for another node, or memory that is no longer there.
\<close>

datatype payload =
    NoData
  | Bytes "u8 list"
  | SocketMsg socket_message
  | RemoteMsg remote_message
  | Freed

record queue_message =
  msg_source :: u32
  msg_session :: int
  msg_data :: payload
  msg_sz :: u64

definition kMessageTypeMask :: u64 where "kMessageTypeMask = 0xffffffffffffff"
definition kMessageTypeShift :: nat where "kMessageTypeShift = 56"
definition kMqInGlobal :: int where "kMqInGlobal = 1"
definition kMqOverload :: int where "kMqOverload = 1024"

record message_queue =
  mq_handle :: u32
  mq_messages :: "queue_message list"
  mq_release :: bool
  mq_in_global :: int
  mq_overload :: int
  mq_threshold :: int
  mq_next :: "nat option"

text \<open>The heap of message queues, and \<open>kGlobalQueue\<close>.\<close>

record queues =
  qs_heap :: "nat \<Rightarrow> message_queue option"
  gq_head :: "nat option"
  gq_tail :: "nat option"

definition MessageQueue :: "u32 \<Rightarrow> message_queue" where
  "MessageQueue handle =
     \<lparr>mq_handle = handle, mq_messages = [], mq_release = False, mq_in_global = kMqInGlobal,
      mq_overload = 0, mq_threshold = kMqOverload, mq_next = None\<rparr>"

definition queues_init :: queues where
  "queues_init = \<lparr>qs_heap = (\<lambda>_. None), gq_head = None, gq_tail = None\<rparr>"

text \<open>Following a pointer to a message queue.\<close>

definition mq_at :: "queues \<Rightarrow> nat \<Rightarrow> message_queue res" where
  "mq_at s a = (case qs_heap s a of None \<Rightarrow> Inl DanglingPointer | Some q \<Rightarrow> Inr q)"

definition mq_set :: "nat \<Rightarrow> message_queue \<Rightarrow> queues \<Rightarrow> queues" where
  "mq_set a q s = s\<lparr>qs_heap := (qs_heap s)(a := Some q)\<rparr>"

definition mq_free :: "nat \<Rightarrow> queues \<Rightarrow> queues" where
  "mq_free a s = s\<lparr>qs_heap := (qs_heap s)(a := None)\<rparr>"

section \<open>The run queue\<close>

definition GlobalQueue_Push :: "nat \<Rightarrow> queues \<Rightarrow> queues res" where
  "GlobalQueue_Push a s =
     bindR (mq_at s a) (\<lambda>q.
     bindR (assertR (mq_next q = None)) (\<lambda>_.
       case gq_tail s of
         Some t \<Rightarrow>
           bindR (mq_at s t) (\<lambda>qt.
             Inr ((mq_set t (qt\<lparr>mq_next := Some a\<rparr>) s)\<lparr>gq_tail := Some a\<rparr>))
       | None \<Rightarrow> Inr (s\<lparr>gq_head := Some a, gq_tail := Some a\<rparr>)))"

definition GlobalQueue_Pop :: "queues \<Rightarrow> (nat option \<times> queues) res" where
  "GlobalQueue_Pop s =
     (case gq_head s of
        None \<Rightarrow> Inr (None, s)
      | Some a \<Rightarrow>
          bindR (mq_at s a) (\<lambda>q.
          bindR (if mq_next q = None
                 then bindR (assertR (Some a = gq_tail s)) (\<lambda>_. Inr (s\<lparr>gq_tail := None\<rparr>))
                 else Inr s) (\<lambda>s'.
            Inr (Some a, mq_set a (q\<lparr>mq_next := None\<rparr>) (s'\<lparr>gq_head := mq_next q\<rparr>)))))"

section \<open>The queue of a service\<close>

text \<open>
  \<open>while (size > overload_threshold_) ...\<close>. The threshold is positive: it starts at \<open>kMqOverload\<close> and
  is only doubled. An \<open>int\<close> that would pass \<open>2 ^ 31 - 1\<close> is a fault.
\<close>

function overload_loop :: "nat \<Rightarrow> int \<Rightarrow> int \<Rightarrow> (int \<times> int) res" where
  "overload_loop n overload threshold =
     (if 0 < threshold \<and> threshold < int n then
        if threshold * 2 \<ge> 2 ^ 31 then Inl SignedOverflow
        else overload_loop n (int n) (threshold * 2)
      else Inr (overload, threshold))"
  by pat_completeness auto
termination by (relation "measure (\<lambda>(n, _, threshold). nat (int n - threshold))") auto

declare overload_loop.simps [simp del]

text \<open>
  \<open>Pop\<close> returns a pointer: to the first message, which stays in the queue, or, when the queue is
  empty, the value of a variable that nothing was assigned to.
\<close>

datatype popped = Front queue_message | Unset

definition mq_Pop :: "nat \<Rightarrow> queues \<Rightarrow> (popped \<times> queues) res" where
  "mq_Pop a s =
     bindR (mq_at s a) (\<lambda>q.
       case mq_messages q of
         m # _ \<Rightarrow>
           bindR (overload_loop (length (mq_messages q)) (mq_overload q) (mq_threshold q))
             (\<lambda>(overload, threshold).
               Inr (Front m, mq_set a (q\<lparr>mq_overload := overload, mq_threshold := threshold\<rparr>) s))
       | [] \<Rightarrow> Inr (Unset, mq_set a (q\<lparr>mq_threshold := kMqOverload, mq_in_global := 0\<rparr>) s))"

definition mq_Push :: "nat \<Rightarrow> queue_message \<Rightarrow> queues \<Rightarrow> queues res" where
  "mq_Push a m s =
     bindR (mq_at s a) (\<lambda>q.
       let q' = q\<lparr>mq_messages := mq_messages q @ [m]\<rparr> in
       if mq_in_global q' = 0 then GlobalQueue_Push a (mq_set a (q'\<lparr>mq_in_global := kMqInGlobal\<rparr>) s)
       else Inr (mq_set a q' s))"

definition mq_Length :: "nat \<Rightarrow> queues \<Rightarrow> int res" where
  "mq_Length a s = bindR (mq_at s a) (\<lambda>q. Inr (int (length (mq_messages q))))"

definition mq_Overload :: "nat \<Rightarrow> queues \<Rightarrow> (int \<times> queues) res" where
  "mq_Overload a s =
     bindR (mq_at s a) (\<lambda>q.
       if mq_overload q \<noteq> 0 then Inr (mq_overload q, mq_set a (q\<lparr>mq_overload := 0\<rparr>) s)
       else Inr (0, s))"

definition mq_GetHandle :: "nat \<Rightarrow> queues \<Rightarrow> u32 res" where
  "mq_GetHandle a s = bindR (mq_at s a) (\<lambda>q. Inr (mq_handle q))"

definition mq_MarkRelease :: "nat \<Rightarrow> queues \<Rightarrow> queues res" where
  "mq_MarkRelease a s =
     bindR (mq_at s a) (\<lambda>q.
     bindR (assertR (\<not> mq_release q)) (\<lambda>_.
       let s' = mq_set a (q\<lparr>mq_release := True\<rparr>) s in
       if mq_in_global q \<noteq> kMqInGlobal then GlobalQueue_Push a s' else Inr s'))"

definition mq_delete :: "nat \<Rightarrow> queues \<Rightarrow> queues res" where
  "mq_delete a s =
     bindR (mq_at s a) (\<lambda>q. bindR (assertR (mq_next q = None)) (\<lambda>_. Inr (mq_free a s)))"

end
