(* ===== verification/Module.thy ===== *)
theory Module
  imports Cstring
begin

text \<open>
  \<open>skynet-src/module.cpp\<close>: the dynamic libraries that services are made from. What \<open>dlopen\<close> and
  \<open>dlsym\<close> answer is an argument: for a file name, nothing or the set of symbols the file exports.
\<close>

section \<open>Data\<close>

type_synonym library = "string \<Rightarrow> string set option"

text \<open>\<open>struct Module\<close>; a function pointer is represented by whether it is there.\<close>

record cmodule =
  mod_name :: string
  mod_create :: bool
  mod_init :: bool
  mod_release :: bool
  mod_signal :: bool

record modules =
  ms_count :: int
  ms_path :: string
  ms_modules :: "string \<Rightarrow> cmodule option"

definition kMaxModuleType :: int where "kMaxModuleType = 32"

definition SkynetModuleInit :: "string \<Rightarrow> modules" where
  "SkynetModuleInit path = \<lparr>ms_count = 0, ms_path = path, ms_modules = (\<lambda>_. None)\<rparr>"

section \<open>Loading\<close>

text \<open>\<open>name_.substr (3)\<close> throws for a name of fewer than three characters.\<close>

definition GetAPI :: "string set \<Rightarrow> string \<Rightarrow> string \<Rightarrow> bool res" where
  "GetAPI symbols name api_name =
     (if length name < 3 then Inl Exception else Inr (drop 3 name @ api_name \<in> symbols))"

definition TryOpenSO :: "library \<Rightarrow> string \<Rightarrow> string \<Rightarrow> cmodule res" where
  "TryOpenSO dl path name =
     (case dl (path @ ''/'' @ name @ ''.so'') of
        None \<Rightarrow> Inl Exception
      | Some symbols \<Rightarrow>
          bindR (GetAPI symbols name ''_create'') (\<lambda>create.
          bindR (GetAPI symbols name ''_init'') (\<lambda>init.
          bindR (GetAPI symbols name ''_release'') (\<lambda>release.
          bindR (GetAPI symbols name ''_signal'') (\<lambda>signal.
            Inr \<lparr>mod_name = name, mod_create = create, mod_init = init, mod_release = release,
                 mod_signal = signal\<rparr>)))))"

text \<open>
  With \<open>kMaxModuleType\<close> modules loaded, a new name is not loaded, and the result is taken from the
  end iterator.
\<close>

definition Modules_Query :: "library \<Rightarrow> modules \<Rightarrow> string \<Rightarrow> (cmodule \<times> modules) res" where
  "Modules_Query dl s name =
     (case ms_modules s name of
        Some m \<Rightarrow> Inr (m, s)
      | None \<Rightarrow>
          if ms_count s < kMaxModuleType then
            bindR (TryOpenSO dl (ms_path s) name) (\<lambda>m.
              Inr (m, s\<lparr>ms_modules := (ms_modules s)(name \<mapsto> m), ms_count := ms_count s + 1\<rparr>))
          else Inl OutOfBounds)"

section \<open>Calling\<close>

text \<open>Each of the four wrappers throws when the module lacks the function.\<close>

definition ModuleCreate :: "cmodule \<Rightarrow> 'a \<Rightarrow> 'a res" where
  "ModuleCreate m result = (if mod_create m then Inr result else Inl Exception)"

definition ModuleInit :: "cmodule \<Rightarrow> 'a res \<Rightarrow> 'a res" where
  "ModuleInit m result = (if mod_init m then result else Inl Exception)"

definition ModuleRelease :: "cmodule \<Rightarrow> unit res" where
  "ModuleRelease m = (if mod_release m then Inr () else Inl Exception)"

definition ModuleSignal :: "cmodule \<Rightarrow> unit res" where
  "ModuleSignal m = (if mod_signal m then Inr () else Inl Exception)"

section \<open>The table of modules\<close>

text \<open>The counter is the number of modules in the table, which is bounded by \<open>kMaxModuleType\<close>.\<close>

definition modules_inv :: "modules \<Rightarrow> bool" where
  "modules_inv s \<longleftrightarrow> finite (dom (ms_modules s)) \<and> ms_count s = int (card (dom (ms_modules s))) \<and>
     ms_count s \<le> kMaxModuleType \<and> (\<forall>name m. ms_modules s name = Some m \<longrightarrow> mod_name m = name)"

lemma TryOpenSO_name: "TryOpenSO dl path name = Inr m \<Longrightarrow> mod_name m = name"
  by (auto simp: TryOpenSO_def bindR_Inr_iff split: option.splits)

lemma Query_step:
  assumes "modules_inv s" and "Modules_Query dl s name = Inr (m, s')"
  shows "modules_inv s' \<and> ms_modules s' name = Some m \<and>
    (\<forall>other. other \<noteq> name \<longrightarrow> ms_modules s' other = ms_modules s other) \<and> mod_name m = name"
proof (cases "ms_modules s name")
  case None
  then have lt: "ms_count s < kMaxModuleType" and m: "TryOpenSO dl (ms_path s) name = Inr m"
    and s': "s' = s\<lparr>ms_modules := (ms_modules s)(name \<mapsto> m), ms_count := ms_count s + 1\<rparr>"
    using assms(2) by (auto simp: Modules_Query_def bindR_Inr_iff split: if_splits)
  have "name \<notin> dom (ms_modules s)" using None by auto
  then show ?thesis using assms(1) lt TryOpenSO_name [OF m] by (auto simp: modules_inv_def s')
next
  case (Some m')
  with assms show ?thesis by (auto simp: Modules_Query_def modules_inv_def)
qed

fun query_all :: "library \<Rightarrow> modules \<Rightarrow> string list \<Rightarrow> modules res" where
  "query_all dl s [] = Inr s"
| "query_all dl s (n # ns) = bindR (Modules_Query dl s n) (\<lambda>(_, s'). query_all dl s' ns)"

lemma query_all_keeps:
  "query_all dl s ns = Inr t \<Longrightarrow> modules_inv s \<Longrightarrow> ms_modules s name = Some m \<Longrightarrow>
   modules_inv t \<and> ms_modules t name = Some m"
proof (induction ns arbitrary: s)
  case (Cons n ns)
  then obtain m' s' where q: "Modules_Query dl s n = Inr (m', s')" "query_all dl s' ns = Inr t"
    by (auto simp: bindR_Inr_iff)
  have "modules_inv s'" using Query_step [OF Cons.prems(2) q(1)] by blast
  moreover have "ms_modules s' name = Some m"
  proof (cases "name = n")
    case True
    with q(1) Cons.prems(3) show ?thesis by (simp add: Modules_Query_def)
  next
    case False
    then have "ms_modules s' name = ms_modules s name" using Query_step [OF Cons.prems(2) q(1)] by blast
    with Cons.prems(3) show ?thesis by simp
  qed
  ultimately show ?case using Cons.IH q(2) by blast
qed simp


definition sample_library :: library where
  "sample_library file = (if file = ''./service/libgate.so''
     then Some {''gate_create'', ''gate_init'', ''gate_release''} else None)"


end
