(* ===== verification/Service.thy ===== *)
theory Service
  imports Mq Handle Module
begin

text \<open>
  \<open>skynet-src/service.cpp\<close> and the small files it works with, \<open>error.cpp\<close> and \<open>harbor.cpp\<close>: the
  contexts (one for each service), sending, dispatching, launching and killing.

  The state is a record \<open>world\<close>: the heap of contexts, the handle storage, the message queues, the
  modules and the static variables of the files. A context that was deleted is no longer in the
  heap, and following a pointer to it is a fault. What the dynamically loaded code does is an
  argument: the callback of a context, and the functions of a module.
\<close>

section \<open>Data\<close>

record service_context =
  cx_handle :: u32
  cx_mod :: cmodule
  cx_instance :: nat
  cx_session_id :: int
  cx_ref :: int
  cx_queue :: nat
  cx_cb :: "nat option"
  cx_cb_ud :: nat
  cx_message_count :: int
  cx_logfile :: bool
  cx_init :: bool
  cx_endless :: bool
  cx_profile :: bool
  cx_cpu_cost :: u64
  cx_cpu_start :: u64
  cx_result :: string

text \<open>
  What the system does to the world outside: it prints to log files and calls the functions of
  modules.
\<close>

datatype event =
    LogOutput ctx u32 int int payload u64
  | LogClosed ctx
  | Released nat
  | Signalled nat int

record world =
  w_ctx :: "ctx \<Rightarrow> service_context option"
  w_next :: nat
  w_storage :: handle_storage
  w_queues :: queues
  w_modules :: modules
  w_total :: int
  w_monitor_exit :: u32
  w_profile :: bool
  w_remote :: "ctx option"
  w_harbor :: u32
  w_logger :: "u32 option"
  w_handle_key :: u32
  w_events :: "event list"

definition ctx_at :: "world \<Rightarrow> ctx \<Rightarrow> service_context res" where
  "ctx_at w c = (case w_ctx w c of None \<Rightarrow> Inl DanglingPointer | Some x \<Rightarrow> Inr x)"

definition ctx_set :: "ctx \<Rightarrow> service_context \<Rightarrow> world \<Rightarrow> world" where
  "ctx_set c x w = w\<lparr>w_ctx := (w_ctx w)(c := Some x)\<rparr>"

text \<open>\<open>delete ctx\<close>\<close>

definition ctx_delete :: "ctx \<Rightarrow> world \<Rightarrow> world res" where
  "ctx_delete c w = bindR (ctx_at w c) (\<lambda>_. Inr (w\<lparr>w_ctx := (w_ctx w)(c := None)\<rparr>))"

text \<open>\<open>Context::GetHandle\<close> for all contexts that are alive.\<close>

definition gh :: "world \<Rightarrow> ctx \<Rightarrow> u32" where
  "gh w c = (case w_ctx w c of None \<Rightarrow> 0 | Some x \<Rightarrow> cx_handle x)"

definition log_event :: "event \<Rightarrow> world \<Rightarrow> world" where
  "log_event e w = w\<lparr>w_events := w_events w @ [e]\<rparr>"

section \<open>References\<close>

definition Grab :: "ctx \<Rightarrow> world \<Rightarrow> world res" where
  "Grab c w = bindR (ctx_at w c) (\<lambda>x. Inr (ctx_set c (x\<lparr>cx_ref := cx_ref x + 1\<rparr>) w))"

definition Release :: "ctx \<Rightarrow> world \<Rightarrow> (bool \<times> world) res" where
  "Release c w =
     bindR (ctx_at w c) (\<lambda>x.
     let w1 = ctx_set c (x\<lparr>cx_ref := cx_ref x - 1\<rparr>) w in
     if cx_ref x = 1 then
       let w2 = (if cx_logfile x then log_event (LogClosed c) w1 else w1) in
       bindR (ModuleRelease (cx_mod x)) (\<lambda>_.
       bindR (mq_MarkRelease (cx_queue x) (w_queues w2)) (\<lambda>qs.
       bindR (ctx_delete c (log_event (Released (cx_instance x)) w2\<lparr>w_queues := qs\<rparr>)) (\<lambda>w3.
         Inr (False, w3\<lparr>w_total := w_total w3 - 1\<rparr>))))
     else Inr (True, w1))"

definition Reserve :: "ctx \<Rightarrow> world \<Rightarrow> world res" where
  "Reserve c w = bindR (Grab c w) (\<lambda>w'. Inr (w'\<lparr>w_total := w_total w' - 1\<rparr>))"

text \<open>\<open>HandleGrab\<close> of \<open>handle.cpp\<close> reads the handle of the context in the slot and takes a reference.\<close>

definition slot_of :: "world \<Rightarrow> u32 \<Rightarrow> ctx option" where
  "slot_of w handle =
     (let slot = hs_slot (w_storage w); i = slot_hash handle (length slot)
      in if i < length slot then slot ! i else None)"

definition grab_handle :: "u32 \<Rightarrow> world \<Rightarrow> (ctx option \<times> world) res" where
  "grab_handle handle w =
     bindR (rlock (w_storage w)) (\<lambda>_.
     bindR (case slot_of w handle of None \<Rightarrow> Inr () | Some c \<Rightarrow> bindR (ctx_at w c) (\<lambda>_. Inr ())) (\<lambda>_.
     bindR (HandleGrab (gh w) (w_storage w) handle) (\<lambda>r.
       case r of
         None \<Rightarrow> Inr (None, w)
       | Some c \<Rightarrow> bindR (Grab c w) (\<lambda>w'. Inr (Some c, w')))))"

text \<open>\<open>HandleRetire\<close> of \<open>handle.cpp\<close> releases the context after the lock was given back.\<close>

definition retire_handle :: "u32 \<Rightarrow> world \<Rightarrow> (int \<times> world) res" where
  "retire_handle handle w =
     bindR (case slot_of w handle of None \<Rightarrow> Inr () | Some c \<Rightarrow> bindR (ctx_at w c) (\<lambda>_. Inr ())) (\<lambda>_.
     bindR (HandleRetire (gh w) (w_storage w) handle) (\<lambda>(ret, r, st).
       let w1 = w\<lparr>w_storage := st\<rparr> in
       case r of
         None \<Rightarrow> Inr (ret, w1)
       | Some c \<Rightarrow> bindR (Release c w1) (\<lambda>(_, w2). Inr (ret, w2))))"

section \<open>Messages to a context\<close>

definition Newsession :: "ctx \<Rightarrow> world \<Rightarrow> (int \<times> world) res" where
  "Newsession c w =
     bindR (ctx_at w c) (\<lambda>x.
       if cx_session_id x = 2 ^ 31 - 1 then Inl SignedOverflow
       else
         let session = cx_session_id x + 1 in
         if session \<le> 0 then Inr (1, ctx_set c (x\<lparr>cx_session_id := 1\<rparr>) w)
         else Inr (session, ctx_set c (x\<lparr>cx_session_id := session\<rparr>) w))"

text \<open>\<open>ContextPush\<close> releases its reference and deletes the context.\<close>

definition ContextPush :: "u32 \<Rightarrow> queue_message \<Rightarrow> world \<Rightarrow> (bool \<times> world) res" where
  "ContextPush handle m w =
     bindR (grab_handle handle w) (\<lambda>(r, w1).
       case r of
         None \<Rightarrow> Inr (False, w1)
       | Some c \<Rightarrow>
           bindR (ctx_at w1 c) (\<lambda>x.
           bindR (mq_Push (cx_queue x) m (w_queues w1)) (\<lambda>qs.
           bindR (Release c (w1\<lparr>w_queues := qs\<rparr>)) (\<lambda>(_, w2).
           bindR (ctx_delete c w2) (\<lambda>w3. Inr (True, w3))))))"

definition type_bits :: "int \<Rightarrow> u64" where
  "type_bits type = push_bit kMessageTypeShift (word_of_int type)"

definition Context_Send ::
  "ctx \<Rightarrow> payload \<Rightarrow> u64 \<Rightarrow> u32 \<Rightarrow> int \<Rightarrow> int \<Rightarrow> world \<Rightarrow> world res" where
  "Context_Send c msg sz source type session w =
     bindR (ctx_at w c) (\<lambda>x.
     bindR (mq_Push (cx_queue x)
         \<lparr>msg_source = source, msg_session = session, msg_data = msg, msg_sz = sz OR type_bits type\<rparr>
         (w_queues w)) (\<lambda>qs.
       Inr (w\<lparr>w_queues := qs\<rparr>)))"

section \<open>Errors\<close>

text \<open>
  \<open>error.cpp\<close>: the handle of the logger is looked up on the first call only. The message points to
  the characters of the argument, a string that is gone when the function returns.
\<close>

definition SkynetError_op :: "u32 \<Rightarrow> string \<Rightarrow> world \<Rightarrow> world res" where
  "SkynetError_op handle msg w =
     (if handle = - 1 then Inr w
      else
        bindR (case w_logger w of Some l \<Rightarrow> Inr (l, w)
               | None \<Rightarrow> bindR (HandleFindname (w_storage w) ''logger'') (\<lambda>l. Inr (l, w\<lparr>w_logger := Some l\<rparr>)))
          (\<lambda>(logger, w1).
             if logger = 0 then Inr w1
             else bindR (ContextPush logger
                    \<lparr>msg_source = handle, msg_session = 0, msg_data = Freed,
                     msg_sz = 8 OR type_bits kPtypeText\<rparr> w1) (\<lambda>(_, w2). Inr w2)))"

section \<open>Other nodes\<close>

text \<open>\<open>harbor.cpp\<close>; \<open>w_harbor\<close> is \<open>~0\<close> until \<open>HarborInit\<close>.\<close>

definition HarborInit :: "int \<Rightarrow> world \<Rightarrow> world" where
  "HarborInit harbor w = w\<lparr>w_harbor := push_bit 24 (word_of_int harbor)\<rparr>"

definition HarborMessageIsRemote :: "world \<Rightarrow> u32 \<Rightarrow> bool res" where
  "HarborMessageIsRemote w handle =
     bindR (assertR (w_harbor w \<noteq> - 1)) (\<lambda>_.
       let h = handle AND NOT 0xffffff in Inr (h \<noteq> w_harbor w \<and> h \<noteq> 0))"

text \<open>\<open>sizeof (RemoteMessage)\<close> is 48: 16 characters, a handle with padding, a pointer, a size, a type.\<close>

definition HarborSend :: "remote_message \<Rightarrow> u32 \<Rightarrow> int \<Rightarrow> world \<Rightarrow> world res" where
  "HarborSend r source session w =
     bindR (assertR (rm_type r \<noteq> kPtypeSystem \<and> rm_type r \<noteq> kPtypeHarbor \<and> w_harbor w \<noteq> 0)) (\<lambda>_.
       case w_remote w of
         None \<Rightarrow> Inl NullDereference
       | Some c \<Rightarrow> Context_Send c (RemoteMsg r) 48 source kPtypeSystem session w)"

definition HarborStart_op :: "ctx \<Rightarrow> world \<Rightarrow> world res" where
  "HarborStart_op c w = bindR (Reserve c w) (\<lambda>w'. Inr (w'\<lparr>w_remote := Some c\<rparr>))"

definition HarborExit :: "world \<Rightarrow> world res" where
  "HarborExit w =
     (case w_remote w of
        None \<Rightarrow> Inr w
      | Some c \<Rightarrow> bindR (Release c (w\<lparr>w_remote := None\<rparr>)) (\<lambda>(_, w'). Inr w'))"

definition kGlobalNameLength_harbor :: nat where "kGlobalNameLength_harbor = 16"

section \<open>Sending\<close>

text \<open>
  The copy of \<open>_FilterArgs\<close>: \<open>sz\<close> bytes of the data. Structures that hold a \<open>std::string\<close> cannot be
  copied byte by byte.
\<close>

definition copy_data :: "payload \<Rightarrow> u64 \<Rightarrow> payload res" where
  "copy_data data sz =
     (case data of
        NoData \<Rightarrow> Inr NoData
      | Bytes bs \<Rightarrow> if unat sz \<le> length bs then Inr (Bytes (take (unat sz) bs)) else Inl OutOfBounds
      | Freed \<Rightarrow> Inl DanglingPointer
      | _ \<Rightarrow> Inl TypeConfusion)"

definition kPtypeTagAllocsession :: int where "kPtypeTagAllocsession = 0x20000"

definition FilterArgs ::
  "ctx option \<Rightarrow> int \<Rightarrow> int \<Rightarrow> payload \<Rightarrow> u64 \<Rightarrow> world \<Rightarrow> (int \<times> payload \<times> u64 \<times> world) res" where
  "FilterArgs c type session data sz w =
     (let needcopy = (type AND kPtypeTagDontcopy = 0); allocsession = (type AND kPtypeTagAllocsession \<noteq> 0) in
      bindR (if allocsession then
               bindR (assertR (session = 0)) (\<lambda>_.
                 case c of None \<Rightarrow> Inl NullDereference | Some c \<Rightarrow> Newsession c w)
             else Inr (session, w)) (\<lambda>(session, w).
      bindR (if needcopy then copy_data data sz else Inr data) (\<lambda>data.
        Inr (session, data, sz OR type_bits (type AND 0xff), w))))"

definition ServiceSend_op ::
  "ctx option \<Rightarrow> u32 \<Rightarrow> u32 \<Rightarrow> int \<Rightarrow> int \<Rightarrow> payload \<Rightarrow> u64 \<Rightarrow> world \<Rightarrow> (int \<times> world) res" where
  "ServiceSend_op c source destination type session data sz w =
     (if sz AND kMessageTypeMask \<noteq> sz then Inr (- 2, w)
      else
        bindR (FilterArgs c type session data sz w) (\<lambda>(session, data, sz, w).
        bindR (if source = 0 then
                 (case c of None \<Rightarrow> Inl NullDereference
                  | Some c \<Rightarrow> bindR (ctx_at w c) (\<lambda>x. Inr (cx_handle x)))
               else Inr source) (\<lambda>source.
          if destination = 0 then Inr (if data \<noteq> NoData then - 1 else session, w)
          else
            bindR (HarborMessageIsRemote w destination) (\<lambda>remote.
              if remote then Inl NullDereference
              else
                bindR (ContextPush destination
                    \<lparr>msg_source = source, msg_session = session, msg_data = data, msg_sz = sz\<rparr> w)
                  (\<lambda>(pushed, w). Inr (if pushed then - 1 else session, w))))))"

text \<open>\<open>_CopyName\<close>: at most 16 characters of the name, filled up with zeros.\<close>

definition CopyName :: "string \<Rightarrow> string" where
  "CopyName addr =
     (let name = take kGlobalNameLength_harbor (takeWhile (\<lambda>c. c \<noteq> CHR 0x00) addr)
      in name @ replicate (kGlobalNameLength_harbor - length name) (CHR 0x00))"

text \<open>The pointer \<open>rmsg\<close> of the branch for a global name has no value: writing the name faults.\<close>

definition ServiceSendname_op ::
  "ctx \<Rightarrow> u32 \<Rightarrow> string \<Rightarrow> int \<Rightarrow> int \<Rightarrow> payload \<Rightarrow> u64 \<Rightarrow> world \<Rightarrow> (int \<times> world) res" where
  "ServiceSendname_op c source addr type session data sz w =
     bindR (if source = 0 then bindR (ctx_at w c) (\<lambda>x. Inr (cx_handle x)) else Inr source) (\<lambda>source.
       case addr of
         CHR '':'' # digits \<Rightarrow> ServiceSend_op (Some c) source (strtoul16 digits) type session data sz w
       | CHR ''.'' # name \<Rightarrow>
           bindR (HandleFindname (w_storage w) name) (\<lambda>des.
             if des = 0 then Inr (- 1, w)
             else ServiceSend_op (Some c) source des type session data sz w)
       | _ \<Rightarrow>
           if sz AND kMessageTypeMask \<noteq> sz then Inr (- 2, w)
           else bindR (FilterArgs (Some c) type session data sz w) (\<lambda>_. Inl UninitialisedRead))"

definition DropMessage :: "u32 \<Rightarrow> queue_message \<Rightarrow> world \<Rightarrow> world res" where
  "DropMessage handle m w =
     bindR (assertR (handle \<noteq> 0)) (\<lambda>_.
     bindR (ServiceSend_op None handle (msg_source m) kPtypeError 0 NoData 0 w) (\<lambda>(_, w'). Inr w'))"

section \<open>Control\<close>

definition HandleExit_op :: "ctx \<Rightarrow> u32 \<Rightarrow> world \<Rightarrow> world res" where
  "HandleExit_op c handle w =
     bindR (ctx_at w c) (\<lambda>x.
     let target = (if handle = 0 then cx_handle x else handle) in
     bindR (SkynetError_op (cx_handle x)
         (if handle = 0 then ''KILL self'' else ''KILL :'' @ to_string (uint handle)) w) (\<lambda>w1.
     bindR (if w_monitor_exit w1 \<noteq> 0
            then bindR (ServiceSend_op (Some c) target (w_monitor_exit w1) kPtypeClient 0 NoData 0 w1)
                   (\<lambda>(_, w2). Inr w2)
            else Inr w1) (\<lambda>w2.
     bindR (retire_handle target w2) (\<lambda>(_, w3). Inr w3))))"

definition GlobalInit :: "world \<Rightarrow> world" where
  "GlobalInit w = w\<lparr>w_total := 0, w_monitor_exit := 0\<rparr>"

definition ProfileEnable :: "int \<Rightarrow> world \<Rightarrow> world" where
  "ProfileEnable enable w = w\<lparr>w_profile := (enable \<noteq> 0)\<rparr>"

definition ContextTotal :: "world \<Rightarrow> int" where
  "ContextTotal w = w_total w"

definition Endless :: "u32 \<Rightarrow> world \<Rightarrow> world res" where
  "Endless handle w =
     bindR (grab_handle handle w) (\<lambda>(r, w1).
       case r of
         None \<Rightarrow> Inr w1
       | Some c \<Rightarrow>
           bindR (ctx_at w1 c) (\<lambda>x.
           bindR (Release c (ctx_set c (x\<lparr>cx_endless := True\<rparr>) w1)) (\<lambda>(_, w2). Inr w2)))"

definition GetMoniterExit :: "world \<Rightarrow> u32" where
  "GetMoniterExit w = w_monitor_exit w"

definition SetMonitorExit :: "u32 \<Rightarrow> world \<Rightarrow> world" where
  "SetMonitorExit monitor_exit w = w\<lparr>w_monitor_exit := monitor_exit\<rparr>"

text \<open>The answer, and the node id that is stored where the argument points.\<close>

definition ServiceIsRemote :: "u32 \<Rightarrow> int \<times> int" where
  "ServiceIsRemote handle = (0, uint (drop_bit 24 handle))"

definition ServiceCallback_op :: "ctx \<Rightarrow> nat \<Rightarrow> nat option \<Rightarrow> world \<Rightarrow> world res" where
  "ServiceCallback_op c ud cb w =
     bindR (ctx_at w c) (\<lambda>x. Inr (ctx_set c (x\<lparr>cx_cb := cb, cx_cb_ud := ud\<rparr>) w))"

text \<open>
  The key of the thread: the handle of the context that it dispatches (\<open>DispatchMessage\<close>), or the
  negated kind of the thread. \<open>init\<close> is the field of \<open>G_NODE\<close>.
\<close>

definition THREAD_MAIN :: int where "THREAD_MAIN = 1"

definition skynet_initthread :: "int \<Rightarrow> world \<Rightarrow> world" where
  "skynet_initthread m w = w\<lparr>w_handle_key := word_of_int (- m)\<rparr>"

definition ServiceCurrentHandle :: "bool \<Rightarrow> world \<Rightarrow> u32" where
  "ServiceCurrentHandle init w = (if init then w_handle_key w else word_of_int (- THREAD_MAIN))"

section \<open>The monitor\<close>

text \<open>\<open>monitor.cpp\<close>: a worker thread stamps every dispatch, the monitor thread looks for one that lasts.\<close>

record cmonitor =
  cm_version :: int
  cm_check_version :: int
  cm_source :: u32
  cm_destination :: u32

definition CMonitor_Trigger :: "u32 \<Rightarrow> u32 \<Rightarrow> cmonitor \<Rightarrow> cmonitor" where
  "CMonitor_Trigger source destination m =
     m\<lparr>cm_source := source, cm_destination := destination, cm_version := signed_take_bit 31 (cm_version m + 1)\<rparr>"

definition CMonitor_Check :: "cmonitor \<Rightarrow> world \<Rightarrow> (cmonitor \<times> world) res" where
  "CMonitor_Check m w =
     (if cm_version m = cm_check_version m then
        if cm_destination m \<noteq> 0 then bindR (Endless (cm_destination m) w) (\<lambda>w'. Inr (m, w'))
        else Inr (m, w)
      else Inr (m\<lparr>cm_check_version := cm_version m\<rparr>, w))"

end
