(* ===== verification/Dispatch.thy ===== *)
theory Dispatch
  imports Service
begin

text \<open>
  The rest of \<open>skynet-src/service.cpp\<close> and of \<open>mq.cpp\<close>: taking messages out of queues, and launching
  services.

  \<open>MessageQueue::Pop\<close> returns an uninitialised pointer for an empty queue, and \<open>MessageDispatch\<close> hands
  out an uninitialised \<open>Message\<close>. What these variables hold is an argument of the definitions:
  \<open>unset\<close> says whether the pointer happens to differ from \<open>nullptr\<close>, \<open>garbage\<close> is the message.
  A definition that can run for ever returns an option, \<open>None\<close> for never.
\<close>

section \<open>Releasing a queue\<close>

partial_function (option) drop_loop ::
  "bool \<Rightarrow> (queue_message \<Rightarrow> world \<Rightarrow> world res) \<Rightarrow> nat \<Rightarrow> world \<Rightarrow> world res option" where
  "drop_loop unset drop_func a w =
     (case mq_Pop a (w_queues w) of
        Inl e \<Rightarrow> Some (Inl e)
      | Inr r \<Rightarrow>
          (case r of (p, qs) \<Rightarrow>
             (case p of
                Unset \<Rightarrow> Some (if unset then Inl DanglingPointer else Inr (w\<lparr>w_queues := qs\<rparr>))
              | Front m \<Rightarrow>
                  (case drop_func m (w\<lparr>w_queues := qs\<rparr>) of
                     Inl e \<Rightarrow> Some (Inl e)
                   | Inr w' \<Rightarrow> drop_loop unset drop_func a w'))))"

definition mq_Release ::
  "bool \<Rightarrow> (queue_message \<Rightarrow> world \<Rightarrow> world res) \<Rightarrow> nat \<Rightarrow> world \<Rightarrow> world res option" where
  "mq_Release unset drop_func a w =
     bindO (Some (mq_at (w_queues w) a)) (\<lambda>q.
       if mq_release q then
         bindO (drop_loop unset drop_func a w) (\<lambda>w'.
           Some (bindR (mq_delete a (w_queues w')) (\<lambda>qs. Inr (w'\<lparr>w_queues := qs\<rparr>))))
       else Some (bindR (GlobalQueue_Push a (w_queues w)) (\<lambda>qs. Inr (w\<lparr>w_queues := qs\<rparr>))))"

section \<open>Dispatching\<close>

type_synonym callback =
  "nat \<Rightarrow> ctx \<Rightarrow> nat \<Rightarrow> int \<Rightarrow> int \<Rightarrow> u32 \<Rightarrow> payload \<Rightarrow> u64 \<Rightarrow> world \<Rightarrow> (int \<times> world) res"

text \<open>The result is the message as the function leaves it.\<close>

definition msg_type :: "queue_message \<Rightarrow> int" where
  "msg_type m = uint (drop_bit kMessageTypeShift (msg_sz m))"

definition msg_size :: "queue_message \<Rightarrow> u64" where
  "msg_size m = msg_sz m AND kMessageTypeMask"

definition DispatchMessage :: "callback \<Rightarrow> ctx \<Rightarrow> queue_message \<Rightarrow> world \<Rightarrow> (queue_message \<times> world) res" where
  "DispatchMessage cb c m w =
     bindR (ctx_at w c) (\<lambda>x.
     bindR (assertR (cx_init x)) (\<lambda>_.
     let w1 = w\<lparr>w_handle_key := cx_handle x\<rparr>;
         w2 = (if cx_logfile x
               then log_event (LogOutput c (msg_source m) (msg_type m) (msg_session m) (msg_data m) (msg_size m)) w1
               else w1) in
     bindR (if cx_message_count x = 2 ^ 31 - 1 then Inl SignedOverflow else Inr ()) (\<lambda>_.
     let x1 = x\<lparr>cx_message_count := cx_message_count x + 1,
                cx_cpu_start := (if cx_profile x then 0 else cx_cpu_start x)\<rparr> in
     bindR (case cx_cb x of
              None \<Rightarrow> Inl Exception
            | Some f \<Rightarrow> cb f c (cx_cb_ud x) (msg_type m) (msg_session m) (msg_source m) (msg_data m) (msg_size m)
                          (ctx_set c x1 w2)) (\<lambda>(reserve_msg, w3).
     bindR (if cx_profile x
            then bindR (ctx_at w3 c) (\<lambda>y. Inr (ctx_set c (y\<lparr>cx_cpu_cost := cx_cpu_cost y + 0\<rparr>) w3))
            else Inr w3) (\<lambda>w4.
       Inr (if reserve_msg = 0 then m\<lparr>msg_data := NoData\<rparr> else m, w4))))))"

text \<open>
  The loop of \<open>MessageDispatch\<close>: \<open>Inl\<close> when it returns out of the loop because \<open>Pop\<close> returned a
  pointer other than \<open>nullptr\<close>, \<open>Inr\<close> when it runs to its end.
\<close>

function dispatch_loop_mq ::
  "callback \<Rightarrow> bool \<Rightarrow> ctx \<Rightarrow> nat \<Rightarrow> int \<Rightarrow> nat \<Rightarrow> int \<Rightarrow> queue_message \<Rightarrow> world \<Rightarrow> (bool \<times> world) res" where
  "dispatch_loop_mq cb unset c a weight i n m w =
     (if int i < n then
        bindR (mq_Pop a (w_queues w)) (\<lambda>(p, qs).
          let w1 = w\<lparr>w_queues := qs\<rparr> in
          if p \<noteq> Unset \<or> unset then bindR (Release c w1) (\<lambda>(_, w2). Inr (True, w2))
          else
            bindR (if i = 0 \<and> weight \<ge> 0
                   then bindR (mq_Length a (w_queues w1)) (\<lambda>l. Inr (drop_bit (nat weight) l))
                   else Inr n) (\<lambda>n.
            bindR (mq_Overload a (w_queues w1)) (\<lambda>(_, qs).
            let w2 = w1\<lparr>w_queues := qs\<rparr> in
            bindR (ctx_at w2 c) (\<lambda>x.
            bindR (if cx_cb x = None then Inr (m\<lparr>msg_data := NoData\<rparr>, w2) else DispatchMessage cb c m w2)
              (\<lambda>(m, w3). dispatch_loop_mq cb unset c a weight (Suc i) n m w3)))))
      else Inr (False, w))"
  by pat_completeness auto
termination
  by (relation "measures [\<lambda>(_, _, _, _, _, i, _). if i = 0 then 1 else 0,
        \<lambda>(_, _, _, _, _, i, n, _). nat (n - int i)]") (auto split: if_splits)

declare dispatch_loop_mq.simps [simp del]

text \<open>\<open>GlobalQueue::Pop\<close> as the last step of a dispatch.\<close>

definition next_queue :: "world \<Rightarrow> (nat option \<times> world) res" where
  "next_queue w = bindR (GlobalQueue_Pop (w_queues w)) (\<lambda>(r, qs). Inr (r, w\<lparr>w_queues := qs\<rparr>))"

definition dispatch_end :: "ctx \<Rightarrow> nat \<Rightarrow> world \<Rightarrow> (nat option \<times> world) res" where
  "dispatch_end c a w =
     bindR (ctx_at w c) (\<lambda>x.
     bindR (assertR (a = cx_queue x)) (\<lambda>_.
     bindR (next_queue w) (\<lambda>(r, w1).
     bindR (if r \<noteq> None
            then bindR (GlobalQueue_Push a (w_queues w1)) (\<lambda>qs. Inr (r, w1\<lparr>w_queues := qs\<rparr>))
            else Inr (Some a, w1)) (\<lambda>(r, w2).
     bindR (Release c w2) (\<lambda>(_, w3). Inr (r, w3))))))"

definition dispatch_queue_of ::
  "callback \<Rightarrow> bool \<Rightarrow> queue_message \<Rightarrow> nat \<Rightarrow> int \<Rightarrow> world \<Rightarrow> (nat option \<times> world) res option" where
  "dispatch_queue_of cb unset garbage a weight w =
     bindO (Some (bindR (mq_GetHandle a (w_queues w)) (\<lambda>handle.
              bindR (grab_handle handle w) (\<lambda>(r, w1). Inr (handle, r, w1))))) (\<lambda>(handle, r, w1).
       case r of
         None \<Rightarrow>
           bindO (mq_Release unset (DropMessage handle) a w1) (\<lambda>w2. Some (next_queue w2))
       | Some c \<Rightarrow>
           Some (bindR (dispatch_loop_mq cb unset c a weight 0 1 garbage w1) (\<lambda>(returned, w2).
             if returned then next_queue w2 else dispatch_end c a w2)))"

definition MessageDispatch ::
  "callback \<Rightarrow> bool \<Rightarrow> queue_message \<Rightarrow> nat option \<Rightarrow> int \<Rightarrow> world \<Rightarrow> (nat option \<times> world) res option" where
  "MessageDispatch cb unset garbage queue weight w =
     (case queue of
        Some a \<Rightarrow> dispatch_queue_of cb unset garbage a weight w
      | None \<Rightarrow>
          bindO (Some (next_queue w)) (\<lambda>(r, w1).
            case r of
              None \<Rightarrow> Some (Inr (None, w1))
            | Some a \<Rightarrow> dispatch_queue_of cb unset garbage a weight w1))"

partial_function (option) DispatchAll ::
  "callback \<Rightarrow> bool \<Rightarrow> queue_message \<Rightarrow> ctx \<Rightarrow> nat \<Rightarrow> world \<Rightarrow> world res option" where
  "DispatchAll cb unset garbage c a w =
     (case mq_Pop a (w_queues w) of
        Inl e \<Rightarrow> Some (Inl e)
      | Inr r \<Rightarrow>
          (case r of (p, qs) \<Rightarrow>
             if p \<noteq> Unset \<or> unset then Some (Inr (w\<lparr>w_queues := qs\<rparr>))
             else
               (case DispatchMessage cb c garbage (w\<lparr>w_queues := qs\<rparr>) of
                  Inl e \<Rightarrow> Some (Inl e)
                | Inr r \<Rightarrow> (case r of (m, w') \<Rightarrow> DispatchAll cb unset m c a w'))))"

section \<open>Launching\<close>

text \<open>
  \<open>HandleRegister\<close> of \<open>handle.cpp\<close>; when no slot is free, it goes through the contexts in the slots,
  and fails at the first.
\<close>

definition register_handle :: "ctx \<Rightarrow> world \<Rightarrow> (u32 \<times> world) res" where
  "register_handle c w =
     (let st = w_storage w; slot = hs_slot st in
      bindR (case (register_scan slot (length slot) (hs_handle_index st), find (\<lambda>d. d \<noteq> None) slot) of
               (None, Some (Some d)) \<Rightarrow> bindR (ctx_at w d) (\<lambda>_. Inr ())
             | _ \<Rightarrow> Inr ()) (\<lambda>_.
      bindR (HandleRegister (gh w) st c) (\<lambda>(h, st'). Inr (h, w\<lparr>w_storage := st'\<rparr>))))"

text \<open>\<open>ctx->handle_ = HandleRegister (*ctx); ctx->queue_ = new MessageQueue (ctx->handle_);\<close> and the count.\<close>

definition register_context :: "ctx \<Rightarrow> world \<Rightarrow> world res" where
  "register_context c w =
     bindR (register_handle c w) (\<lambda>(h, w1).
     bindR (ctx_at w1 c) (\<lambda>x.
       let a = w_next w1 in
       Inr (ctx_set c (x\<lparr>cx_handle := h, cx_queue := a\<rparr>)
              (w1\<lparr>w_queues := mq_set a (MessageQueue h) (w_queues w1), w_next := a + 1,
                  w_total := w_total w1 + 1\<rparr>))))"

text \<open>The constructor; \<open>queue_\<close> has no value until the queue is created.\<close>

definition Context_new :: "cmodule \<Rightarrow> nat \<Rightarrow> world \<Rightarrow> (ctx \<times> world) res" where
  "Context_new m inst w =
     (let c = w_next w;
          x = \<lparr>cx_handle = 0, cx_mod = m, cx_instance = inst, cx_session_id = 0, cx_ref = 2, cx_queue = 0,
               cx_cb = None, cx_cb_ud = 0, cx_message_count = 0, cx_logfile = False, cx_init = False,
               cx_endless = False, cx_profile = w_profile w, cx_cpu_cost = 0, cx_cpu_start = 0,
               cx_result = []\<rparr>
      in bindR (register_context c (ctx_set c x (w\<lparr>w_next := c + 1\<rparr>))) (\<lambda>w'. Inr (c, w')))"

text \<open>What the functions of the modules do: \<open>create\<close> gives an instance or \<open>nullptr\<close>.\<close>

record module_code =
  mc_library :: library
  mc_create :: "string \<Rightarrow> world \<Rightarrow> (nat option \<times> world)"
  mc_init :: "string \<Rightarrow> nat \<Rightarrow> ctx \<Rightarrow> string \<Rightarrow> world \<Rightarrow> (int \<times> world) res"

text \<open>After the initialisation of the module succeeded.\<close>

definition launched :: "ctx \<Rightarrow> nat \<Rightarrow> string \<Rightarrow> world \<Rightarrow> (ctx option \<times> world) res" where
  "launched c queue text w =
     bindR (Release c w) (\<lambda>(ret, w1).
     bindR (if ret then ctx_delete c w1
            else bindR (ctx_at w1 c) (\<lambda>x. Inr (ctx_set c (x\<lparr>cx_init := True\<rparr>) w1))) (\<lambda>w2.
     bindR (GlobalQueue_Push queue (w_queues w2)) (\<lambda>qs.
     let w3 = w2\<lparr>w_queues := qs\<rparr> in
     bindR (if ret then bindR (ctx_at w3 c) (\<lambda>x. SkynetError_op (cx_handle x) text w3) else Inr w3) (\<lambda>w4.
       Inr (Some c, w4)))))"

definition launch_failed :: "bool \<Rightarrow> ctx \<Rightarrow> nat \<Rightarrow> string \<Rightarrow> world \<Rightarrow> (ctx option \<times> world) res option" where
  "launch_failed unset c queue text w =
     bindO (Some (
       bindR (ctx_at w c) (\<lambda>x.
       bindR (SkynetError_op (cx_handle x) text w) (\<lambda>w1.
       bindR (ctx_at w1 c) (\<lambda>y.
       bindR (Release c w1) (\<lambda>(_, w2).
       bindR (retire_handle (cx_handle y) w2) (\<lambda>(_, w3). Inr (cx_handle y, w3)))))))) (\<lambda>(handle, w3).
     bindO (mq_Release unset (DropMessage handle) queue w3) (\<lambda>w4. Some (Inr (None, w4))))"

definition NewContext ::
  "module_code \<Rightarrow> bool \<Rightarrow> string \<Rightarrow> string \<Rightarrow> world \<Rightarrow> (ctx option \<times> world) res option" where
  "NewContext code unset name param w =
     bindO (Some (
       bindR (Modules_Query (mc_library code) (w_modules w) name) (\<lambda>(m, ms).
       bindR (ModuleCreate m (mc_create code name (w\<lparr>w_modules := ms\<rparr>))) (\<lambda>(inst, w1).
       case inst of
         None \<Rightarrow> Inl Exception
       | Some i \<Rightarrow>
           bindR (Context_new m i w1) (\<lambda>(c, w2).
           bindR (register_context c w2) (\<lambda>w3.
           bindR (ctx_at w3 c) (\<lambda>x.
           bindR (ModuleInit m (mc_init code name i c param w3)) (\<lambda>(r, w4).
             Inr (c, cx_queue x, r, w4))))))))) (\<lambda>(c, queue, r, w4).
       if r = 0 then Some (launched c queue (''LAUNCH '' @ name @ param) w4)
       else launch_failed unset c queue (''FAILED launch '' @ name) w4)"

section \<open>Starting\<close>

text \<open>
  The state that \<open>main.cpp\<close> and \<open>SkynetStart\<close> of \<open>start.cpp\<close> have set up when the first service is
  launched (the handles get harbor 1, whatever the configuration says), and that launch: the log
  service, whose failure ends the process.
\<close>

definition start_world :: "int \<Rightarrow> int \<Rightarrow> string \<Rightarrow> world" where
  "start_world harbor profile path =
     ProfileEnable profile (HarborInit harbor (GlobalInit
       \<lparr>w_ctx = (\<lambda>_. None), w_next = 1, w_storage = HandleInit 1, w_queues = queues_init,
        w_modules = SkynetModuleInit path, w_total = 0, w_monitor_exit = 0, w_profile = False,
        w_remote = None, w_harbor = - 1, w_logger = None, w_handle_key = 0, w_events = []\<rparr>))"

end
