(* ===== verification/MqFacts.thy ===== *)
theory MqFacts
  imports Dispatch Fifo
begin

text \<open>
  Properties of the message queues: the run queue, linked through the queues it holds, is a first-in
  first-out queue of those queues; the overload threshold follows the length; a message is never
  taken out.
\<close>

section \<open>The run queue is a queue\<close>

text \<open>\<open>U\<close> are the message queues there are; those that are not in the run queue link to nothing.\<close>

definition next_of :: "queues \<Rightarrow> nat \<Rightarrow> nat option" where
  "next_of s a = (case qs_heap s a of None \<Rightarrow> None | Some q \<Rightarrow> mq_next q)"

definition run_queue :: "nat set \<Rightarrow> queues \<Rightarrow> nat list" where
  "run_queue U s = follow (next_of s) (gq_head s) (card U)"

definition run_links :: "nat set \<Rightarrow> queues \<Rightarrow> nat list \<Rightarrow> bool" where
  "run_links U s xs \<longleftrightarrow> finite U \<and> (\<forall>a \<in> U. qs_heap s a \<noteq> None) \<and> set xs \<subseteq> U \<and>
     linked (next_of s) (gq_head s) (gq_tail s) xs \<and> (\<forall>a \<in> U. a \<notin> set xs \<longrightarrow> next_of s a = None)"

definition run_inv :: "nat set \<Rightarrow> queues \<Rightarrow> bool" where
  "run_inv U s \<longleftrightarrow> (\<exists>xs. run_links U s xs)"

lemma run_queue_links: "run_links U s xs \<Longrightarrow> run_queue U s = xs"
proof -
  assume r: "run_links U s xs"
  then have "distinct xs" "finite U" "set xs \<subseteq> U" by (auto simp: run_links_def linked_def)
  then have "length xs \<le> card U" by (metis card_mono distinct_card)
  with r show ?thesis unfolding run_queue_def by (intro follow_segment) (auto simp: run_links_def linked_def)
qed

lemma run_inv_links: "run_inv U s \<longleftrightarrow> run_links U s (run_queue U s)"
  using run_queue_links by (auto simp: run_inv_def)

lemma next_of_set [simp]: "next_of (mq_set a q s) = (next_of s)(a := mq_next q)"
  by (auto simp: next_of_def mq_set_def)

lemma next_of_update [simp]:
  "next_of (s\<lparr>gq_tail := t\<rparr>) = next_of s" "next_of (s\<lparr>gq_head := h\<rparr>) = next_of s"
  by (auto simp: next_of_def fun_eq_iff)

lemma mq_set_fields [simp]:
  "gq_head (mq_set a q s) = gq_head s" "gq_tail (mq_set a q s) = gq_tail s"
  "qs_heap (mq_set a q s) = (qs_heap s)(a := Some q)"
  by (simp_all add: mq_set_def)

lemma mq_at_Some: "qs_heap s a = Some q \<Longrightarrow> mq_at s a = Inr q"
  by (simp add: mq_at_def)

lemma push_links:
  assumes "run_links U s xs" and "a \<in> U" and "a \<notin> set xs"
  shows "\<exists>s'. GlobalQueue_Push a s = Inr s' \<and> run_links U s' (xs @ [a])"
proof -
  obtain q where q: "qs_heap s a = Some q" using assms(1,2) by (auto simp: run_links_def)
  moreover have next_a: "next_of s a = None" using assms by (auto simp: run_links_def)
  ultimately have q_next: "mq_next q = None" by (simp add: next_of_def)
  have l: "linked (next_of s) (gq_head s) (gq_tail s) xs" "set xs \<subseteq> U" using assms(1) by (auto simp: run_links_def)
  show ?thesis
  proof (cases "gq_tail s")
    case None
    with l have xs: "xs = []" "gq_head s = None" by (auto simp: linked_final_None)
    have "GlobalQueue_Push a s = Inr (s\<lparr>gq_head := Some a, gq_tail := Some a\<rparr>)"
      using q q_next None by (simp add: GlobalQueue_Push_def mq_at_Some)
    then show ?thesis using assms(1,2) next_a xs by (auto simp: run_links_def linked_push_empty)
  next
    case (Some t)
    with l have t: "t \<in> set xs" "t \<in> U" "t \<noteq> a"
      using assms(3) by (auto simp: linked_def last_node_Some eq_commute)
    then obtain qt where qt: "qs_heap s t = Some qt" using assms(1) by (auto simp: run_links_def)
    let ?s = "(mq_set t (qt\<lparr>mq_next := Some a\<rparr>) s)\<lparr>gq_tail := Some a\<rparr>"
    have "GlobalQueue_Push a s = Inr ?s"
      using q q_next Some qt by (simp add: GlobalQueue_Push_def mq_at_Some)
    moreover have "linked ((next_of s)(t \<mapsto> a)) (gq_head s) (Some a) (xs @ [a])"
      using l(1) assms(3) next_a t(3) unfolding Some by (intro linked_push [of "next_of s" _ t]) auto
    ultimately show ?thesis using assms(1,2) t qt by (auto simp: run_links_def)
  qed
qed

lemma pop_links:
  assumes "run_links U s (a # xs)"
  shows "\<exists>s'. GlobalQueue_Pop s = Inr (Some a, s') \<and> run_links U s' xs \<and>
    (\<forall>b. b \<noteq> a \<longrightarrow> qs_heap s' b = qs_heap s b)"
proof -
  have l: "linked (next_of s) (gq_head s) (gq_tail s) (a # xs)" "a \<in> U"
    using assms by (auto simp: run_links_def)
  then obtain q where q: "qs_heap s a = Some q" using assms by (auto simp: run_links_def)
  note tail = linked_tail [OF l(1)]
  have nx: "mq_next q = next_of s a" using q by (simp add: next_of_def)
  let ?s = "mq_set a (q\<lparr>mq_next := None\<rparr>) ((if xs = [] then s\<lparr>gq_tail := None\<rparr> else s)\<lparr>gq_head := next_of s a\<rparr>)"
  have "gq_tail s = Some a" if "xs = []" using l(1) that by (simp add: linked_def last_node_def)
  then have "GlobalQueue_Pop s = Inr (Some a, ?s)"
    using tail(1,4) q nx by (auto simp: GlobalQueue_Pop_def mq_at_Some)
  moreover have "linked ((next_of s)(a := None)) (next_of s a) (if xs = [] then None else gq_tail s) xs"
    using tail(2,3) by (subst linked_ptr_cong [of _ _ "next_of s"]) auto
  then have "run_links U ?s xs" using assms by (auto simp: run_links_def)
  moreover have "\<forall>b. b \<noteq> a \<longrightarrow> qs_heap ?s b = qs_heap s b" by simp
  ultimately show ?thesis by blast
qed

lemma pop_empty_links: "run_links U s [] \<Longrightarrow> GlobalQueue_Pop s = Inr (None, s)"
  by (simp add: run_links_def linked_Nil GlobalQueue_Pop_def)

text \<open>A change to a queue that leaves its link alone.\<close>

lemma run_links_set:
  assumes "run_links U s xs" and "qs_heap s a = Some q" and "mq_next q' = mq_next q"
  shows "run_links U (mq_set a q' s) xs"
proof -
  have "next_of (mq_set a q' s) = next_of s" using assms(2,3) by (auto simp: next_of_def)
  then show ?thesis using assms(1) by (auto simp: run_links_def simp del: next_of_set)
qed

definition run_push :: "nat \<Rightarrow> queues \<Rightarrow> queues" where
  "run_push a s = (case GlobalQueue_Push a s of Inl _ \<Rightarrow> s | Inr s' \<Rightarrow> s')"

definition run_pop :: "queues \<Rightarrow> (nat \<times> queues) option" where
  "run_pop s = (case GlobalQueue_Pop s of Inr (Some a, s') \<Rightarrow> Some (a, s') | _ \<Rightarrow> None)"

interpretation run: fifo "run_inv U" "run_queue U" "\<lambda>a xs. a \<in> U \<and> a \<notin> set xs" run_push run_pop for U
proof
  fix s a assume inv: "run_inv U s" and ok: "a \<in> U \<and> a \<notin> set (run_queue U s)"
  then obtain s' where "GlobalQueue_Push a s = Inr s'" "run_links U s' (run_queue U s @ [a])"
    using push_links run_inv_links by blast
  then show "run_inv U (run_push a s) \<and> run_queue U (run_push a s) = run_queue U s @ [a]"
    using run_queue_links by (auto simp: run_push_def run_inv_def)
next
  fix s assume inv: "run_inv U s"
  show "run_pop s = None \<longleftrightarrow> run_queue U s = []"
  proof (cases "run_queue U s")
    case Nil
    with inv have "gq_head s = None" by (auto simp: run_inv_links run_links_def linked_Nil)
    then show ?thesis using Nil by (simp add: run_pop_def GlobalQueue_Pop_def)
  next
    case (Cons a xs)
    with inv pop_links [of U s a xs] show ?thesis by (auto simp: run_inv_links run_pop_def)
  qed
next
  fix s a s' assume inv: "run_inv U s" and pop: "run_pop s = Some (a, s')"
  show "run_inv U s' \<and> run_queue U s = a # run_queue U s'"
  proof (cases "run_queue U s")
    case Nil
    with inv have "gq_head s = None" by (auto simp: run_inv_links run_links_def linked_Nil)
    with pop show ?thesis by (simp add: run_pop_def GlobalQueue_Pop_def)
  next
    case (Cons b xs)
    then obtain t where "GlobalQueue_Pop s = Inr (Some b, t)" "run_links U t xs"
      using inv pop_links [of U s b xs] by (auto simp: run_inv_links)
    with pop Cons show ?thesis using run_queue_links [of U t xs] by (auto simp: run_pop_def run_inv_def)
  qed
qed



section \<open>Popping\<close>

lemma overload_loop_ok:
  assumes "0 < th" and "n \<le> 2 ^ 30"
  shows "\<exists>ov' th' k. overload_loop n ov th = Inr (ov', th') \<and> int n \<le> th' \<and> th' = th * 2 ^ k \<and>
    (if int n \<le> th then ov' = ov \<and> th' = th else ov' = int n \<and> th' < 2 * int n)"
  using assms(1)
proof (induction "nat (int n - th)" arbitrary: ov th rule: less_induct)
  case less
  show ?case
  proof (cases "int n \<le> th")
    case True
    then show ?thesis by (subst overload_loop.simps) (auto intro: exI [of _ 0])
  next
    case False
    then have th: "th * 2 < 2 ^ 31" using assms(2) by simp
    obtain ov' th' k where r: "overload_loop n (int n) (th * 2) = Inr (ov', th')" "int n \<le> th'"
      "th' = th * 2 * 2 ^ k" "if int n \<le> th * 2 then ov' = int n \<and> th' = th * 2 else ov' = int n \<and> th' < 2 * int n"
      using less.hyps [of "th * 2" "int n"] less.prems False by auto
    have "overload_loop n ov th = Inr (ov', th')"
      using False th less.prems r(1) by (subst overload_loop.simps) simp
    then show ?thesis using r(2-4) False by (auto intro!: exI [of _ "Suc k"] split: if_splits)
  qed
qed

text \<open>C25 \<open>Pop\<close> returns the first message and leaves it in the queue. With up to \<open>2 ^ 30\<close> messages the
  threshold afterwards is at least the length and, when it was raised, less than twice the length and
  a power of two times the old one; the overload flag then holds the length.\<close>

theorem pop_keeps_and_warns:
  assumes "qs_heap s a = Some q" and "mq_messages q = m # ms" and "0 < mq_threshold q"
    and "length (mq_messages q) \<le> 2 ^ 30"
  shows "\<exists>s' q' k. mq_Pop a s = Inr (Front m, s') \<and> qs_heap s' a = Some q' \<and> mq_messages q' = m # ms \<and>
    int (length (m # ms)) \<le> mq_threshold q' \<and> mq_threshold q' = mq_threshold q * 2 ^ k \<and>
    (if int (length (m # ms)) \<le> mq_threshold q
     then mq_threshold q' = mq_threshold q \<and> mq_overload q' = mq_overload q
     else mq_threshold q' < 2 * int (length (m # ms)) \<and> mq_overload q' = int (length (m # ms)))"
proof -
  obtain ov th k where r: "overload_loop (length (mq_messages q)) (mq_overload q) (mq_threshold q) = Inr (ov, th)"
    "int (length (mq_messages q)) \<le> th" "th = mq_threshold q * 2 ^ k"
    "if int (length (mq_messages q)) \<le> mq_threshold q then ov = mq_overload q \<and> th = mq_threshold q
     else ov = int (length (mq_messages q)) \<and> th < 2 * int (length (mq_messages q))"
    using overload_loop_ok [OF assms(3,4)] by blast
  let ?q = "q\<lparr>mq_overload := ov, mq_threshold := th\<rparr>"
  have "mq_Pop a s = Inr (Front m, mq_set a ?q s)"
    using r(1) assms(1,2) by (simp add: mq_Pop_def mq_at_Some)
  then show ?thesis using r(2-4) assms(2)
    by (intro exI [of _ "mq_set a ?q s"] exI [of _ ?q] exI [of _ k]) auto
qed

theorem pop_keeps_and_warns_witness:
  "\<exists>s' q'. mq_Pop 1 (queues_init\<lparr>qs_heap := [1 \<mapsto> (MessageQueue 5)
       \<lparr>mq_messages := replicate 1500 \<lparr>msg_source = 0, msg_session = 0, msg_data = NoData, msg_sz = 0\<rparr>\<rparr>]\<rparr>)
     = Inr (Front \<lparr>msg_source = 0, msg_session = 0, msg_data = NoData, msg_sz = 0\<rparr>, s') \<and>
     qs_heap s' 1 = Some q' \<and> mq_threshold q' \<ge> 1500 \<and> mq_overload q' = 1500"
proof -
  let ?m = "\<lparr>msg_source = 0, msg_session = 0, msg_data = NoData, msg_sz = 0\<rparr>"
  let ?q = "(MessageQueue 5)\<lparr>mq_messages := replicate 1500 ?m\<rparr>"
  have m: "mq_messages ?q = ?m # replicate 1499 ?m"
    by (simp flip: replicate_Suc)
  have "\<exists>s' q' k. mq_Pop 1 (queues_init\<lparr>qs_heap := [1 \<mapsto> ?q]\<rparr>) = Inr (Front ?m, s') \<and> qs_heap s' 1 = Some q' \<and>
    mq_messages q' = ?m # replicate 1499 ?m \<and>
    int (length (?m # replicate 1499 ?m)) \<le> mq_threshold q' \<and> mq_threshold q' = mq_threshold ?q * 2 ^ k \<and>
    (if int (length (?m # replicate 1499 ?m)) \<le> mq_threshold ?q
     then mq_threshold q' = mq_threshold ?q \<and> mq_overload q' = mq_overload ?q
     else mq_threshold q' < 2 * int (length (?m # replicate 1499 ?m)) \<and>
       mq_overload q' = int (length (?m # replicate 1499 ?m)))"
    by (rule pop_keeps_and_warns [OF _ m]) (simp_all add: MessageQueue_def kMqOverload_def)
  then show ?thesis by (auto simp: MessageQueue_def kMqOverload_def)
qed

section \<open>Releasing a queue with messages\<close>

definition busy :: "nat \<Rightarrow> queues \<Rightarrow> bool" where
  "busy a s \<longleftrightarrow> (\<exists>q. qs_heap s a = Some q \<and> mq_messages q \<noteq> [])"

lemma mq_at_Inr: "mq_at s a = Inr q \<longleftrightarrow> qs_heap s a = Some q"
  by (auto simp: mq_at_def split: option.splits)

lemma busy_set: "busy a (mq_set b q s) \<longleftrightarrow> (if a = b then mq_messages q \<noteq> [] else busy a s)"
  by (simp add: busy_def)

lemma busy_at: "qs_heap s a = Some q \<Longrightarrow> busy a s \<Longrightarrow> mq_messages q \<noteq> []"
  by (simp add: busy_def)

lemma busy_update [simp]: "busy a (s\<lparr>gq_tail := t\<rparr>) = busy a s" "busy a (s\<lparr>gq_head := h\<rparr>) = busy a s"
  by (simp_all add: busy_def)

lemma busy_GlobalPush: "GlobalQueue_Push b s = Inr s' \<Longrightarrow> busy a s \<Longrightarrow> busy a s'"
  by (auto simp: GlobalQueue_Push_def bindR_Inr_iff mq_at_Inr busy_set dest: busy_at split: option.splits)

lemma busy_Push: "mq_Push b m s = Inr s' \<Longrightarrow> busy a s \<Longrightarrow> busy a s'"
  by (auto simp: mq_Push_def bindR_Inr_iff mq_at_Inr Let_def busy_set split: if_splits
      elim!: busy_GlobalPush)

lemma busy_MarkRelease: "mq_MarkRelease b s = Inr s' \<Longrightarrow> busy a s \<Longrightarrow> busy a s'"
  by (auto simp: mq_MarkRelease_def bindR_Inr_iff mq_at_Inr Let_def busy_set dest: busy_at split: if_splits
      elim!: busy_GlobalPush)

lemma Grab_queues: "Grab c w = Inr w' \<Longrightarrow> w_queues w' = w_queues w"
  by (auto simp: Grab_def bindR_Inr_iff ctx_set_def)

lemma grab_handle_queues: "grab_handle h w = Inr (r, w') \<Longrightarrow> w_queues w' = w_queues w"
  by (auto simp: grab_handle_def bindR_Inr_iff dest!: Grab_queues split: option.splits)

lemma busy_Release: "Release c w = Inr (b, w') \<Longrightarrow> busy a (w_queues w) \<Longrightarrow> busy a (w_queues w')"
  by (auto simp: Release_def bindR_Inr_iff Let_def ctx_set_def ctx_delete_def log_event_def
      split: if_splits elim!: busy_MarkRelease)

lemma ContextPush_hit:
  assumes "ContextPush h m w = Inr (b, w')" and "grab_handle h w = Inr (Some c, w1)"
  shows "\<exists>x qs r w2. ctx_at w1 c = Inr x \<and> mq_Push (cx_queue x) m (w_queues w1) = Inr qs \<and>
    Release c (w1\<lparr>w_queues := qs\<rparr>) = Inr (r, w2) \<and> ctx_delete c w2 = Inr w' \<and> b"
  using assms by (simp add: ContextPush_def bindR_Inr_iff)

lemma busy_ContextPush:
  assumes "ContextPush h m w = Inr (b, w')" and "busy a (w_queues w)"
  shows "busy a (w_queues w')"
proof -
  obtain r w1 where g: "grab_handle h w = Inr (r, w1)" "w_queues w1 = w_queues w"
    using assms(1) grab_handle_queues by (auto simp: ContextPush_def bindR_Inr_iff)
  show ?thesis
  proof (cases r)
    case None
    with assms g show ?thesis by (simp add: ContextPush_def)
  next
    case (Some c)
    then obtain x qs r' w2 where "ctx_at w1 c = Inr x" and p: "mq_Push (cx_queue x) m (w_queues w1) = Inr qs"
      "Release c (w1\<lparr>w_queues := qs\<rparr>) = Inr (r', w2)" "ctx_delete c w2 = Inr w'"
      using ContextPush_hit [OF assms(1) g(1) [unfolded Some]] by blast
    have "busy a qs" using busy_Push [OF p(1)] assms(2) g(2) by simp
    then have "busy a (w_queues w2)" using busy_Release [OF p(2)] by simp
    then show ?thesis using p(3) by (auto simp: ctx_delete_def bindR_Inr_iff)
  qed
qed

lemma busy_DropMessage: "DropMessage h m w = Inr w' \<Longrightarrow> busy a (w_queues w) \<Longrightarrow> busy a (w_queues w')"
  by (auto simp: DropMessage_def ServiceSend_op_def FilterArgs_def copy_data_def kPtypeError_def
      kPtypeTagAllocsession_def bindR_Inr_iff Let_def split: if_splits payload.splits
      dest: busy_ContextPush)

lemma drop_loop_busy:
  assumes "\<And>m w w'. drop_func m w = Inr w' \<Longrightarrow> busy a (w_queues w) \<Longrightarrow> busy a (w_queues w')"
    and "busy a (w_queues w)"
  shows "drop_loop unset drop_func a w \<noteq> Some (Inr w')"
proof -
    have "\<forall>w'. r = Inr w' \<longrightarrow> drop_func = f \<longrightarrow> b = a \<longrightarrow> \<not> busy a (w_queues w)"
      if "drop_loop u f b w = Some r" for u f b w r
    proof (rule drop_loop.raw_induct [where P = "\<lambda>u f b w r. \<forall>w'. r = Inr w' \<longrightarrow> drop_func = f \<longrightarrow>
          b = a \<longrightarrow> \<not> busy a (w_queues w)", OF _ that], intro allI impI notI)
      fix rec u f b w r w'
      assume IH: "\<And>u f b w r. rec u f b w = Some r \<Longrightarrow>
          \<forall>w'. r = Inr w' \<longrightarrow> drop_func = f \<longrightarrow> b = a \<longrightarrow> \<not> busy a (w_queues w)"
        and run: "(case mq_Pop b (w_queues w) of Inl e \<Rightarrow> Some (Inl e)
          | Inr (Front m, qs) \<Rightarrow> (case f m (w\<lparr>w_queues := qs\<rparr>) of Inl e \<Rightarrow> Some (Inl e) | Inr w' \<Rightarrow> rec u f b w')
          | Inr (Unset, qs) \<Rightarrow> Some (if u then Inl DanglingPointer else Inr (w\<lparr>w_queues := qs\<rparr>))) = Some r"
        and eqs: "r = Inr w'" "drop_func = f" "b = a" and busy: "busy a (w_queues w)"
      obtain q m ms where q: "qs_heap (w_queues w) a = Some q" "mq_messages q = m # ms"
        using busy by (auto simp: busy_def neq_Nil_conv)
      obtain qs where pop: "mq_Pop a (w_queues w) = Inr (Front m, qs)" "busy a qs"
        using run eqs q by (auto simp: mq_Pop_def mq_at_Some busy_set bindR_def split: sum.splits)
      then obtain w1 where w1: "drop_func m (w\<lparr>w_queues := qs\<rparr>) = Inr w1" "rec u drop_func a w1 = Some (Inr w')"
        using run eqs by (auto split: sum.splits)
      have "busy a (w_queues w1)" using assms(1) [OF w1(1)] pop(2) by simp
      with IH [OF w1(2)] show False by blast
    qed
  with assms(2) show ?thesis by blast
qed

text \<open>C26 A released queue that still holds a message is never freed: \<open>Release\<close> drops the first message for
  ever (or until something else fails), since \<open>Pop\<close> does not take it out.\<close>

theorem release_never_frees:
  assumes "qs_heap (w_queues w) a = Some q" and "mq_release q" and "mq_messages q \<noteq> []"
  shows "mq_Release unset (DropMessage handle) a w \<noteq> Some (Inr w')"
proof -
  have "busy a (w_queues w)" using assms(1,3) by (simp add: busy_def)
  then have "drop_loop unset (DropMessage handle) a w \<noteq> Some (Inr v)" for v
    by (rule drop_loop_busy [rotated]) (rule busy_DropMessage)
  then show ?thesis using assms(1,2)
    by (cases "drop_loop unset (DropMessage handle) a w")
      (auto simp: mq_Release_def mq_at_Some bindO_def split: sum.splits)
qed

theorem release_never_frees_witness:
  "\<forall>w'. mq_Release False (DropMessage 5) 1 ((start_world 1 1 ''./service'')
     \<lparr>w_queues := queues_init\<lparr>qs_heap := [1 \<mapsto> (MessageQueue 5)\<lparr>mq_release := True,
        mq_messages := [\<lparr>msg_source = 3, msg_session = 0, msg_data = NoData, msg_sz = 0\<rparr>]\<rparr>]\<rparr>\<rparr>)
     \<noteq> Some (Inr w')"
  by (intro allI release_never_frees [where q = "(MessageQueue 5)\<lparr>mq_release := True,
        mq_messages := [\<lparr>msg_source = 3, msg_session = 0, msg_data = NoData, msg_sz = 0\<rparr>]\<rparr>"]) simp_all

end
