(* ===== verification/ServiceFacts.thy ===== *)
theory ServiceFacts
  imports MqFacts HandleSlots
begin

text \<open>
  Properties of the services: what sending does and answers, the sessions, launching, and what a
  dispatch does with a queue.
\<close>

section \<open>Types and sizes in one word\<close>

lemma bits_of_mask: "bit (kMessageTypeMask :: u64) n \<longleftrightarrow> n < 56"
proof -
  have m: "kMessageTypeMask = mask 56" by (simp add: kMessageTypeMask_def mask_eq_exp_minus_1)
  show ?thesis unfolding m by (subst bit_mask_iff) auto
qed

lemma size_small: "sz AND kMessageTypeMask = sz \<Longrightarrow> bit sz n \<Longrightarrow> n < 56"
  by (metis bit_and_iff bits_of_mask)

lemma low_byte: "type AND 0xff = take_bit 8 (type :: int)"
  by (simp add: take_bit_eq_mask mask_eq_exp_minus_1)

lemma type_size:
  assumes "sz AND kMessageTypeMask = sz" and "msg_sz m = sz OR type_bits (type AND 0xff)"
  shows "msg_type m = type AND 0xff" and "msg_size m = sz"
proof -
  have "drop_bit 56 (msg_sz m) = (word_of_int (type AND 0xff) :: u64)"
    unfolding assms(2) low_byte type_bits_def kMessageTypeShift_def
    using size_small [OF assms(1)] by (intro bit_eqI) (auto simp: bit_simps)
  moreover have "0 \<le> type AND 0xff" "type AND 0xff < 2 ^ 64"
    unfolding low_byte using take_bit_int_less_exp [of 8 type] by simp_all
  moreover have "uint (word_of_int k :: u64) = k" if "0 \<le> k" "k < 2 ^ 64" for k
    using that by (simp add: uint_word_of_int_eq take_bit_int_eq_self)
  ultimately show "msg_type m = type AND 0xff"
    unfolding msg_type_def kMessageTypeShift_def by metis
  have "bit (msg_size m) n = bit sz n" for n
    using size_small [OF assms(1), of n]
    by (auto simp: msg_size_def assms(2) type_bits_def kMessageTypeShift_def bit_simps bits_of_mask)
  then show "msg_size m = sz" by (intro bit_eqI) blast
qed

section \<open>Sending\<close>

lemma slot_of_Some:
  "slot_of w h = Some c \<Longrightarrow> nthR (hs_slot (w_storage w)) (int (slot_hash h (length (hs_slot (w_storage w))))) = Inr (Some c)"
  by (auto simp: slot_of_def Let_def nthR_def split: if_splits)

text \<open>A service that can be reached: the storage is not locked, the handle leads to a live context.\<close>

definition reachable :: "world \<Rightarrow> u32 \<Rightarrow> ctx \<Rightarrow> service_context \<Rightarrow> bool" where
  "reachable w h c x \<longleftrightarrow> \<not> hs_write (w_storage w) \<and> slot_of w h = Some c \<and> w_ctx w c = Some x \<and>
     cx_handle x = h \<and> 0 < cx_ref x"

lemma grab_reachable:
  assumes "reachable w h c x"
  shows "grab_handle h w = Inr (Some c, ctx_set c (x\<lparr>cx_ref := cx_ref x + 1\<rparr>) w)"
  using assms slot_of_Some [of w h c]
  by (simp add: reachable_def grab_handle_def rlock_def ctx_at_def HandleGrab_def gh_def Grab_def)

lemma Release_shared: "w_ctx w c = Some x \<Longrightarrow> cx_ref x \<noteq> 1 \<Longrightarrow>
    Release c w = Inr (True, ctx_set c (x\<lparr>cx_ref := cx_ref x - 1\<rparr>) w)"
  by (simp add: Release_def ctx_at_def Let_def)

lemma ctx_set_simps [simp]:
  "w_ctx (ctx_set c x w) = (w_ctx w)(c := Some x)" "w_queues (ctx_set c x w) = w_queues w"
  "w_storage (ctx_set c x w) = w_storage w" "w_harbor (ctx_set c x w) = w_harbor w"
  "ctx_set c y (ctx_set c x w) = ctx_set c y w"
  by (simp_all add: ctx_set_def)

lemma push_reachable:
  assumes "reachable w h c x" and "mq_Push (cx_queue x) m (w_queues w) = Inr qs"
  shows "ContextPush h m w = Inr (True, w\<lparr>w_ctx := (w_ctx w)(c := None), w_queues := qs\<rparr>)"
proof -
  let ?w = "ctx_set c (x\<lparr>cx_ref := cx_ref x + 1\<rparr>) w\<lparr>w_queues := qs\<rparr>"
  have "Release c ?w = Inr (True, ctx_set c x ?w)"
    using assms(1) by (subst Release_shared) (auto simp: reachable_def ctx_set_def)
  then show ?thesis using grab_reachable [OF assms(1)] assms(2)
    by (simp add: ContextPush_def ctx_at_def ctx_delete_def ctx_set_def)
qed

definition is_local :: "world \<Rightarrow> u32 \<Rightarrow> bool" where
  "is_local w h \<longleftrightarrow> HarborMessageIsRemote w h = Inr False"

text \<open>C27 A message sent to a live service of this node enters its queue, with the sender, the session and
  a copy of the data, and with a word from which the receiver reads the type and the size that were
  given. But the call then deletes the service it has reached and answers -1, the value for failure,
  and every further message to that handle is a use of the deleted service.\<close>

theorem send_delivers_and_deletes:
  assumes "reachable w destination c x" and "destination \<noteq> 0" and "source \<noteq> 0" and "is_local w destination"
    and "qs_heap (w_queues w) (cx_queue x) = Some q" and "mq_in_global q \<noteq> 0"
    and "sz AND kMessageTypeMask = sz" and "unat sz = length bs"
    and "type AND kPtypeTagDontcopy = 0" and "type AND kPtypeTagAllocsession = 0"
  shows "\<exists>w' m. ServiceSend_op None source destination type session (Bytes bs) sz w = Inr (- 1, w') \<and>
    qs_heap (w_queues w') (cx_queue x) = Some (q\<lparr>mq_messages := mq_messages q @ [m]\<rparr>) \<and>
    msg_source m = source \<and> msg_session m = session \<and> msg_data m = Bytes bs \<and>
    msg_type m = type AND 0xff \<and> msg_size m = sz \<and>
    w_ctx w' c = None \<and> (\<forall>m'. ContextPush destination m' w' = Inl DanglingPointer)"
proof -
  define m where "m = \<lparr>msg_source = source, msg_session = session, msg_data = Bytes bs,
    msg_sz = sz OR type_bits (type AND 0xff)\<rparr>"
  define qs where "qs = mq_set (cx_queue x) (q\<lparr>mq_messages := mq_messages q @ [m]\<rparr>) (w_queues w)"
  define w' where "w' = w\<lparr>w_ctx := (w_ctx w)(c := None), w_queues := qs\<rparr>"
  have "mq_Push (cx_queue x) m (w_queues w) = Inr qs"
    using assms(5,6) by (simp add: mq_Push_def mq_at_Some qs_def)
  note push = push_reachable [OF assms(1) this]
  have "FilterArgs None type session (Bytes bs) sz w =
      Inr (session, Bytes bs, sz OR type_bits (type AND 0xff), w)"
    using assms(8-10) by (simp add: FilterArgs_def copy_data_def)
  then have "ServiceSend_op None source destination type session (Bytes bs) sz w = Inr (- 1, w')"
    using assms(2,3,4,7) push by (simp add: ServiceSend_op_def is_local_def m_def w'_def)
  moreover have "msg_type m = type AND 0xff" "msg_size m = sz"
    using type_size [OF assms(7), of m type] by (simp_all add: m_def)
  moreover have "ContextPush destination m' w' = Inl DanglingPointer" for m'
    using assms(1) by (simp add: ContextPush_def grab_handle_def w'_def reachable_def slot_of_def rlock_def ctx_at_def)
  ultimately show ?thesis
    by (intro exI [of _ w'] exI [of _ m]) (simp add: w'_def qs_def m_def)
qed

text \<open>A message to a handle of this node that nobody has is lost, and the answer is the session, the
  value for success.\<close>

theorem send_to_nobody_succeeds:
  assumes "\<not> hs_write (w_storage w)" and "HandleGrab (gh w) (w_storage w) destination = Inr None"
    and "\<And>c. slot_of w destination = Some c \<Longrightarrow> w_ctx w c \<noteq> None"
    and "destination \<noteq> 0" and "source \<noteq> 0" and "is_local w destination"
    and "sz AND kMessageTypeMask = sz" and "unat sz = length bs"
    and "type AND kPtypeTagDontcopy = 0" and "type AND kPtypeTagAllocsession = 0"
  shows "ServiceSend_op None source destination type session (Bytes bs) sz w = Inr (session, w)"
proof -
  have "grab_handle destination w = Inr (None, w)"
    using assms(1-3) by (auto simp: grab_handle_def rlock_def ctx_at_def split: option.splits)
  then have "ContextPush destination m w = Inr (False, w)" for m by (simp add: ContextPush_def)
  moreover have "FilterArgs None type session (Bytes bs) sz w =
      Inr (session, Bytes bs, sz OR type_bits (type AND 0xff), w)"
    using assms(8-10) by (simp add: FilterArgs_def copy_data_def)
  ultimately show ?thesis
    using assms(4-7) by (simp add: ServiceSend_op_def is_local_def)
qed

section \<open>A world with one service\<close>

definition sample_context :: service_context where
  "sample_context =
     \<lparr>cx_handle = 0x1000001,
      cx_mod = \<lparr>mod_name = ''libgate'', mod_create = True, mod_init = True, mod_release = True, mod_signal = False\<rparr>,
      cx_instance = 1, cx_session_id = 0, cx_ref = 1, cx_queue = 8, cx_cb = Some 1, cx_cb_ud = 0,
      cx_message_count = 0, cx_logfile = False, cx_init = True, cx_endless = False, cx_profile = True,
      cx_cpu_cost = 0, cx_cpu_start = 0, cx_result = []\<rparr>"

definition sample_queue :: "queue_message list \<Rightarrow> message_queue" where
  "sample_queue ms = (MessageQueue 0x1000001)\<lparr>mq_messages := ms\<rparr>"

definition sample_world :: "queue_message list \<Rightarrow> world" where
  "sample_world ms = (start_world 1 1 ''./service'')
     \<lparr>w_ctx := [7 \<mapsto> sample_context],
      w_storage := (HandleInit 1)\<lparr>hs_slot := [None, Some 7, None, None], hs_handle_index := 2\<rparr>,
      w_queues := queues_init\<lparr>qs_heap := [8 \<mapsto> sample_queue ms]\<rparr>\<rparr>"

lemma sample_hash: "slot_hash 0x1000001 4 = 1" "slot_hash 0x1000002 4 = 2"
  using slot_hash_mod [of 2 "0x1000001"] slot_hash_mod [of 2 "0x1000002"] by simp_all

lemma sample_slot: "slot_of (sample_world ms) 0x1000001 = Some 7" "slot_of (sample_world ms) 0x1000002 = None"
  using sample_hash by (simp_all add: slot_of_def sample_world_def HandleInit_def Let_def eval_nat_numeral)

lemma sample_world_fields:
  "w_ctx (sample_world ms) 7 = Some sample_context"
  "qs_heap (w_queues (sample_world ms)) 8 = Some (sample_queue ms)"
  "\<not> hs_write (w_storage (sample_world ms))"
  by (simp_all add: sample_world_def HandleInit_def)

lemma sample_reachable: "reachable (sample_world ms) 0x1000001 7 sample_context"
  using sample_slot sample_world_fields by (simp add: reachable_def sample_context_def)

lemma sample_local: "is_local (sample_world ms) 0x1000001" "is_local (sample_world ms) 0x1000002"
proof -
  have h: "w_harbor (sample_world ms) = 0x1000000"
    by (simp add: sample_world_def start_world_def HarborInit_def ProfileEnable_def)
  have "(0x1000001 :: u32) AND NOT 0xffffff = 0x1000000" "(0x1000002 :: u32) AND NOT 0xffffff = 0x1000000"
    by code_simp+
  then show "is_local (sample_world ms) 0x1000001" "is_local (sample_world ms) 0x1000002"
    by (simp_all add: is_local_def HarborMessageIsRemote_def h)
qed

lemma three_bytes: "(3 :: u64) AND kMessageTypeMask = 3"
  unfolding kMessageTypeMask_def by code_simp

lemma client_flags: "kPtypeClient AND kPtypeTagDontcopy = 0" "kPtypeClient AND kPtypeTagAllocsession = 0"
  "kPtypeClient AND 0xff = kPtypeClient"
  unfolding kPtypeClient_def kPtypeTagDontcopy_def kPtypeTagAllocsession_def by code_simp+

theorem send_delivers_and_deletes_witness:
  "\<exists>w' m. ServiceSend_op None 5 0x1000001 kPtypeClient 9 (Bytes [104, 105, 33]) 3 (sample_world []) = Inr (- 1, w') \<and>
    qs_heap (w_queues w') 8 = Some (sample_queue [m]) \<and> msg_data m = Bytes [104, 105, 33] \<and>
    msg_type m = 3 \<and> msg_size m = 3 \<and> ContextPush 0x1000001 m w' = Inl DanglingPointer"
proof -
  have "mq_in_global (sample_queue []) \<noteq> 0" by (simp add: sample_queue_def MessageQueue_def kMqInGlobal_def)
  moreover have "cx_queue sample_context = 8" by (simp add: sample_context_def)
  moreover have "(sample_queue [])\<lparr>mq_messages := mq_messages (sample_queue []) @ [m]\<rparr> = sample_queue [m]" for m
    by (simp add: sample_queue_def MessageQueue_def)
  ultimately show ?thesis
    using send_delivers_and_deletes [OF sample_reachable [of "[]"], of 5 "sample_queue []" 3 "[104, 105, 33]"
        kPtypeClient 9] sample_local(1) three_bytes client_flags sample_world_fields(2)
    by (auto simp: kPtypeClient_def)
qed

theorem send_to_nobody_succeeds_witness:
  "ServiceSend_op None 5 0x1000002 kPtypeClient 9 (Bytes [104, 105, 33]) 3 (sample_world []) =
     Inr (9, sample_world [])"
proof (rule send_to_nobody_succeeds)
  have "slot_of (sample_world []) 0x1000002 = None" by (rule sample_slot)
  then show "HandleGrab (gh (sample_world [])) (w_storage (sample_world [])) 0x1000002 = Inr None"
    using sample_hash(2)
    by (simp add: HandleGrab_def rlock_def sample_world_def HandleInit_def nthR_def eval_nat_numeral)
  show "w_ctx (sample_world []) c \<noteq> None" if "slot_of (sample_world []) 0x1000002 = Some c" for c
    using that sample_slot(2) by simp
qed (use sample_world_fields sample_local three_bytes client_flags in simp_all)

section \<open>Sessions\<close>

fun new_sessions :: "nat \<Rightarrow> ctx \<Rightarrow> world \<Rightarrow> (int list \<times> world) res" where
  "new_sessions 0 c w = Inr ([], w)"
| "new_sessions (Suc n) c w =
     bindR (Newsession c w) (\<lambda>(s, w'). bindR (new_sessions n c w') (\<lambda>(ss, w''). Inr (s # ss, w'')))"

lemma new_sessions_ok:
  assumes "w_ctx w c = Some x" and "0 \<le> cx_session_id x" and "cx_session_id x + int n < 2 ^ 31"
  shows "new_sessions n c w = Inr (map (\<lambda>i. cx_session_id x + 1 + int i) [0 ..< n],
    (if n = 0 then w else ctx_set c (x\<lparr>cx_session_id := cx_session_id x + int n\<rparr>) w))"
  using assms
proof (induction n arbitrary: w x)
  case (Suc n)
  let ?x = "x\<lparr>cx_session_id := cx_session_id x + 1\<rparr>"
  have "Newsession c w = Inr (cx_session_id x + 1, ctx_set c ?x w)"
    using Suc.prems by (simp add: Newsession_def ctx_at_def Let_def)
  moreover have "new_sessions n c (ctx_set c ?x w) = Inr (map (\<lambda>i. cx_session_id x + 2 + int i) [0 ..< n],
      (if n = 0 then ctx_set c ?x w else ctx_set c (x\<lparr>cx_session_id := cx_session_id x + int (Suc n)\<rparr>) w))"
    using Suc.IH [of "ctx_set c ?x w" ?x] Suc.prems by (simp add: algebra_simps)
  moreover have "map (\<lambda>i. cx_session_id x + 1 + int i) [0 ..< Suc n] =
      (cx_session_id x + 1) # map (\<lambda>i. cx_session_id x + 2 + int i) [0 ..< n]"
    unfolding upt_conv_Cons [OF zero_less_Suc] map_Suc_upt [symmetric] by (simp add: algebra_simps)
  ultimately show ?case by (auto simp: add.commute)
qed simp

text \<open>C28 The sessions of a service are positive and never repeat: they count up from the last one. The
  call after session \<open>2 ^ 31 - 1\<close> increments the signed counter past its range, before the comparison
  that is meant to start again at 1.\<close>

theorem sessions_count_up:
  assumes "w_ctx w c = Some x" and "0 \<le> cx_session_id x" and "cx_session_id x + int n < 2 ^ 31"
  shows "\<exists>w'. new_sessions n c w = Inr (map (\<lambda>i. cx_session_id x + 1 + int i) [0 ..< n], w') \<and>
    (\<forall>s \<in> set (map (\<lambda>i. cx_session_id x + 1 + int i) [0 ..< n]). 0 < s \<and> s < 2 ^ 31) \<and>
    (cx_session_id x + int n = 2 ^ 31 - 1 \<longrightarrow> Newsession c w' = Inl SignedOverflow)"
proof -
  let ?w = "if n = 0 then w else ctx_set c (x\<lparr>cx_session_id := cx_session_id x + int n\<rparr>) w"
  have "Newsession c ?w = Inl SignedOverflow" if "cx_session_id x + int n = 2 ^ 31 - 1"
    using that assms(1) by (auto simp: Newsession_def ctx_at_def)
  then show ?thesis using new_sessions_ok [OF assms] assms(2,3) by (intro exI [of _ ?w]) auto
qed

theorem sessions_count_up_witness:
  "\<exists>w'. new_sessions 3 7 (sample_world []) = Inr ([1, 2, 3], w')"
  using sessions_count_up [OF sample_world_fields(1), of 3 "[]"]
  by (auto simp: sample_context_def eval_nat_numeral)

section \<open>Launching\<close>

lemma ctx_delete_gone: "ctx_delete c w = Inr w' \<Longrightarrow> w_ctx w' c = None"
  by (auto simp: ctx_delete_def bindR_Inr_iff)

lemma Release_last: "Release c w = Inr (False, w') \<Longrightarrow> w_ctx w' c = None"
  by (auto simp: Release_def bindR_Inr_iff Let_def dest!: ctx_delete_gone split: if_splits)

lemma launched_faults: "\<exists>e. launched c queue msg w = Inl e"
proof (cases "Release c w")
  case (Inr r)
  then obtain ret w1 where r: "Release c w = Inr (ret, w1)" by (cases r) auto
  show ?thesis
  proof (cases ret)
    case True
    show ?thesis
    proof (cases "ctx_delete c w1")
      case (Inr w2)
      then have "ctx_at (w2\<lparr>w_queues := qs\<rparr>) c = Inl DanglingPointer" for qs
        using ctx_delete_gone by (simp add: ctx_at_def)
      then show ?thesis using r True Inr
        by (cases "GlobalQueue_Push queue (w_queues w2)") (simp_all add: launched_def Let_def)
    qed (use r True in \<open>simp add: launched_def\<close>)
  next
    case False
    then have "w_ctx w1 c = None" using r Release_last by simp
    with r False show ?thesis by (simp add: launched_def ctx_at_def)
  qed
qed (simp add: launched_def)

text \<open>No launch of a service succeeds: whenever the initialisation of the module reports success, the
  context is deleted and then used, whatever the module does.\<close>

theorem launch_never_succeeds:
  "NewContext code unset name param w \<noteq> Some (Inr (Some c, w'))"
proof
  assume launch: "NewContext code unset name param w = Some (Inr (Some c, w'))"
  have "launched d queue msg v \<noteq> Inr (Some c, w')" for d queue msg v
    using launched_faults [of d queue msg v] by auto
  moreover have "launch_failed unset d queue msg v \<noteq> Some (Inr (Some c, w'))" for d queue msg v
    by (auto simp: launch_failed_def bindO_def split: option.splits sum.splits)
  ultimately show False using launch
    by (auto simp: NewContext_def bindO_def split: option.splits sum.splits if_splits)
qed

section \<open>Dispatching\<close>

lemma grab_grabbed:
  assumes "reachable w h c x"
  shows "Release c (ctx_set c (x\<lparr>cx_ref := cx_ref x + 1\<rparr>) w\<lparr>w_queues := qs\<rparr>) = Inr (True, w\<lparr>w_queues := qs\<rparr>)"
proof -
  have "(w_ctx w)(c \<mapsto> x) = w_ctx w" using assms by (auto simp: reachable_def)
  then show ?thesis using assms by (subst Release_shared) (auto simp: reachable_def ctx_set_def)
qed

lemma next_queue_links:
  assumes "run_links U (w_queues w) xs"
  shows "\<exists>qs. next_queue w = Inr (case xs of [] \<Rightarrow> None | b # _ \<Rightarrow> Some b, w\<lparr>w_queues := qs\<rparr>) \<and>
    run_links U qs (tl xs) \<and> (\<forall>b. b \<notin> set xs \<longrightarrow> qs_heap qs b = qs_heap (w_queues w) b)"
proof (cases xs)
  case Nil
  with assms show ?thesis
    by (intro exI [of _ "w_queues w"]) (simp add: next_queue_def pop_empty_links)
next
  case (Cons b ys)
  with pop_links [of U "w_queues w" b ys] assms show ?thesis by (auto simp: next_queue_def)
qed



end
