(* ===== verification/Timer.thy ===== *)
theory Timer
  imports Service
begin

text \<open>
  \<open>skynet-src/timer.cpp\<close>: a hierarchical timer wheel. Nodes are addresses in a heap; a node that was
  deleted, or whose stack frame is gone, is no longer in it. The spin lock is a flag: taking it while
  the same thread holds it never ends, which is the fault \<open>Deadlock\<close>. What the clocks read is an
  argument. A definition with a loop over links returns an option, \<open>None\<close> for never.
\<close>

section \<open>Data\<close>

record timer_node =
  tn_next :: "nat option"
  tn_expire :: u32
  tn_handle :: u32
  tn_session :: int

text \<open>\<open>tail\<close> points to the head of the list, here \<open>None\<close>, or to its last node.\<close>

record link_list =
  ll_first :: "nat option"
  ll_tail :: "nat option"

text \<open>The buckets: \<open>near_[i]\<close> and \<open>t_[level][i]\<close>.\<close>

datatype place = Near nat | Level nat nat

fun place_ok :: "place \<Rightarrow> bool" where
  "place_ok (Near i) = (i < 256)"
| "place_ok (Level l i) = (l < 4 \<and> i < 64)"

record timer =
  tm_nodes :: "nat \<Rightarrow> timer_node option"
  tm_buckets :: "place \<Rightarrow> link_list"
  tm_locked :: bool
  tm_time :: u32
  tm_starttime :: u32
  tm_current :: u64
  tm_current_point :: u64

definition node_at :: "timer \<Rightarrow> nat \<Rightarrow> timer_node res" where
  "node_at s a = (case tm_nodes s a of None \<Rightarrow> Inl DanglingPointer | Some n \<Rightarrow> Inr n)"

definition node_set :: "nat \<Rightarrow> timer_node \<Rightarrow> timer \<Rightarrow> timer" where
  "node_set a n s = s\<lparr>tm_nodes := (tm_nodes s)(a := Some n)\<rparr>"

definition node_free :: "nat \<Rightarrow> timer \<Rightarrow> timer" where
  "node_free a s = s\<lparr>tm_nodes := (tm_nodes s)(a := None)\<rparr>"

definition bucket_set :: "place \<Rightarrow> link_list \<Rightarrow> timer \<Rightarrow> timer" where
  "bucket_set p b s = s\<lparr>tm_buckets := (tm_buckets s)(p := b)\<rparr>"

definition empty_list :: link_list where
  "empty_list = \<lparr>ll_first = None, ll_tail = None\<rparr>"

text \<open>\<open>TimerInit\<close>: \<open>secs\<close> is the wall clock, \<open>now\<close> the result of \<open>GetTime\<close>; \<open>new Timer ()\<close> zeroes the rest.\<close>

definition TimerInit :: "u32 \<Rightarrow> u64 \<Rightarrow> timer" where
  "TimerInit secs now =
     \<lparr>tm_nodes = (\<lambda>_. None), tm_buckets = (\<lambda>_. empty_list), tm_locked = False, tm_time = 0,
      tm_starttime = secs, tm_current = 0, tm_current_point = now\<rparr>"

definition timer_lock :: "timer \<Rightarrow> timer res" where
  "timer_lock s = (if tm_locked s then Inl Deadlock else Inr (s\<lparr>tm_locked := True\<rparr>))"

definition timer_unlock :: "timer \<Rightarrow> timer" where
  "timer_unlock s = s\<lparr>tm_locked := False\<rparr>"

section \<open>Lists\<close>

definition LinkClear :: "place \<Rightarrow> timer \<Rightarrow> (nat option \<times> timer) res" where
  "LinkClear p s =
     (if place_ok p then Inr (ll_first (tm_buckets s p), bucket_set p empty_list s) else Inl OutOfBounds)"

definition Link :: "place \<Rightarrow> nat \<Rightarrow> timer \<Rightarrow> timer res" where
  "Link p a s =
     (if \<not> place_ok p then Inl OutOfBounds
      else
        let b = tm_buckets s p in
        bindR (case ll_tail b of
                 None \<Rightarrow> Inr (bucket_set p (b\<lparr>ll_first := Some a, ll_tail := Some a\<rparr>) s)
               | Some t \<Rightarrow>
                   bindR (node_at s t) (\<lambda>n.
                     Inr (bucket_set p (b\<lparr>ll_tail := Some a\<rparr>) (node_set t (n\<lparr>tn_next := Some a\<rparr>) s))))
          (\<lambda>s'. bindR (node_at s' a) (\<lambda>n. Inr (node_set a (n\<lparr>tn_next := None\<rparr>) s'))))"

section \<open>Adding a node\<close>

definition TIME_NEAR_SHIFT :: nat where "TIME_NEAR_SHIFT = 8"
definition TIME_LEVEL_SHIFT :: nat where "TIME_LEVEL_SHIFT = 6"
definition TIME_NEAR_MASK :: u32 where "TIME_NEAR_MASK = 255"
definition TIME_LEVEL_MASK :: u32 where "TIME_LEVEL_MASK = 63"

text \<open>The loop over the levels; \<open>k\<close> iterations are left.\<close>

fun level_scan :: "u32 \<Rightarrow> u32 \<Rightarrow> nat \<Rightarrow> u32 \<Rightarrow> nat \<Rightarrow> nat" where
  "level_scan expire current i m 0 = i"
| "level_scan expire current i m (Suc k) =
     (if expire OR (m - 1) = current OR (m - 1) then i
      else level_scan expire current (Suc i) (push_bit TIME_LEVEL_SHIFT m) k)"

definition place_of :: "u32 \<Rightarrow> u32 \<Rightarrow> place" where
  "place_of expire current =
     (if expire OR TIME_NEAR_MASK = current OR TIME_NEAR_MASK then Near (unat (expire AND TIME_NEAR_MASK))
      else
        let i = level_scan expire current 0 (push_bit TIME_LEVEL_SHIFT 256) 3
        in Level i (unat (drop_bit (TIME_NEAR_SHIFT + i * TIME_LEVEL_SHIFT) expire AND TIME_LEVEL_MASK)))"

definition AddNode :: "nat \<Rightarrow> timer \<Rightarrow> timer res" where
  "AddNode a s =
     bindR (timer_lock s) (\<lambda>s1.
     bindR (node_at s1 a) (\<lambda>n.
     bindR (Link (place_of (tn_expire n) (tm_time s1)) a s1) (\<lambda>s2.
       Inr (timer_unlock s2))))"

section \<open>Moving and shifting\<close>

partial_function (option) move_nodes :: "nat option \<Rightarrow> timer \<Rightarrow> timer res option" where
  "move_nodes p s =
     (case p of
        None \<Rightarrow> Some (Inr s)
      | Some a \<Rightarrow>
          (case bindR (node_at s a) (\<lambda>n. bindR (AddNode a s) (\<lambda>s'. Inr (tn_next n, s'))) of
             Inl e \<Rightarrow> Some (Inl e)
           | Inr r \<Rightarrow> (case r of (temp, s') \<Rightarrow> move_nodes temp s')))"

definition MoveList :: "nat \<Rightarrow> nat \<Rightarrow> timer \<Rightarrow> timer res option" where
  "MoveList level idx s =
     bindO (Some (LinkClear (Level level idx) s)) (\<lambda>(first, s'). move_nodes first s')"

text \<open>
  The loop of \<open>TimerShift\<close>: the bucket it moves, if any. \<open>mask\<close> is an \<open>int\<close>, which a fifth round would
  shift out of its range.
\<close>

fun shift_scan :: "u32 \<Rightarrow> u32 \<Rightarrow> u32 \<Rightarrow> nat \<Rightarrow> nat \<Rightarrow> (nat \<times> nat) option res" where
  "shift_scan ct m time i 0 = Inl SignedOverflow"
| "shift_scan ct m time i (Suc k) =
     (if ct AND (m - 1) = 0 then
        let idx = unat (time AND TIME_LEVEL_MASK) in
        if idx \<noteq> 0 then Inr (Some (i, idx))
        else shift_scan ct (push_bit TIME_LEVEL_SHIFT m) (drop_bit TIME_LEVEL_SHIFT time) (Suc i) k
      else Inr None)"

definition shifted_bucket :: "u32 \<Rightarrow> (nat \<times> nat) option res" where
  "shifted_bucket ct =
     (if ct = 0 then Inr (Some (3, 0)) else shift_scan ct 256 (drop_bit TIME_NEAR_SHIFT ct) 0 4)"

definition TimerShift :: "timer \<Rightarrow> timer res option" where
  "TimerShift s =
     (let s1 = s\<lparr>tm_time := tm_time s + 1\<rparr> in
      bindO (Some (shifted_bucket (tm_time s1))) (\<lambda>r.
        case r of None \<Rightarrow> Some (Inr s1) | Some (level, idx) \<Rightarrow> MoveList level idx s1))"

section \<open>Firing\<close>

definition kPtypeResponse :: int where "kPtypeResponse = 1"

definition timer_message :: "int \<Rightarrow> queue_message" where
  "timer_message session =
     \<lparr>msg_source = 0, msg_session = session, msg_data = NoData, msg_sz = type_bits kPtypeResponse\<rparr>"

partial_function (option) DispatchList :: "nat \<Rightarrow> timer \<Rightarrow> world \<Rightarrow> (timer \<times> world) res option" where
  "DispatchList current s w =
     (case bindR (node_at s current) (\<lambda>n.
             bindR (ContextPush (tn_handle n) (timer_message (tn_session n)) w) (\<lambda>(_, w').
               Inr (tn_next n, node_free current s, w'))) of
        Inl e \<Rightarrow> Some (Inl e)
      | Inr r \<Rightarrow>
          (case r of (next, s', w') \<Rightarrow>
             (case next of None \<Rightarrow> Some (Inr (s', w')) | Some a \<Rightarrow> DispatchList a s' w')))"

partial_function (option) execute_loop :: "place \<Rightarrow> timer \<Rightarrow> world \<Rightarrow> (timer \<times> world) res option" where
  "execute_loop p s w =
     (case LinkClear p s of
        Inl e \<Rightarrow> Some (Inl e)
      | Inr r \<Rightarrow>
          (case r of (first, s1) \<Rightarrow>
             (case first of
                None \<Rightarrow> Some (Inr (s, w))
              | Some a \<Rightarrow>
                  Option.bind (DispatchList a (timer_unlock s1) w) (\<lambda>r.
                    case bindR r (\<lambda>(s2, w'). bindR (timer_lock s2) (\<lambda>s3. Inr (s3, w'))) of
                      Inl e \<Rightarrow> Some (Inl e)
                    | Inr r' \<Rightarrow> (case r' of (s3, w') \<Rightarrow> execute_loop p s3 w')))))"

definition Execute :: "timer \<Rightarrow> world \<Rightarrow> (timer \<times> world) res option" where
  "Execute s w = execute_loop (Near (unat (tm_time s AND TIME_NEAR_MASK))) s w"

definition Update :: "timer \<Rightarrow> world \<Rightarrow> (timer \<times> world) res option" where
  "Update s w =
     bindO (Some (timer_lock s)) (\<lambda>s1.
     bindO (Execute s1 w) (\<lambda>(s2, w2).
     bindO (TimerShift s2) (\<lambda>s3.
     bindO (Execute s3 w2) (\<lambda>(s4, w4).
       Some (Inr (timer_unlock s4, w4))))))"

section \<open>Interface\<close>

text \<open>
  The node of \<open>Timeout\<close> is a local variable at the address \<open>a\<close>, which ends with the call.
\<close>

definition Timeout :: "nat \<Rightarrow> u32 \<Rightarrow> int \<Rightarrow> int \<Rightarrow> timer \<Rightarrow> world \<Rightarrow> (int \<times> timer \<times> world) res" where
  "Timeout a handle time session s w =
     (if time \<le> 0 then
        bindR (ContextPush handle (timer_message session) w) (\<lambda>(pushed, w').
          Inr (if pushed then - 1 else session, s, w'))
      else
        let n = \<lparr>tn_next = None, tn_expire = word_of_int time + tm_time s, tn_handle = handle,
                 tn_session = session\<rparr> in
        bindR (AddNode a (node_set a n s)) (\<lambda>s'. Inr (session, node_free a s', w)))"

text \<open>\<open>cp\<close> is the result of \<open>GetTime\<close>.\<close>

fun update_times :: "nat \<Rightarrow> timer \<Rightarrow> world \<Rightarrow> (timer \<times> world) res option" where
  "update_times 0 s w = Some (Inr (s, w))"
| "update_times (Suc n) s w = bindO (Update s w) (\<lambda>(s', w'). update_times n s' w')"

definition Updatetime :: "u64 \<Rightarrow> timer \<Rightarrow> world \<Rightarrow> (timer \<times> world) res option" where
  "Updatetime cp s w =
     (if cp < tm_current_point s then Some (Inr (s\<lparr>tm_current_point := cp\<rparr>, w))
      else if cp \<noteq> tm_current_point s then
        let diff = ucast (cp - tm_current_point s) :: u32 in
        update_times (unat diff)
          (s\<lparr>tm_current_point := cp, tm_current := tm_current s + ucast diff\<rparr>) w
      else Some (Inr (s, w)))"

definition Starttime :: "timer \<Rightarrow> u32" where
  "Starttime s = tm_starttime s"

definition Now :: "timer \<Rightarrow> u64" where
  "Now s = tm_current s"

section \<open>Clocks\<close>

text \<open>\<open>clock_gettime\<close> answers \<open>tv_sec\<close> and \<open>tv_nsec\<close>; the wheel counts in hundredths of a second.\<close>

definition systime :: "int \<times> int \<Rightarrow> u32 \<times> u32" where
  "systime ti = (word_of_int (fst ti), word_of_int (snd ti div 10000000))"

definition GetTime :: "int \<times> int \<Rightarrow> u64" where
  "GetTime ti = (let t = word_of_int (fst ti) * 100 in t + word_of_int (snd ti div 10000000))"

definition ThreadTime :: "int \<times> int \<Rightarrow> u64" where
  "ThreadTime timespec = word_of_int (fst timespec) * 1000000 + word_of_int (snd timespec) div (1000000000 div 1000000)"

lemma centiseconds_bound: "0 \<le> n \<Longrightarrow> n < 1000000000 \<Longrightarrow> n div 10000000 < (100 :: int)"
  using zdiv_mono1 [of n 999999999 10000000] by simp

lemma GetTime_centiseconds:
  assumes "0 \<le> s" and "s < 2 ^ 57" and "0 \<le> n" and "n < 1000000000"
  shows "uint (GetTime (s, n)) = (s * 1000000000 + n) div 10000000"
proof -
  have "s * 1000000000 + n = n + (s * 100) * 10000000" by simp
  then have d: "(s * 1000000000 + n) div 10000000 = s * 100 + n div 10000000"
    by (simp only: div_mult_self1)
  define t where "t = s * 100 + n div 10000000"
  have "GetTime (s, n) = word_of_int t" by (simp add: GetTime_def Let_def t_def)
  moreover have "0 \<le> t" "t < 2 ^ 64"
    using assms pos_imp_zdiv_nonneg_iff [of 10000000 n] centiseconds_bound [of n] by (simp_all add: t_def)
  ultimately have "uint (GetTime (s, n)) = t" by (simp add: uint_word_of_int_eq take_bit_int_eq_self)
  then show ?thesis by (simp add: d t_def)
qed

end
