(* ===== verification/TimerPlace.thy ===== *)
theory TimerPlace
  imports Timer
begin

text \<open>
  The arithmetic of the timer wheel: the bucket of a timer in terms of quotients, and what a tick
  changes about it.
\<close>

section \<open>Words as numbers\<close>

lemma or_mask_eq: "a OR mask n = b OR mask n \<longleftrightarrow> unat a div 2 ^ n = unat b div 2 ^ n" for a b :: u32
proof -
  have "a OR mask n = b OR mask n \<longleftrightarrow> drop_bit n a = drop_bit n b"
  proof
    assume eq: "a OR mask n = b OR mask n"
    show "drop_bit n a = drop_bit n b"
    proof (rule bit_eqI)
      fix k
      have "bit (a OR mask n) (n + k) = bit (b OR mask n) (n + k)" using eq by simp
      then show "bit (drop_bit n a) k = bit (drop_bit n b) k" by (simp add: bit_or_iff bit_mask_iff bit_drop_bit_eq)
    qed
  next
    assume eq: "drop_bit n a = drop_bit n b"
    show "a OR mask n = b OR mask n"
    proof (rule bit_eqI)
      fix k
      assume "possible_bit TYPE(u32) k"
      have "bit (drop_bit n a) (k - n) = bit (drop_bit n b) (k - n)" using eq by simp
      then show "bit (a OR mask n) k = bit (b OR mask n) k"
        using \<open>possible_bit TYPE(u32) k\<close>
        by (cases "k < n") (auto simp: bit_or_iff bit_mask_iff bit_drop_bit_eq)
    qed
  qed
  also have "\<dots> \<longleftrightarrow> unat (drop_bit n a) = unat (drop_bit n b)" by (simp add: word_unat_eq_iff)
  also have "\<dots> \<longleftrightarrow> unat a div 2 ^ n = unat b div 2 ^ n"
    by (simp only: unat_drop_bit_eq) (simp only: drop_bit_eq_div)
  finally show ?thesis .
qed

lemma unat_and_mask: "unat (a AND mask n) = unat a mod 2 ^ n" for a :: u32
  by (simp flip: take_bit_eq_mask add: unsigned_take_bit_eq) (simp add: take_bit_eq_mod)

lemma unat_drop: "unat (drop_bit n a) = unat a div 2 ^ n" for a :: u32
  by (simp only: unat_drop_bit_eq) (simp only: drop_bit_eq_div)

lemma masks: "TIME_NEAR_MASK = mask 8" "TIME_LEVEL_MASK = mask 6" "(16383 :: u32) = mask 14"
  "(1048575 :: u32) = mask 20" "(67108863 :: u32) = mask 26" "(255 :: u32) = mask 8"
  by (simp_all add: TIME_NEAR_MASK_def TIME_LEVEL_MASK_def mask_eq_exp_minus_1)

section \<open>Levels\<close>

text \<open>The blocks of level \<open>k\<close> are \<open>2 ^ (8 + 6 * k)\<close> ticks long.\<close>

definition block :: "nat \<Rightarrow> nat \<Rightarrow> nat" where
  "block k x = x div 2 ^ (8 + 6 * k)"

definition lev :: "nat \<Rightarrow> nat \<Rightarrow> nat" where
  "lev e t =
     (if block 0 e = block 0 t then 0 else if block 1 e = block 1 t then 1
      else if block 2 e = block 2 t then 2 else if block 3 e = block 3 t then 3 else 4)"

definition nplace :: "nat \<Rightarrow> nat \<Rightarrow> place" where
  "nplace e t = (if lev e t = 0 then Near (e mod 256) else Level (lev e t - 1) (block (lev e t - 1) e mod 64))"

lemma level_scan_lev:
  "level_scan e c 0 (push_bit TIME_LEVEL_SHIFT 256) 3 =
    (if block 1 (unat e) = block 1 (unat c) then 0 else if block 2 (unat e) = block 2 (unat c) then 1
     else if block 3 (unat e) = block 3 (unat c) then 2 else 3)"
proof -
  have "push_bit 6 256 = (16384 :: u32)" "push_bit 6 16384 = (1048576 :: u32)" "push_bit 6 1048576 = (67108864 :: u32)"
    by simp_all
  then show ?thesis
    by (simp add: TIME_LEVEL_SHIFT_def numeral_3_eq_3 masks(3-5) or_mask_eq block_def)
qed

lemma place_of_nat: "place_of e c = nplace (unat e) (unat c)"
proof -
  have idx: "unat (drop_bit (TIME_NEAR_SHIFT + i * TIME_LEVEL_SHIFT) e AND TIME_LEVEL_MASK) = block i (unat e) mod 64" for i
    unfolding masks(2) unat_and_mask unat_drop block_def TIME_NEAR_SHIFT_def TIME_LEVEL_SHIFT_def
    by (simp add: mult.commute)
  have near: "(e OR TIME_NEAR_MASK = c OR TIME_NEAR_MASK) = (block 0 (unat e) = block 0 (unat c))"
    by (simp only: masks(1) or_mask_eq) (simp add: block_def)
  have low: "unat (e AND TIME_NEAR_MASK) = unat e mod 256" by (simp add: masks(1) unat_and_mask)
  show ?thesis unfolding place_of_def Let_def level_scan_lev idx near low nplace_def lev_def by simp
qed

text \<open>A tick moves a bucket of the highest level at which a new block begins.\<close>

definition boundary :: "nat \<Rightarrow> nat \<Rightarrow> bool" where
  "boundary k t \<longleftrightarrow> t mod 2 ^ (8 + 6 * k) = 0"

lemma boundary_Suc: "boundary (Suc k) t \<longleftrightarrow> boundary k t \<and> block k t mod 64 = 0"
proof -
  have "t mod (2 ^ (8 + 6 * k) * 64) = 2 ^ (8 + 6 * k) * (t div 2 ^ (8 + 6 * k) mod 64) + t mod 2 ^ (8 + 6 * k)"
    by (rule mod_mult2_eq)
  moreover have "(2::nat) ^ (8 + 6 * Suc k) = 2 ^ (8 + 6 * k) * 64" by (simp add: power_add)
  ultimately show ?thesis by (auto simp: boundary_def block_def)
qed

definition nbucket :: "nat \<Rightarrow> (nat \<times> nat) option" where
  "nbucket t =
     (if t = 0 then Some (3, 0) else if \<not> boundary 0 t then None
      else if \<not> boundary 1 t then Some (0, block 0 t mod 64)
      else if \<not> boundary 2 t then Some (1, block 1 t mod 64)
      else if \<not> boundary 3 t then Some (2, block 2 t mod 64)
      else Some (3, block 3 t mod 64))"

lemma shift_scan_step:
  assumes "m - 1 = mask (8 + 6 * i)" and "time = drop_bit (8 + 6 * i) ct"
  shows "shift_scan ct m time i (Suc k) =
    (if boundary i (unat ct) then
       if block i (unat ct) mod 64 \<noteq> 0 then Inr (Some (i, block i (unat ct) mod 64))
       else shift_scan ct (push_bit 6 m) (drop_bit 6 time) (Suc i) k
     else Inr None)"
proof -
  have "ct AND mask (8 + 6 * i) = 0 \<longleftrightarrow> boundary i (unat ct)"
    by (simp add: boundary_def unat_eq_0 [symmetric] unat_and_mask del: unat_eq_0)
  moreover have "unat (time AND TIME_LEVEL_MASK) = block i (unat ct) mod 64"
    unfolding masks(2) unat_and_mask assms(2) unat_drop block_def by simp
  ultimately show ?thesis by (simp add: assms(1) Let_def TIME_LEVEL_SHIFT_def)
qed

lemma top_block: "t < 2 ^ 32 \<Longrightarrow> block 3 t mod 64 = block 3 t"
  by (simp add: block_def less_mult_imp_div_less)

lemma shifted_bucket_nat: "shifted_bucket ct = Inr (nbucket (unat ct))"
proof (cases "ct = 0")
  case True
  then show ?thesis by (simp add: shifted_bucket_def nbucket_def)
next
  case False
  let ?t = "unat ct"
  have t: "?t < 2 ^ 32" "?t \<noteq> 0" using False unsigned_less [of ct, where ?'a = nat] by (simp_all add: unat_eq_0)
  have top: "block 3 ?t mod 64 \<noteq> 0" if "boundary 3 ?t"
    using t that top_block [OF t(1)] by (auto simp: boundary_def block_def div_eq_0_iff)
  have step: "shift_scan ct (2 ^ (8 + 6 * i)) (drop_bit (8 + 6 * i) ct) i (Suc k) =
      (if boundary i ?t then
         if block i ?t mod 64 \<noteq> 0 then Inr (Some (i, block i ?t mod 64))
         else shift_scan ct (2 ^ (8 + 6 * Suc i)) (drop_bit (8 + 6 * Suc i) ct) (Suc i) k
       else Inr None)" for i k
  proof -
    have "push_bit 6 (2 ^ (8 + 6 * i)) = (2 ^ (8 + 6 * Suc i) :: u32)"
      by (simp only: push_bit_eq_mult power_add [symmetric]) (simp add: algebra_simps)
    moreover have "drop_bit 6 (drop_bit (8 + 6 * i) ct) = drop_bit (8 + 6 * Suc i) ct"
      by (simp only: drop_bit_drop_bit) (simp add: add_ac)
    ultimately show ?thesis by (simp only: shift_scan_step [OF mask_eq_exp_minus_1 [symmetric] refl])
  qed
  have "shift_scan ct (2 ^ (8 + 6 * 0)) (drop_bit (8 + 6 * 0) ct) 0 (Suc (Suc (Suc (Suc 0)))) = Inr (nbucket ?t)"
    unfolding step using t(2) top boundary_Suc [of 0 ?t] boundary_Suc [of 1 ?t] boundary_Suc [of 2 ?t]
    by (simp add: nbucket_def numeral_2_eq_2 numeral_3_eq_3)
  then show ?thesis using False by (simp add: shifted_bucket_def TIME_NEAR_SHIFT_def eval_nat_numeral)
qed

section \<open>A tick\<close>

lemma block_mono: "block j x = block j y \<Longrightarrow> j \<le> k \<Longrightarrow> block k x = block k y"
proof -
  assume eq: "block j x = block j y" and "j \<le> k"
  then obtain d where k: "k = j + d" using le_Suc_ex by blast
  have "block k z = block j z div 2 ^ (6 * d)" for z
    by (simp add: block_def k div_mult2_eq [symmetric] power_add [symmetric] algebra_simps)
  then show ?thesis using eq by simp
qed

lemma boundary_mono: "boundary k t \<Longrightarrow> j \<le> k \<Longrightarrow> boundary j t"
proof (induction k)
  case (Suc k)
  then show ?case using boundary_Suc [of k t] by (cases "j = Suc k") auto
qed simp

lemma block_Suc: "\<not> boundary k (Suc t) \<Longrightarrow> block k (Suc t) = block k t"
  by (simp add: block_def boundary_def div_Suc)

text \<open>The last tick of a block has nothing after it in the block.\<close>

lemma block_end:
  assumes "boundary k (Suc t)" and "t < e"
  shows "block k e \<noteq> block k t"
proof
  let ?b = "(2::nat) ^ (8 + 6 * k)"
  assume "block k e = block k t"
  then have "?b * (e div ?b) = ?b * (t div ?b)" by (simp add: block_def)
  moreover have "?b * (t div ?b) + t mod ?b = t" "?b * (e div ?b) + e mod ?b = e" by (rule mult_div_mod_eq)+
  moreover have "t mod ?b = ?b - 1"
    using assms(1) mod_Suc [of t ?b] by (auto simp: boundary_def split: if_splits)
  moreover have "e mod ?b < ?b" by (rule mod_less_divisor) simp
  ultimately show False using assms(2) by linarith
qed

lemma lev_unchanged: "(\<And>k. k \<le> 3 \<Longrightarrow> (block k e = block k t') = (block k e = block k t)) \<Longrightarrow> lev e t' = lev e t"
  by (simp add: lev_def)

lemma nplace_cong: "lev e t' = lev e t \<Longrightarrow> nplace e t' = nplace e t"
  by (simp add: nplace_def)

lemma lev_iff: "k \<le> 3 \<Longrightarrow> lev e t \<le> k \<longleftrightarrow> block k e = block k t"
  using block_mono [of 0 e t 1] block_mono [of 1 e t 2] block_mono [of 2 e t 3]
  by (auto simp: lev_def numeral_3_eq_3 numeral_2_eq_2 le_Suc_eq split: if_splits)

lemma lev_le: "lev e t \<le> 4"
  by (simp add: lev_def)

text \<open>
  What a tick from \<open>t\<close> to \<open>Suc t\<close> means for a timer that expires later: it stays where it is, or it is
  in the bucket that the tick moves.
\<close>

lemma tick_None:
  assumes "nbucket (Suc t) = None"
  shows "nplace e (Suc t) = nplace e t"
proof -
  have "\<not> boundary k (Suc t)" if "k \<le> 3" for k
    using assms boundary_mono [of k "Suc t" 0] by (auto simp: nbucket_def split: if_splits)
  then show ?thesis by (intro nplace_cong lev_unchanged) (simp add: block_Suc)
qed

lemma tick_Some:
  assumes "t < e" and "boundary j (Suc t)" and "j \<le> 3" and "j = 3 \<or> \<not> boundary (Suc j) (Suc t)"
  shows "nplace e t = Level j (block j (Suc t) mod 64) \<or> nplace e (Suc t) = nplace e t"
proof -
  have up: "block k (Suc t) = block k t" if "j < k" "k \<le> 3" for k
    using assms(3,4) that boundary_mono [of k "Suc t" "Suc j"] block_Suc [of k t] by auto
  have down: "block k e \<noteq> block k t" if "k \<le> j" for k
    using block_end [OF boundary_mono [OF assms(2) that] assms(1)] .
  then have lev: "j < lev e t" using lev_iff [OF assms(3), of e t] by auto
  show ?thesis
  proof (cases "lev e t = Suc j")
    case True
    show ?thesis
    proof (cases "block j e = block j (Suc t)")
      case True
      with \<open>lev e t = Suc j\<close> show ?thesis by (simp add: nplace_def)
    next
      case False
      then have "\<not> lev e (Suc t) \<le> j" using lev_iff [OF assms(3), of e "Suc t"] by simp
      moreover have "lev e (Suc t) \<le> Suc j"
        using \<open>lev e t = Suc j\<close> lev_iff [of "Suc j" e t] lev_iff [of "Suc j" e "Suc t"] up [of "Suc j"]
          lev_le [of e "Suc t"] assms(3) by (cases "j = 3") auto
      ultimately show ?thesis using \<open>lev e t = Suc j\<close> by (intro disjI2 nplace_cong) simp
    qed
  next
    case False
    with lev have "Suc j < lev e t" by simp
    moreover from this have "Suc j \<le> 3" using lev_le [of e t] by simp
    ultimately have "block (Suc j) e \<noteq> block (Suc j) t" using lev_iff [of "Suc j" e t] by simp
    then have "block k e \<noteq> block k (Suc t)" if "k \<le> Suc j" for k
      using block_mono [of k e "Suc t" "Suc j"] that up [of "Suc j"] \<open>Suc j \<le> 3\<close> by auto
    moreover have "block k e \<noteq> block k t" if "k \<le> Suc j" for k
      using block_mono [of k e t "Suc j"] that \<open>block (Suc j) e \<noteq> block (Suc j) t\<close> by auto
    ultimately have "(block k e = block k (Suc t)) = (block k e = block k t)" if "k \<le> 3" for k
      using up [of k] that by (cases "k \<le> Suc j") auto
    then show ?thesis by (intro disjI2 nplace_cong lev_unchanged)
  qed
qed

text \<open>
  The same for the 32-bit clock, which wraps around: a timer is at most \<open>2 ^ 31 - 1\<close> ticks ahead, and
  one that expires after the wrap-around is on the highest level until then.
\<close>

definition ahead :: "u32 \<Rightarrow> u32 \<Rightarrow> bool" where
  "ahead e t \<longleftrightarrow> 0 < e - t \<and> e - t < 2 ^ 31"

lemma ahead_nat:
  assumes "ahead e t"
  shows "unat t < unat e \<or> unat e + 2 ^ 31 < unat t"
proof -
  have "unat (e - t) < 2 ^ 31" "0 < unat (e - t)"
    using assms by (simp_all add: ahead_def word_less_nat_alt)
  moreover have "unat e < 2 ^ 32" using unsigned_less [of e, where ?'a = nat] by simp
  ultimately show ?thesis using unat_sub_if_size [of e t] by (auto simp: word_size split: if_splits)
qed

lemma far_block: "x + 2 ^ 31 < y \<Longrightarrow> block 3 x < block 3 y"
proof -
  assume "x + 2 ^ 31 < y"
  then have "(x + 2 ^ 26) div 2 ^ 26 \<le> y div 2 ^ 26" by (intro div_le_mono) simp
  then show ?thesis by (simp add: block_def)
qed

lemma far_lev: "block 3 e \<noteq> block 3 t \<Longrightarrow> lev e t = 4"
  using lev_iff [of 3 e t] lev_le [of e t] by simp

lemma place_tick:
  assumes "ahead e t"
  shows "case nbucket (unat (t + 1)) of
    None \<Rightarrow> place_of e (t + 1) = place_of e t
  | Some (j, i) \<Rightarrow> place_of e t = Level j i \<or> place_of e (t + 1) = place_of e t"
proof (cases "unat t < unat e")
  case True
  then have "Suc (unat t) < 2 ^ 32" using unsigned_less [of e, where ?'a = nat] by simp
  then have t': "unat (t + 1) = Suc (unat t)" by (simp add: unat_word_ariths)
  show ?thesis
    using tick_None [of "unat t" "unat e"] tick_Some [OF True, of 0] tick_Some [OF True, of 1]
      tick_Some [OF True, of 2] tick_Some [OF True, of 3]
    unfolding place_of_nat t' by (auto simp: nbucket_def numeral_2_eq_2 numeral_3_eq_3)
next
  case False
  then have far: "unat e + 2 ^ 31 < unat t" using ahead_nat [OF assms] by simp
  then have old: "lev (unat e) (unat t) = 4" using far_block [OF far] by (intro far_lev) simp
  show ?thesis
  proof (cases "t + 1 = 0")
    case True
    show ?thesis
    proof (cases "block 3 (unat e) = 0")
      case True
      with \<open>t + 1 = 0\<close> old show ?thesis by (simp add: nbucket_def place_of_nat nplace_def)
    next
      case False
      then have "lev (unat e) 0 = 4" by (intro far_lev) (simp add: block_def)
      with \<open>t + 1 = 0\<close> old show ?thesis by (simp add: nbucket_def place_of_nat nplace_def)
    qed
  next
    case False
    then have t': "unat (t + 1) = Suc (unat t)" using unatSuc [of t] by (simp add: add.commute)
    then have "lev (unat e) (unat (t + 1)) = 4"
      using far_block [of "unat e" "Suc (unat t)"] far by (intro far_lev) simp
    with old show ?thesis by (simp add: place_of_nat nplace_def split: option.splits)
  qed
qed

text \<open>The near bucket of the current tick holds the timers that are due, and no others.\<close>

lemma due_place: "place_of e t = Near (unat (t AND TIME_NEAR_MASK)) \<longleftrightarrow> e = t"
proof -
  have "place_of e t = Near (unat (t AND TIME_NEAR_MASK)) \<longleftrightarrow>
      lev (unat e) (unat t) = 0 \<and> unat e mod 256 = unat t mod 256"
    by (simp add: place_of_nat nplace_def masks(1) unat_and_mask)
  also have "\<dots> \<longleftrightarrow> unat e div 256 = unat t div 256 \<and> unat e mod 256 = unat t mod 256"
    using lev_iff [of 0 "unat e" "unat t"] by (simp add: block_def)
  also have "\<dots> \<longleftrightarrow> unat e = unat t" by (metis div_mult_mod_eq)
  also have "\<dots> \<longleftrightarrow> e = t" by (simp add: word_unat_eq_iff)
  finally show ?thesis .
qed

lemma ahead_tick:
  assumes "ahead e t"
  shows "e = t + 1 \<or> ahead e (t + 1)"
proof (cases "e = t + 1")
  case False
  have "e - t \<noteq> 0" using assms by (auto simp: ahead_def)
  then have pred: "unat (e - (t + 1)) = unat (e - t) - 1" using unat_minus_one [of "e - t"] by (simp add: algebra_simps)
  have "e - (t + 1) \<noteq> 0" using False by (metis eq_iff_diff_eq_0)
  then have "0 < unat (e - (t + 1))" by (simp add: unat_gt_0)
  moreover have "unat (e - t) < 2 ^ 31" using assms by (simp add: ahead_def word_less_nat_alt)
  then have "unat (e - (t + 1)) < 2 ^ 31" using pred by linarith
  ultimately show ?thesis by (simp add: ahead_def word_less_nat_alt)
qed simp

lemma place_of_ok: "place_ok (place_of e t)"
proof -
  have "lev (unat e) (unat t) - 1 < 4" using lev_le [of "unat e" "unat t"] by simp
  then show ?thesis by (simp add: place_of_nat nplace_def)
qed

end
