(* ===== verification/TimerFacts.thy ===== *)
theory TimerFacts
  imports TimerPlace Dispatch
begin

text \<open>
  Properties of the timer wheel: what the buckets hold after each operation, when nodes are due, and
  what a tick does.
\<close>

section \<open>The buckets as lists\<close>

definition tnext :: "timer \<Rightarrow> nat \<Rightarrow> nat option" where
  "tnext s a = (case tm_nodes s a of None \<Rightarrow> None | Some n \<Rightarrow> tn_next n)"

text \<open>The data of a node, without its link.\<close>

definition tdata :: "timer \<Rightarrow> nat \<Rightarrow> (u32 \<times> u32 \<times> int) option" where
  "tdata s a = map_option (\<lambda>n. (tn_expire n, tn_handle n, tn_session n)) (tm_nodes s a)"

definition bucket_is :: "timer \<Rightarrow> place \<Rightarrow> nat list \<Rightarrow> bool" where
  "bucket_is s p xs \<longleftrightarrow> linked (tnext s) (ll_first (tm_buckets s p)) (ll_tail (tm_buckets s p)) xs \<and>
     (\<forall>a \<in> set xs. tm_nodes s a \<noteq> None)"

definition heaped :: "timer \<Rightarrow> (place \<Rightarrow> nat list) \<Rightarrow> bool" where
  "heaped s L \<longleftrightarrow> (\<forall>p. bucket_is s p (L p)) \<and> (\<forall>p q. p \<noteq> q \<longrightarrow> set (L p) \<inter> set (L q) = {})"

lemma heapedD: "heaped s L \<Longrightarrow> bucket_is s p (L p)"
  "heaped s L \<Longrightarrow> p \<noteq> q \<Longrightarrow> set (L p) \<inter> set (L q) = {}"
  by (auto simp: heaped_def)

lemma bucket_is_cong:
  assumes "tm_buckets s' p = tm_buckets s p" and "\<And>a. a \<in> set xs \<Longrightarrow> tm_nodes s' a = tm_nodes s a"
  shows "bucket_is s' p xs = bucket_is s p xs"
proof -
  have "tnext s' a = tnext s a" if "a \<in> set xs" for a using assms(2) [OF that] by (simp add: tnext_def)
  then show ?thesis using assms(2) linked_ptr_cong [of xs "tnext s'" "tnext s"] by (simp add: bucket_is_def assms(1))
qed

lemma tdata_live: "tdata s a = tdata s' a \<Longrightarrow> tm_nodes s a = None \<longleftrightarrow> tm_nodes s' a = None"
  by (auto simp: tdata_def map_option_eq_Some dest: sym)

lemma timer_simps [simp]:
  "tm_nodes (node_set a n s) = (tm_nodes s)(a := Some n)" "tm_buckets (node_set a n s) = tm_buckets s"
  "tm_locked (node_set a n s) = tm_locked s" "tm_time (node_set a n s) = tm_time s"
  "tm_nodes (bucket_set p b s) = tm_nodes s" "tm_buckets (bucket_set p b s) = (tm_buckets s)(p := b)"
  "tm_locked (bucket_set p b s) = tm_locked s" "tm_time (bucket_set p b s) = tm_time s"
  "tm_nodes (node_free a s) = (tm_nodes s)(a := None)" "tm_buckets (node_free a s) = tm_buckets s"
  "tm_locked (node_free a s) = tm_locked s" "tm_time (node_free a s) = tm_time s"
  "tm_nodes (timer_unlock s) = tm_nodes s" "tm_buckets (timer_unlock s) = tm_buckets s"
  "\<not> tm_locked (timer_unlock s)" "tm_time (timer_unlock s) = tm_time s"
  by (simp_all add: node_set_def bucket_set_def node_free_def timer_unlock_def)

lemma bucket_is_state [simp]:
  "bucket_is (s\<lparr>tm_locked := l\<rparr>) p xs = bucket_is s p xs" "bucket_is (s\<lparr>tm_time := t\<rparr>) p xs = bucket_is s p xs"
  "bucket_is (timer_unlock s) p xs = bucket_is s p xs"
  by (rule bucket_is_cong; simp)+

lemma heaped_state [simp]:
  "heaped (s\<lparr>tm_locked := l\<rparr>) L = heaped s L" "heaped (s\<lparr>tm_time := t\<rparr>) L = heaped s L"
  "heaped (timer_unlock s) L = heaped s L"
  by (simp_all add: heaped_def)

lemma tdata_state [simp]:
  "tdata (s\<lparr>tm_locked := l\<rparr>) = tdata s" "tdata (s\<lparr>tm_time := t\<rparr>) = tdata s"
  "tdata (timer_unlock s) = tdata s" "tdata (bucket_set p b s) = tdata s"
  by (auto simp: tdata_def fun_eq_iff)

lemma node_at_Some: "tm_nodes s a = Some n \<Longrightarrow> node_at s a = Inr n"
  by (simp add: node_at_def)

lemma tnext_Some: "tm_nodes s a = Some n \<Longrightarrow> tnext s a = tn_next n"
  by (simp add: tnext_def)

section \<open>Linking\<close>

lemma Link_bucket:
  assumes "bucket_is s p xs" and "tm_nodes s a \<noteq> None" and "a \<notin> set xs" and "place_ok p"
  shows "\<exists>s'. Link p a s = Inr s' \<and> bucket_is s' p (xs @ [a]) \<and> tdata s' = tdata s \<and>
    tm_time s' = tm_time s \<and> tm_locked s' = tm_locked s \<and>
    (\<forall>q. q \<noteq> p \<longrightarrow> tm_buckets s' q = tm_buckets s q) \<and>
    (\<forall>b. b \<notin> set xs \<longrightarrow> b \<noteq> a \<longrightarrow> tm_nodes s' b = tm_nodes s b)"
proof -
  obtain n where n: "tm_nodes s a = Some n" using assms(2) by auto
  have l: "linked (tnext s) (ll_first (tm_buckets s p)) (ll_tail (tm_buckets s p)) xs"
    "\<forall>a \<in> set xs. tm_nodes s a \<noteq> None" using assms(1) by (auto simp: bucket_is_def)
  show ?thesis
  proof (cases "ll_tail (tm_buckets s p)")
    case None
    with l have xs: "xs = []" by (auto simp: linked_final_None)
    let ?s = "node_set a (n\<lparr>tn_next := None\<rparr>) (bucket_set p ((tm_buckets s p)\<lparr>ll_first := Some a, ll_tail := Some a\<rparr>) s)"
    have "Link p a s = Inr ?s" using None n assms(4) by (simp add: Link_def node_at_Some Let_def)
    moreover have "bucket_is ?s p [a]" by (simp add: bucket_is_def tnext_def linked_push_empty)
    moreover have "tdata ?s = tdata s" using n by (auto simp: tdata_def)
    ultimately show ?thesis using xs by (intro exI [of _ ?s]) auto
  next
    case (Some t)
    with l have t: "t \<in> set xs" "t \<noteq> a" using assms(3) by (auto simp: linked_def last_node_Some eq_commute)
    then obtain m where m: "tm_nodes s t = Some m" using l(2) by auto
    let ?s1 = "bucket_set p ((tm_buckets s p)\<lparr>ll_tail := Some a\<rparr>) (node_set t (m\<lparr>tn_next := Some a\<rparr>) s)"
    let ?s = "node_set a (n\<lparr>tn_next := None\<rparr>) ?s1"
    have "Link p a s = Inr ?s" using Some n m t(2) assms(4) by (simp add: Link_def node_at_Some Let_def)
    moreover have "linked (tnext ?s) (ll_first (tm_buckets s p)) (Some a) (xs @ [a])"
      using l(1) assms(3) t unfolding Some by (intro linked_push [of "tnext s" _ t]) (auto simp: tnext_def)
    then have "bucket_is ?s p (xs @ [a])" using l(2) by (auto simp: bucket_is_def)
    moreover have "tdata ?s = tdata s" using n m by (auto simp: tdata_def)
    ultimately show ?thesis using t(1) by (intro exI [of _ ?s]) auto
  qed
qed

lemma Link_heaped:
  assumes "heaped s L" and "tm_nodes s a \<noteq> None" and "\<And>q. a \<notin> set (L q)" and "place_ok p"
  shows "\<exists>s'. Link p a s = Inr s' \<and> heaped s' (L(p := L p @ [a])) \<and> tdata s' = tdata s \<and>
    tm_time s' = tm_time s \<and> tm_locked s' = tm_locked s \<and>
    (\<forall>b. b \<notin> (\<Union>q. set (L q)) \<longrightarrow> b \<noteq> a \<longrightarrow> tm_nodes s' b = tm_nodes s b)"
proof -
  obtain s' where s': "Link p a s = Inr s'" "bucket_is s' p (L p @ [a])" "tdata s' = tdata s"
    "tm_time s' = tm_time s" "tm_locked s' = tm_locked s" "\<And>q. q \<noteq> p \<Longrightarrow> tm_buckets s' q = tm_buckets s q"
    "\<And>b. b \<notin> set (L p) \<Longrightarrow> b \<noteq> a \<Longrightarrow> tm_nodes s' b = tm_nodes s b"
    using Link_bucket [OF heapedD(1) [OF assms(1)] assms(2,3,4)] by blast
  have "bucket_is s' q (L q)" if "q \<noteq> p" for q
  proof -
    have "tm_nodes s' b = tm_nodes s b" if "b \<in> set (L q)" for b
      using that \<open>q \<noteq> p\<close> heapedD(2) [OF assms(1), of q p] assms(3) [of q] by (intro s'(7)) auto
    then show ?thesis using bucket_is_cong [of s' q s "L q"] s'(6) [OF that] heapedD(1) [OF assms(1), of q] by blast
  qed
  then have "heaped s' (L(p := L p @ [a]))"
    using s'(2) assms(3) heapedD(2) [OF assms(1)] by (simp add: heaped_def)
  then show ?thesis using s' by blast
qed

text \<open>The lists of the buckets after nodes were added in order.\<close>

definition add_all :: "timer \<Rightarrow> nat list \<Rightarrow> (place \<Rightarrow> nat list) \<Rightarrow> place \<Rightarrow> nat list" where
  "add_all s xs L p = L p @ filter (\<lambda>a. \<exists>e h k. tdata s a = Some (e, h, k) \<and> place_of e (tm_time s) = p) xs"

lemma AddNode_heaped:
  assumes "heaped s L" and "tm_nodes s a \<noteq> None" and "\<And>q. a \<notin> set (L q)" and "\<not> tm_locked s"
  shows "\<exists>s'. AddNode a s = Inr s' \<and> heaped s' (add_all s [a] L) \<and> tdata s' = tdata s \<and>
    tm_time s' = tm_time s \<and> \<not> tm_locked s' \<and>
    (\<forall>b. b \<notin> (\<Union>q. set (L q)) \<longrightarrow> b \<noteq> a \<longrightarrow> tm_nodes s' b = tm_nodes s b)"
proof -
  obtain n where n: "tm_nodes s a = Some n" using assms(2) by auto
  let ?s1 = "s\<lparr>tm_locked := True\<rparr>" and ?p = "place_of (tn_expire n) (tm_time s)"
  obtain s' where s': "Link ?p a ?s1 = Inr s'" "heaped s' (L(?p := L ?p @ [a]))" "tdata s' = tdata s"
    "tm_time s' = tm_time s" "\<forall>b. b \<notin> (\<Union>q. set (L q)) \<longrightarrow> b \<noteq> a \<longrightarrow> tm_nodes s' b = tm_nodes s b"
    using Link_heaped [of ?s1 L a ?p] assms(1-3) place_of_ok [of "tn_expire n" "tm_time s"] by auto
  moreover have "add_all s [a] L = L(?p := L ?p @ [a])" using n by (auto simp: add_all_def tdata_def)
  moreover have "AddNode a s = Inr (timer_unlock s')"
    using s'(1) n assms(4) by (simp add: AddNode_def timer_lock_def node_at_Some)
  ultimately show ?thesis by simp
qed

section \<open>Moving\<close>

lemma add_all_Cons:
  assumes "tdata s1 = tdata s" and "tm_time s1 = tm_time s"
  shows "add_all s1 xs (add_all s [a] L) = add_all s (a # xs) L"
  using assms by (auto simp: add_all_def)

lemma add_all_in: "a \<in> set (add_all s xs L p) \<Longrightarrow> a \<in> set (L p) \<or> a \<in> set xs"
  by (auto simp: add_all_def)

lemma move_nodes_heaped:
  assumes "heaped s L" and "segment (tnext s) first xs None" and "distinct xs"
    and "\<And>a. a \<in> set xs \<Longrightarrow> tm_nodes s a \<noteq> None \<and> (\<forall>q. a \<notin> set (L q))" and "\<not> tm_locked s"
  shows "\<exists>s'. move_nodes first s = Some (Inr s') \<and> heaped s' (add_all s xs L) \<and> tdata s' = tdata s \<and>
    tm_time s' = tm_time s \<and> \<not> tm_locked s'"
  using assms
proof (induction xs arbitrary: first s L)
  case Nil
  then show ?case by (simp add: move_nodes.simps add_all_def)
next
  case (Cons a xs)
  obtain n where a: "tm_nodes s a = Some n" using Cons.prems(4) [of a] by auto
  then have n: "first = Some a" "tm_nodes s a = Some n" "segment (tnext s) (tn_next n) xs None"
    using Cons.prems(2) by (simp_all add: tnext_Some)
  obtain s1 where s1: "AddNode a s = Inr s1" "heaped s1 (add_all s [a] L)" "tdata s1 = tdata s"
    "tm_time s1 = tm_time s" "\<not> tm_locked s1"
    "\<And>b. b \<notin> (\<Union>q. set (L q)) \<Longrightarrow> b \<noteq> a \<Longrightarrow> tm_nodes s1 b = tm_nodes s b"
    using AddNode_heaped [of s L a] Cons.prems(1,4,5) by auto
  have same: "tm_nodes s1 b = tm_nodes s b" if "b \<in> set xs" for b
    using that Cons.prems(3,4) by (intro s1(6)) auto
  have "segment (tnext s1) (tn_next n) xs None"
    using n(3) same segment_cong [of xs "tnext s1" "tnext s"] by (simp add: tnext_def)
  moreover have "tm_nodes s1 b \<noteq> None \<and> (\<forall>q. b \<notin> set (add_all s [a] L q))" if "b \<in> set xs" for b
    using that same Cons.prems(3,4) add_all_in [of b s "[a]" L] by auto
  ultimately obtain s' where "move_nodes (tn_next n) s1 = Some (Inr s')"
    "heaped s' (add_all s1 xs (add_all s [a] L))" "tdata s' = tdata s1" "tm_time s' = tm_time s1" "\<not> tm_locked s'"
    using Cons.IH [OF s1(2) _ _ _ s1(5), of "tn_next n"] Cons.prems(3) by auto
  then show ?case using n s1 add_all_Cons [OF s1(3,4)]
    by (simp add: move_nodes.simps [of "Some a"] node_at_Some)
qed

lemma LinkClear_heaped:
  assumes "heaped s L" and "place_ok p"
  shows "\<exists>s'. LinkClear p s = Inr (ll_first (tm_buckets s p), s') \<and> heaped s' (L(p := [])) \<and>
    tm_nodes s' = tm_nodes s \<and> tm_time s' = tm_time s \<and> tm_locked s' = tm_locked s"
proof -
  let ?s = "bucket_set p empty_list s"
  have "bucket_is ?s q ((L(p := [])) q)" for q
  proof (cases "q = p")
    case True
    then show ?thesis by (simp add: bucket_is_def linked_Nil empty_list_def)
  next
    case False
    then show ?thesis using bucket_is_cong [of ?s q s "L q"] heapedD(1) [OF assms(1), of q] by simp
  qed
  moreover have "set ((L(p := [])) q) \<inter> set ((L(p := [])) r) = {}" if "q \<noteq> r" for q r
    using heapedD(2) [OF assms(1) that] by simp
  ultimately have "heaped ?s (L(p := []))" by (simp add: heaped_def)
  then show ?thesis using assms(2) by (intro exI [of _ ?s]) (simp add: LinkClear_def)
qed

lemma MoveList_heaped:
  assumes "heaped s L" and "\<not> tm_locked s" and "place_ok (Level j i)"
  shows "\<exists>s'. MoveList j i s = Some (Inr s') \<and> tdata s' = tdata s \<and> tm_time s' = tm_time s \<and> \<not> tm_locked s' \<and>
    heaped s' (add_all s (L (Level j i)) (L(Level j i := [])))"
proof -
  let ?p = "Level j i"
  obtain s1 where s1: "LinkClear ?p s = Inr (ll_first (tm_buckets s ?p), s1)" "heaped s1 (L(?p := []))"
    "tm_nodes s1 = tm_nodes s" "tm_time s1 = tm_time s" "tm_locked s1 = tm_locked s"
    using LinkClear_heaped [OF assms(1,3)] by blast
  have b: "bucket_is s ?p (L ?p)" using assms(1) by (rule heapedD)
  have same: "tnext s1 = tnext s" "tdata s1 = tdata s" by (simp_all add: tnext_def tdata_def s1(3) fun_eq_iff)
  have "segment (tnext s1) (ll_first (tm_buckets s ?p)) (L ?p) None" "distinct (L ?p)"
    using b by (simp_all add: bucket_is_def linked_def same)
  moreover have "tm_nodes s1 a \<noteq> None \<and> (\<forall>q. a \<notin> set ((L(?p := [])) q))" if "a \<in> set (L ?p)" for a
  proof -
    have "a \<notin> set (L q)" if "q \<noteq> ?p" for q
      using heapedD(2) [OF assms(1) that] \<open>a \<in> set (L ?p)\<close> by blast
    then show ?thesis using b that by (auto simp: bucket_is_def s1(3))
  qed
  ultimately obtain s' where "move_nodes (ll_first (tm_buckets s ?p)) s1 = Some (Inr s')"
    "heaped s' (add_all s1 (L ?p) (L(?p := [])))" "tdata s' = tdata s1" "tm_time s' = tm_time s1" "\<not> tm_locked s'"
    using move_nodes_heaped [OF s1(2)] assms(2) s1(5) by blast
  moreover have "add_all s1 = add_all s" by (simp add: add_all_def same s1(4) fun_eq_iff)
  ultimately show ?thesis using s1(1,4) same by (simp add: MoveList_def)
qed

section \<open>A tick of the wheel\<close>

text \<open>
  The nodes that wait: each is in the bucket that its time of expiry leads to at the current time, and
  satisfies \<open>P\<close>.
\<close>

definition sorted_by :: "(u32 \<Rightarrow> u32 \<Rightarrow> bool) \<Rightarrow> timer \<Rightarrow> (place \<Rightarrow> nat list) \<Rightarrow> bool" where
  "sorted_by P s L \<longleftrightarrow> heaped s L \<and> (\<forall>p. \<forall>a \<in> set (L p). \<exists>e h k. tdata s a = Some (e, h, k) \<and>
     p = place_of e (tm_time s) \<and> P e (tm_time s))"

definition nodes_of :: "(place \<Rightarrow> nat list) \<Rightarrow> nat set" where
  "nodes_of L = (\<Union>p. set (L p))"

definition expiry :: "timer \<Rightarrow> nat \<Rightarrow> u32" where
  "expiry s a = (case tdata s a of None \<Rightarrow> 0 | Some (e, h, k) \<Rightarrow> e)"

definition near_now :: "timer \<Rightarrow> place" where
  "near_now s = Near (unat (tm_time s AND TIME_NEAR_MASK))"

lemma near_now_ok: "place_ok (near_now s)"
proof -
  have "near_now s = place_of (tm_time s) (tm_time s)" by (metis due_place near_now_def)
  then show ?thesis using place_of_ok by metis
qed

lemma sorted_near:
  assumes "sorted_by P s L"
  shows "set (L (near_now s)) = {a \<in> nodes_of L. expiry s a = tm_time s}"
proof (intro set_eqI iffI)
  fix a
  assume a: "a \<in> set (L (near_now s))"
  then obtain e h k where "tdata s a = Some (e, h, k)" "near_now s = place_of e (tm_time s)"
    using assms unfolding sorted_by_def by blast
  then have "expiry s a = tm_time s" using due_place [of e "tm_time s"] by (simp add: near_now_def expiry_def)
  with a show "a \<in> {a \<in> nodes_of L. expiry s a = tm_time s}" by (auto simp: nodes_of_def)
next
  fix a
  assume "a \<in> {a \<in> nodes_of L. expiry s a = tm_time s}"
  then obtain p where p: "a \<in> set (L p)" "expiry s a = tm_time s" by (auto simp: nodes_of_def)
  then obtain e h k where "tdata s a = Some (e, h, k)" "p = place_of e (tm_time s)"
    using assms unfolding sorted_by_def by blast
  then have "p = near_now s" using due_place [of e "tm_time s"] p(2) by (simp add: near_now_def expiry_def)
  with p(1) show "a \<in> set (L (near_now s))" by simp
qed

lemma shifted_ok: "nbucket (unat t) = Some (j, i) \<Longrightarrow> place_ok (Level j i)"
  by (auto simp: nbucket_def split: if_splits)

text \<open>Everything in the buckets that a tick does not move, and everything that it moves, is where it belongs.\<close>

lemma tick_sorted:
  assumes "sorted_by ahead s L" and "tdata s' = tdata s" and "tm_time s' = tm_time s + 1" and "heaped s' L'"
    and "case nbucket (unat (tm_time s + 1)) of
        None \<Rightarrow> L' = L
      | Some (j, i) \<Rightarrow> L' = add_all (s\<lparr>tm_time := tm_time s + 1\<rparr>) (L (Level j i)) (L(Level j i := []))"
  shows "sorted_by (\<lambda>e t. e = t \<or> ahead e t) s' L'" and "nodes_of L' = nodes_of L"
proof -
  let ?t = "tm_time s"
  have old: "\<exists>e h k. tdata s a = Some (e, h, k) \<and> p = place_of e ?t \<and> ahead e ?t" if "a \<in> set (L p)" for a p
    using assms(1) that unfolding sorted_by_def by blast
  have stay: "\<exists>e h k. tdata s' a = Some (e, h, k) \<and> p = place_of e (tm_time s') \<and> (e = tm_time s' \<or> ahead e (tm_time s'))"
    if "a \<in> set (L' p)" for a p
  proof (cases "nbucket (unat (?t + 1))")
    case None
    with that assms(5) have "a \<in> set (L p)" by simp
    then obtain e h k where e: "tdata s a = Some (e, h, k)" "p = place_of e ?t" "ahead e ?t" using old by blast
    then show ?thesis using place_tick [OF e(3)] ahead_tick [OF e(3)] None assms(2,3) by auto
  next
    case (Some b)
    obtain j i where b: "b = (j, i)" by (cases b)
    with Some assms(5) that have "a \<in> set (L p) \<and> p \<noteq> Level j i \<or>
        a \<in> set (L (Level j i)) \<and> (\<exists>e h k. tdata s a = Some (e, h, k) \<and> place_of e (?t + 1) = p)"
      by (auto simp: add_all_def split: if_splits)
    then show ?thesis
    proof
      assume a: "a \<in> set (L p) \<and> p \<noteq> Level j i"
      then obtain e h k where e: "tdata s a = Some (e, h, k)" "p = place_of e ?t" "ahead e ?t" using old by blast
      then show ?thesis using place_tick [OF e(3)] ahead_tick [OF e(3)] Some b a assms(2,3) by auto
    next
      assume "a \<in> set (L (Level j i)) \<and> (\<exists>e h k. tdata s a = Some (e, h, k) \<and> place_of e (?t + 1) = p)"
      then show ?thesis using old [of a "Level j i"] ahead_tick assms(2,3) by fastforce
    qed
  qed
  then show "sorted_by (\<lambda>e t. e = t \<or> ahead e t) s' L'" using assms(4) unfolding sorted_by_def by blast
  show "nodes_of L' = nodes_of L"
  proof (cases "nbucket (unat (?t + 1))")
    case None
    with assms(5) show ?thesis by simp
  next
    case (Some b)
    obtain j i where b: "b = (j, i)" by (cases b)
    then have L': "L' = add_all (s\<lparr>tm_time := ?t + 1\<rparr>) (L (Level j i)) (L(Level j i := []))"
      using assms(5) Some by simp
    have "a \<in> nodes_of L'" if "a \<in> set (L p)" for a p
    proof (cases "p = Level j i")
      case True
      obtain e h k where "tdata s a = Some (e, h, k)" using old [OF \<open>a \<in> set (L p)\<close>] by blast
      then have "a \<in> set (L' (place_of e (?t + 1)))" using that True by (auto simp: L' add_all_def)
      then show ?thesis by (auto simp: nodes_of_def)
    next
      case False
      then have "a \<in> set (L' p)" using that by (simp add: L' add_all_def)
      then show ?thesis by (auto simp: nodes_of_def)
    qed
    moreover have "a \<in> nodes_of L" if "a \<in> set (L' p)" for a p
      using that by (auto simp: L' add_all_def nodes_of_def split: if_splits)
    ultimately show ?thesis by (auto simp: nodes_of_def)
  qed
qed

lemma TimerShift_heaped:
  assumes "heaped s L" and "\<not> tm_locked s"
  shows "\<exists>s' L'. TimerShift s = Some (Inr s') \<and> tdata s' = tdata s \<and> tm_time s' = tm_time s + 1 \<and>
    \<not> tm_locked s' \<and> heaped s' L' \<and>
    (case nbucket (unat (tm_time s + 1)) of
       None \<Rightarrow> L' = L
     | Some (j, i) \<Rightarrow> L' = add_all (s\<lparr>tm_time := tm_time s + 1\<rparr>) (L (Level j i)) (L(Level j i := [])))"
proof (cases "nbucket (unat (tm_time s + 1))")
  case None
  then have "TimerShift s = Some (Inr (s\<lparr>tm_time := tm_time s + 1\<rparr>))"
    by (simp add: TimerShift_def shifted_bucket_nat Let_def)
  then show ?thesis using None assms by (intro exI [of _ "s\<lparr>tm_time := tm_time s + 1\<rparr>"] exI [of _ L]) simp
next
  case (Some b)
  obtain j i where b: "b = (j, i)" by (cases b)
  let ?s = "s\<lparr>tm_time := tm_time s + 1\<rparr>"
  have "TimerShift s = MoveList j i ?s" using Some b by (simp add: TimerShift_def shifted_bucket_nat Let_def)
  then show ?thesis using MoveList_heaped [of ?s L j i] assms shifted_ok Some b by auto
qed

text \<open>C31 A tick keeps the timer wheel sorted. Called with the lock free, \<open>TimerShift\<close> returns, no timer is
  lost or added, every timer is in the bucket that its time of expiry leads to at the new time, and
  the near bucket of the new time holds exactly the timers that are due, across the wrap-around of
  the 32-bit clock as well. The reference is the set of waiting timers with their times of expiry.\<close>

theorem shift_keeps_sorted:
  assumes "sorted_by ahead s L" and "\<not> tm_locked s"
  shows "\<exists>s' L'. TimerShift s = Some (Inr s') \<and> tm_time s' = tm_time s + 1 \<and> tdata s' = tdata s \<and>
    sorted_by (\<lambda>e t. e = t \<or> ahead e t) s' L' \<and> nodes_of L' = nodes_of L \<and>
    set (L' (near_now s')) = {a \<in> nodes_of L. expiry s a = tm_time s + 1}"
proof -
  have "heaped s L" using assms(1) by (simp add: sorted_by_def)
  then obtain s' L' where s': "TimerShift s = Some (Inr s')" "tdata s' = tdata s" "tm_time s' = tm_time s + 1"
    "heaped s' L'" "case nbucket (unat (tm_time s + 1)) of
       None \<Rightarrow> L' = L
     | Some (j, i) \<Rightarrow> L' = add_all (s\<lparr>tm_time := tm_time s + 1\<rparr>) (L (Level j i)) (L(Level j i := []))"
    using TimerShift_heaped assms(2) by blast
  note sorted = tick_sorted [OF assms(1) s'(2-5)]
  have "expiry s' = expiry s" by (simp add: expiry_def s'(2) fun_eq_iff)
  then show ?thesis using s'(1-3) sorted sorted_near [OF sorted(1)] by auto
qed

section \<open>Firing\<close>

text \<open>What is sent for the timers, in order.\<close>

fun push_all :: "(u32 \<times> int) list \<Rightarrow> world \<Rightarrow> world res" where
  "push_all [] w = Inr w"
| "push_all ((handle, session) # ts) w =
     bindR (ContextPush handle (timer_message session) w) (\<lambda>(_, w'). push_all ts w')"

definition message_of :: "timer \<Rightarrow> nat \<Rightarrow> u32 \<times> int" where
  "message_of s a = (case tdata s a of None \<Rightarrow> (0, 0) | Some (e, h, k) \<Rightarrow> (h, k))"

definition free_all :: "nat list \<Rightarrow> timer \<Rightarrow> timer" where
  "free_all xs s = s\<lparr>tm_nodes := (\<lambda>a. if a \<in> set xs then None else tm_nodes s a)\<rparr>"

lemma DispatchList_all:
  assumes "segment (tnext s) (Some a) (a # xs) None" and "distinct (a # xs)"
    and "\<And>b. b \<in> set (a # xs) \<Longrightarrow> tm_nodes s b \<noteq> None"
  shows "DispatchList a s w = Some (bindR (push_all (map (message_of s) (a # xs)) w) (\<lambda>w'. Inr (free_all (a # xs) s, w')))"
  using assms
proof (induction xs arbitrary: a s w)
  case Nil
  obtain n where n: "tm_nodes s a = Some n" using Nil.prems(3) by auto
  then have "tn_next n = None" "message_of s a = (tn_handle n, tn_session n)" "node_free a s = free_all [a] s"
    using Nil.prems(1) by (auto simp: tnext_Some message_of_def tdata_def node_free_def free_all_def fun_eq_iff)
  then show ?case using n
    by (cases "ContextPush (tn_handle n) (timer_message (tn_session n)) w")
      (auto simp: DispatchList.simps [of a] node_at_Some)
next
  case (Cons b xs)
  obtain n where n: "tm_nodes s a = Some n" using Cons.prems(3) [of a] by auto
  then have next_b: "tn_next n = Some b" and msg: "message_of s a = (tn_handle n, tn_session n)"
    using Cons.prems(1) by (auto simp: tnext_Some message_of_def tdata_def)
  let ?s = "node_free a s"
  have same: "tm_nodes ?s c = tm_nodes s c" if "c \<in> set (b # xs)" for c using that Cons.prems(2) by auto
  then have "tnext ?s c = tnext s c" "message_of ?s c = message_of s c" if "c \<in> set (b # xs)" for c
    using that by (simp_all add: tnext_def message_of_def tdata_def)
  then have seg: "segment (tnext ?s) (Some b) (b # xs) None" and msgs: "map (message_of ?s) (b # xs) = map (message_of s) (b # xs)"
    using Cons.prems(1) segment_cong [of "b # xs" "tnext ?s" "tnext s"] by auto
  have rest: "DispatchList b ?s w' = Some (bindR (push_all (map (message_of s) (b # xs)) w') (\<lambda>w'. Inr (free_all (b # xs) ?s, w')))" for w'
    using Cons.IH [OF seg] Cons.prems(2,3) same unfolding msgs by auto
  have "free_all (b # xs) ?s = free_all (a # b # xs) s"
    by (auto simp: free_all_def node_free_def fun_eq_iff)
  then show ?case using n next_b msg rest
    by (cases "ContextPush (tn_handle n) (timer_message (tn_session n)) w")
      (auto simp: DispatchList.simps [of a] node_at_Some)
qed

lemma execute_loop_empty:
  assumes "ll_first (tm_buckets s p) = None" and "place_ok p"
  shows "execute_loop p s w = Some (Inr (s, w))"
  using assms by (simp add: execute_loop.simps [of p] LinkClear_def)

lemma execute_loop_heaped:
  assumes "heaped s L" and "place_ok p" and "tm_locked s"
  shows "execute_loop p s w = Some (bindR (push_all (map (message_of s) (L p)) w)
    (\<lambda>w'. Inr (free_all (L p) (bucket_set p empty_list s), w')))"
proof -
  have b: "linked (tnext s) (ll_first (tm_buckets s p)) (ll_tail (tm_buckets s p)) (L p)"
    "\<forall>a \<in> set (L p). tm_nodes s a \<noteq> None"
    using heapedD(1) [OF assms(1)] by (auto simp: bucket_is_def)
  show ?thesis
  proof (cases "L p")
    case Nil
    with b have e: "ll_first (tm_buckets s p) = None" "ll_tail (tm_buckets s p) = None" by (simp_all add: linked_Nil)
    then have "tm_buckets s p = empty_list" by (simp add: empty_list_def)
    then have "free_all [] (bucket_set p empty_list s) = s" by (simp add: free_all_def bucket_set_def fun_upd_idem)
    then show ?thesis using execute_loop_empty [OF e(1) assms(2)] Nil by simp
  next
    case (Cons a xs)
    let ?s1 = "bucket_set p empty_list s"
    let ?s2 = "timer_unlock ?s1"
    have "tnext ?s2 = tnext s" and msg: "message_of ?s2 = message_of s"
      by (simp_all add: tnext_def message_of_def fun_eq_iff)
    then have "segment (tnext ?s2) (Some a) (a # xs) None" "distinct (a # xs)"
      "\<And>b. b \<in> set (a # xs) \<Longrightarrow> tm_nodes ?s2 b \<noteq> None"
      using b Cons by (auto simp: linked_def)
    note d = DispatchList_all [OF this, unfolded msg]
    have first: "LinkClear p s = Inr (Some a, ?s1)" using b(1) Cons assms(2) by (simp add: LinkClear_def linked_def)
    let ?s3 = "free_all (a # xs) ?s1"
    have lock: "timer_lock (free_all (a # xs) ?s2) = Inr ?s3"
      using assms(3)
      by (auto simp: timer_lock_def free_all_def timer_unlock_def bucket_set_def intro!: timer.equality)
    have "ll_first (tm_buckets ?s3 p) = None" by (simp add: free_all_def empty_list_def)
    note again = execute_loop_empty [OF this assms(2)]
    show ?thesis unfolding execute_loop.simps [of p s] first Cons using d again lock
      by (cases "push_all (map (message_of s) (a # xs)) w") simp_all
  qed
qed

text \<open>The state after the timers that are due have fired.\<close>

definition fired :: "timer \<Rightarrow> (place \<Rightarrow> nat list) \<Rightarrow> timer" where
  "fired s L = (let s1 = s\<lparr>tm_time := tm_time s + 1\<rparr>
     in free_all (L (near_now s1)) (bucket_set (near_now s1) empty_list s1))"

lemma heaped_fired:
  assumes "heaped s L"
  shows "heaped (free_all (L p) (bucket_set p empty_list s)) (L(p := []))"
proof -
  let ?s = "free_all (L p) (bucket_set p empty_list s)"
  have "bucket_is ?s q ((L(p := [])) q)" for q
  proof (cases "q = p")
    case True
    then show ?thesis by (simp add: bucket_is_def linked_Nil free_all_def empty_list_def)
  next
    case False
    then have "tm_nodes ?s a = tm_nodes s a" if "a \<in> set (L q)" for a
      using that heapedD(2) [OF assms False] by (auto simp: free_all_def)
    then show ?thesis using False bucket_is_cong [of ?s q s "L q"] heapedD(1) [OF assms, of q]
      by (simp add: free_all_def)
  qed
  moreover have "set ((L(p := [])) q) \<inter> set ((L(p := [])) r) = {}" if "q \<noteq> r" for q r
    using heapedD(2) [OF assms that] by simp
  ultimately show ?thesis by (simp add: heaped_def)
qed

definition moved_nodes :: "timer \<Rightarrow> (place \<Rightarrow> nat list) \<Rightarrow> nat list" where
  "moved_nodes s L =
     (case nbucket (unat (tm_time s + 1)) of None \<Rightarrow> [] | Some (j, i) \<Rightarrow> L (Level j i))"

lemma TimerShift_idle:
  assumes "heaped s L" and "moved_nodes s L = []"
  shows "TimerShift s = Some (Inr (s\<lparr>tm_time := tm_time s + 1\<rparr>))"
proof (cases "nbucket (unat (tm_time s + 1))")
  case None
  then show ?thesis by (simp add: TimerShift_def shifted_bucket_nat Let_def)
next
  case (Some b)
  obtain j i where b: "b = (j, i)" by (cases b)
  let ?s = "s\<lparr>tm_time := tm_time s + 1\<rparr>" and ?p = "Level j i"
  have "L ?p = []" using assms(2) Some b by (simp add: moved_nodes_def)
  then have e: "tm_buckets ?s ?p = empty_list"
    using heapedD(1) [OF assms(1), of ?p] by (simp add: bucket_is_def linked_Nil empty_list_def)
  then have "bucket_set ?p empty_list ?s = ?s" by (simp add: bucket_set_def fun_upd_idem)
  then have "MoveList j i ?s = Some (Inr ?s)"
    using e shifted_ok [of "tm_time s + 1" j i] Some b
    by (simp add: MoveList_def LinkClear_def empty_list_def move_nodes.simps [of None])
  then show ?thesis using Some b by (simp add: TimerShift_def shifted_bucket_nat Let_def)
qed

lemma TimerShift_locked:
  assumes "heaped s L" and "moved_nodes s L \<noteq> []" and "tm_locked s"
  shows "TimerShift s = Some (Inl Deadlock)"
proof -
  obtain j i where b: "nbucket (unat (tm_time s + 1)) = Some (j, i)" "L (Level j i) \<noteq> []"
    using assms(2) by (auto simp: moved_nodes_def split: option.splits)
  then obtain a xs where a: "L (Level j i) = a # xs" by (cases "L (Level j i)") auto
  then obtain n where "ll_first (tm_buckets s (Level j i)) = Some a" "tm_nodes s a = Some n"
    using heapedD(1) [OF assms(1), of "Level j i"] by (auto simp: bucket_is_def linked_def)
  moreover have "place_ok (Level j i)" using shifted_ok b(1) .
  ultimately have "MoveList j i (s\<lparr>tm_time := tm_time s + 1\<rparr>) = Some (Inl Deadlock)"
    using assms(3) by (simp add: MoveList_def LinkClear_def move_nodes.simps [of "Some a"] AddNode_def timer_lock_def node_at_def)
  then show ?thesis using b(1) by (simp add: TimerShift_def shifted_bucket_nat Let_def)
qed

lemma ahead_irrefl: "\<not> ahead t t"
  by (simp add: ahead_def)

lemma sorted_ahead_near: "sorted_by ahead s L \<Longrightarrow> L (near_now s) = []"
proof -
  assume s: "sorted_by ahead s L"
  have False if "a \<in> set (L (near_now s))" for a
  proof -
    have "expiry s a = tm_time s" using that sorted_near [OF s] by blast
    moreover obtain e h k where "tdata s a = Some (e, h, k)" "ahead e (tm_time s)"
      using s \<open>a \<in> set (L (near_now s))\<close> unfolding sorted_by_def by blast
    ultimately show False by (simp add: expiry_def ahead_irrefl)
  qed
  then show ?thesis by (metis last_in_set)
qed

lemma Execute_near: "Execute s w = execute_loop (near_now s) s w"
  by (simp add: Execute_def near_now_def)

lemma tdata_cong: "tm_nodes s' a = tm_nodes s a \<Longrightarrow> tdata s' a = tdata s a"
  by (simp add: tdata_def)

lemma fired_sorted:
  assumes "sorted_by ahead s L" and "moved_nodes s L = []"
  shows "sorted_by ahead (fired s L) (L(near_now (s\<lparr>tm_time := tm_time s + 1\<rparr>) := []))"
    and "set (L (near_now (s\<lparr>tm_time := tm_time s + 1\<rparr>))) = {a \<in> nodes_of L. expiry s a = tm_time s + 1}"
proof -
  let ?s = "s\<lparr>tm_time := tm_time s + 1\<rparr>"
  let ?p = "near_now ?s"
  have h: "heaped ?s L" using assms(1) by (simp add: sorted_by_def)
  have "case nbucket (unat (tm_time s + 1)) of None \<Rightarrow> L = L
      | Some (j, i) \<Rightarrow> L = add_all ?s (L (Level j i)) (L(Level j i := []))"
    using assms(2) by (auto simp: moved_nodes_def add_all_def fun_eq_iff split: option.splits)
  note sorted = tick_sorted(1) [OF assms(1) tdata_state(2) _ h this, simplified]
  have f: "fired s L = free_all (L ?p) (bucket_set ?p empty_list ?s)" by (simp add: fired_def Let_def)
  have "\<exists>e h k. tdata (fired s L) a = Some (e, h, k) \<and> q = place_of e (tm_time s + 1) \<and> ahead e (tm_time s + 1)"
    if "a \<in> set ((L(?p := [])) q)" for a q
  proof -
    have a: "a \<in> set (L q)" "q \<noteq> ?p" using that by (auto split: if_splits)
    then have "a \<notin> set (L ?p)" using heapedD(2) [OF h a(2)] by auto
    then have "tdata (fired s L) a = tdata s a" by (simp add: f free_all_def tdata_def)
    moreover obtain e h k where e: "tdata s a = Some (e, h, k)" "q = place_of e (tm_time s + 1)"
      "e = tm_time s + 1 \<or> ahead e (tm_time s + 1)" using sorted a(1) unfolding sorted_by_def by fastforce
    moreover have "e \<noteq> tm_time s + 1" using e(2) a(2) due_place [of e "tm_time s + 1"] by (auto simp: near_now_def)
    ultimately show ?thesis by auto
  qed
  moreover have "tm_time (fired s L) = tm_time s + 1" by (simp add: f free_all_def)
  ultimately show "sorted_by ahead (fired s L) (L(?p := []))"
    using heaped_fired [OF h, of ?p] by (simp add: sorted_by_def f)
  have "expiry ?s = expiry s" by (simp add: expiry_def fun_eq_iff)
  then show "set (L ?p) = {a \<in> nodes_of L. expiry s a = tm_time s + 1}" using sorted_near [OF sorted] by simp
qed

text \<open>C32 One tick of \<open>Update\<close>. When the tick has to move a bucket that holds timers, \<open>Update\<close> waits for its
  own lock for ever: it holds the lock, and adding a moved node takes it. Otherwise it sends the
  messages of exactly the timers that expire at the new time, in the order of their bucket, frees their nodes, and keeps the other timers sorted and in the future.\<close>

theorem update_fires_or_deadlocks:
  assumes "sorted_by ahead s L" and "\<not> tm_locked s"
  shows "if moved_nodes s L \<noteq> [] then Update s w = Some (Inl Deadlock)
    else \<exists>p. set (L p) = {a \<in> nodes_of L. expiry s a = tm_time s + 1} \<and>
      Update s w = Some (bindR (push_all (map (message_of s) (L p)) w) (\<lambda>w'. Inr (fired s L, w'))) \<and>
      sorted_by ahead (fired s L) (L(p := [])) \<and> tm_time (fired s L) = tm_time s + 1"
proof -
  let ?s1 = "s\<lparr>tm_locked := True\<rparr>" and ?s2 = "s\<lparr>tm_locked := True, tm_time := tm_time s + 1\<rparr>"
  let ?p = "near_now (s\<lparr>tm_time := tm_time s + 1\<rparr>)"
  have h: "heaped ?s1 L" using assms(1) by (simp add: sorted_by_def)
  have "near_now ?s1 = near_now s" by (simp add: near_now_def)
  then have "ll_first (tm_buckets ?s1 (near_now ?s1)) = None"
    using heapedD(1) [OF h, of "near_now s"] sorted_ahead_near [OF assms(1)] by (simp add: bucket_is_def linked_Nil)
  then have start: "Execute ?s1 w = Some (Inr (?s1, w))"
    unfolding Execute_near by (rule execute_loop_empty) (rule near_now_ok)
  have moved: "moved_nodes ?s1 L = moved_nodes s L" by (simp add: moved_nodes_def)
  show ?thesis
  proof (cases "moved_nodes s L = []")
    case False
    then show ?thesis
      using TimerShift_locked [OF h] start moved assms(2) by (simp add: Update_def timer_lock_def)
  next
    case True
    then have shift: "TimerShift ?s1 = Some (Inr ?s2)" using TimerShift_idle [OF h] moved by simp
    have p2: "near_now ?s2 = ?p" by (simp add: near_now_def)
    have "message_of ?s2 = message_of s" by (simp add: message_of_def fun_eq_iff)
    then have fire: "Execute ?s2 w = Some (bindR (push_all (map (message_of s) (L ?p)) w)
        (\<lambda>w'. Inr (free_all (L ?p) (bucket_set ?p empty_list ?s2), w')))"
      using execute_loop_heaped [of ?s2 L ?p w] assms(1) near_now_ok [of ?s2] p2
      by (simp add: Execute_near sorted_by_def)
    have unlock: "timer_unlock (free_all (L ?p) (bucket_set ?p empty_list ?s2)) = fired s L"
      using assms(2) by (auto simp: fired_def Let_def timer_unlock_def free_all_def bucket_set_def intro!: timer.equality)
    have "Update s w = Some (bindR (push_all (map (message_of s) (L ?p)) w) (\<lambda>w'. Inr (fired s L, w')))"
      using assms(2) start shift fire unlock
      by (cases "push_all (map (message_of s) (L ?p)) w") (simp_all add: Update_def timer_lock_def)
    moreover have "tm_time (fired s L) = tm_time s + 1" by (simp add: fired_def Let_def free_all_def)
    ultimately show ?thesis using True fired_sorted [OF assms(1) True] by auto
  qed
qed

text \<open>A wheel with one timer.\<close>

definition sample_timer :: "u32 \<Rightarrow> u32 \<Rightarrow> timer" where
  "sample_timer t e = (TimerInit 0 0)
     \<lparr>tm_nodes := [7 \<mapsto> \<lparr>tn_next = None, tn_expire = e, tn_handle = 9, tn_session = 3\<rparr>],
      tm_buckets := (\<lambda>_. empty_list)(place_of e t := \<lparr>ll_first = Some 7, ll_tail = Some 7\<rparr>), tm_time := t\<rparr>"

lemma sample_timer_sorted:
  assumes "ahead e t"
  shows "sorted_by ahead (sample_timer t e) ((\<lambda>_. [])(place_of e t := [7]))"
  using assms
  by (auto simp: sorted_by_def heaped_def bucket_is_def sample_timer_def TimerInit_def linked_Nil empty_list_def
      tdata_def linked_def last_node_def tnext_def)

lemma sample_timer_unlocked: "\<not> tm_locked (sample_timer t e)" "tm_time (sample_timer t e) = t"
  by (simp_all add: sample_timer_def TimerInit_def)

lemma sample_expiry: "expiry (sample_timer t e) 7 = e"
  by (simp add: expiry_def tdata_def sample_timer_def)

lemma sample_nodes: "nodes_of ((\<lambda>_. [])(p := [7])) = {7}"
  by (auto simp: nodes_of_def)

lemma singleton_filter: "P x \<Longrightarrow> {a \<in> {x}. P a} = {x}"
  by auto

lemma sample_place: "place_of 256 255 = Level 0 1" "place_of 6 5 = Near 6"
  by (simp_all add: place_of_def TIME_NEAR_MASK_def TIME_LEVEL_MASK_def TIME_NEAR_SHIFT_def TIME_LEVEL_SHIFT_def numeral_3_eq_3)

lemma sample_bucket: "nbucket 256 = Some (0, 1)" "nbucket 6 = None"
  by (simp_all add: nbucket_def boundary_def block_def)

theorem shift_keeps_sorted_witness:
  "\<exists>s'. TimerShift (sample_timer 255 256) = Some (Inr s') \<and> tm_time s' = 256 \<and>
    ll_first (tm_buckets (sample_timer 255 256) (Level 0 1)) = Some 7 \<and> ll_first (tm_buckets s' (Near 0)) = Some 7"
proof -
  have "ahead 256 255" by (simp add: ahead_def)
  from shift_keeps_sorted [OF sample_timer_sorted [OF this] sample_timer_unlocked(1)]
  obtain s' L' where r: "TimerShift (sample_timer 255 256) = Some (Inr s')" "tm_time s' = 255 + 1"
    "sorted_by (\<lambda>e t. e = t \<or> ahead e t) s' L'"
    "set (L' (near_now s')) = {a \<in> {7}. expiry (sample_timer 255 256) a = 255 + 1}"
    unfolding sample_timer_unlocked sample_nodes by (elim exE conjE) (rule that)
  have s': "tm_time s' = 256" "heaped s' L'" using r(2) conjunct1 [OF r(3) [unfolded sorted_by_def]] by simp_all
  have "near_now s' = Near 0" by (simp add: near_now_def s'(1) TIME_NEAR_MASK_def)
  moreover have "{a \<in> {7}. expiry (sample_timer 255 256) a = 255 + 1} = {7}"
    by (rule singleton_filter) (simp add: sample_expiry)
  ultimately have "set (L' (Near 0)) = {7}" using r(4) by (simp only:)
  then have "ll_first (tm_buckets s' (Near 0)) = Some 7"
    using heapedD(1) [OF s'(2), of "Near 0"] by (cases "L' (Near 0)") (auto simp: bucket_is_def linked_def)
  then show ?thesis using r(1) s'(1) sample_place by (simp add: sample_timer_def)
qed

theorem update_fires_or_deadlocks_witness:
  "Update (sample_timer 255 256) (start_world 1 1 []) = Some (Inl Deadlock) \<and>
   (\<exists>s'. tm_time s' = 6 \<and>
      Update (sample_timer 5 6) (start_world 1 1 []) =
        Some (bindR (push_all [(9, 3)] (start_world 1 1 [])) (\<lambda>w'. Inr (s', w'))))"
proof
  have a: "ahead 256 255" by (simp add: ahead_def)
  show "Update (sample_timer 255 256) (start_world 1 1 []) = Some (Inl Deadlock)"
    using update_fires_or_deadlocks [OF sample_timer_sorted [OF a] sample_timer_unlocked(1), of "start_world 1 1 []"]
    by (simp add: moved_nodes_def sample_timer_unlocked sample_bucket sample_place)
  have b: "ahead 6 5" by (simp add: ahead_def)
  have msg: "message_of (sample_timer 5 6) 7 = (9, 3)" by (simp add: message_of_def tdata_def sample_timer_def)
  have idle: "\<not> moved_nodes (sample_timer 5 6) L \<noteq> []" for L
    by (simp add: moved_nodes_def sample_timer_unlocked sample_bucket)
  define L where "L = (\<lambda>_. [])(place_of 6 5 := [7 :: nat])"
  have sorted: "sorted_by ahead (sample_timer 5 6) L" unfolding L_def by (rule sample_timer_sorted [OF b])
  obtain p where p: "set (L p) = {a \<in> nodes_of L. expiry (sample_timer 5 6) a = 5 + 1}"
    "Update (sample_timer 5 6) (start_world 1 1 []) = Some (bindR (push_all
       (map (message_of (sample_timer 5 6)) (L p)) (start_world 1 1 [])) (\<lambda>w'. Inr (fired (sample_timer 5 6) L, w')))"
    "tm_time (fired (sample_timer 5 6) L) = 5 + 1"
    using update_fires_or_deadlocks [OF sorted sample_timer_unlocked(1), of "start_world 1 1 []"]
    unfolding if_not_P [OF idle] sample_timer_unlocked by (elim exE conjE) (rule that)
  have "nodes_of L = {7}" unfolding L_def by (rule sample_nodes)
  moreover have "{a \<in> {7}. expiry (sample_timer 5 6) a = 5 + 1} = {7}"
    by (rule singleton_filter) (simp add: sample_expiry)
  ultimately have "set (L p) = {7}" using p(1) by (simp only:)
  then have "L p = [7]" by (cases "p = place_of 6 5") (simp_all add: L_def)
  then show "\<exists>s'. tm_time s' = 6 \<and> Update (sample_timer 5 6) (start_world 1 1 []) =
      Some (bindR (push_all [(9, 3)] (start_world 1 1 [])) (\<lambda>w'. Inr (s', w')))"
    using p(2,3) msg by auto
qed

section \<open>Timers of services\<close>

text \<open>The wheel with nothing but the node of \<open>Timeout\<close>, which is gone.\<close>

definition dangling :: "nat \<Rightarrow> u32 \<Rightarrow> timer \<Rightarrow> bool" where
  "dangling a e s \<longleftrightarrow> tm_nodes s a = None \<and> \<not> tm_locked s \<and> ahead e (tm_time s) \<and>
     tm_buckets s = (\<lambda>_. empty_list)(place_of e (tm_time s) := \<lparr>ll_first = Some a, ll_tail = Some a\<rparr>)"

lemma dangling_step:
  assumes "dangling a e s"
  shows "Update s w = Some (Inl DanglingPointer) \<or>
    Update s w = Some (Inr (s\<lparr>tm_time := tm_time s + 1\<rparr>, w)) \<and> dangling a e (s\<lparr>tm_time := tm_time s + 1\<rparr>)"
proof -
  let ?t = "tm_time s" and ?p = "place_of e (tm_time s)"
  let ?s1 = "s\<lparr>tm_locked := True\<rparr>" and ?s2 = "s\<lparr>tm_locked := True, tm_time := tm_time s + 1\<rparr>"
  have d: "tm_nodes s a = None" "\<not> tm_locked s" "ahead e ?t"
    "tm_buckets s = (\<lambda>_. empty_list)(?p := \<lparr>ll_first = Some a, ll_tail = Some a\<rparr>)"
    using assms by (simp_all add: dangling_def)
  have "near_now ?s1 \<noteq> ?p" using due_place [of e ?t] d(3) ahead_irrefl by (auto simp: near_now_def)
  then have "ll_first (tm_buckets ?s1 (near_now ?s1)) = None" using d(4) by (simp add: empty_list_def)
  then have start: "Execute ?s1 w = Some (Inr (?s1, w))"
    unfolding Execute_near by (rule execute_loop_empty) (rule near_now_ok)
  have "move_nodes (Some a) s' = Some (Inl DanglingPointer)" if "tm_nodes s' a = None" for s'
    using that by (simp add: move_nodes.simps [of "Some a"] node_at_def)
  then have hit: "MoveList j i ?s2 = Some (Inl DanglingPointer)" if "?p = Level j i" for j i
    using that d(1,4) place_of_ok [of e ?t] by (simp add: MoveList_def LinkClear_def bucket_set_def)
  have miss: "MoveList j i ?s2 = Some (Inr ?s2)" if "?p \<noteq> Level j i" "place_ok (Level j i)" for j i
  proof -
    have "tm_buckets ?s2 (Level j i) = empty_list" using that(1) d(4) by simp
    then have "LinkClear (Level j i) ?s2 = Inr (None, ?s2)"
      using that(2) by (simp add: LinkClear_def bucket_set_def fun_upd_idem empty_list_def)
    then show ?thesis by (simp add: MoveList_def move_nodes.simps [of None])
  qed
  have shift: "TimerShift ?s1 = Some (Inl DanglingPointer) \<or>
      TimerShift ?s1 = Some (Inr ?s2) \<and> ?p = place_of e (?t + 1)"
  proof (cases "nbucket (unat (?t + 1))")
    case None
    then show ?thesis using place_tick [OF d(3)] by (simp add: TimerShift_def shifted_bucket_nat Let_def)
  next
    case (Some b)
    obtain j i where b: "b = (j, i)" by (cases b)
    have "TimerShift ?s1 = MoveList j i ?s2" using Some b by (simp add: TimerShift_def shifted_bucket_nat Let_def)
    then show ?thesis using place_tick [OF d(3)] hit [of j i] miss [of j i] shifted_ok [of "?t + 1" j i] Some b
      by (cases "?p = Level j i") simp_all
  qed
  show ?thesis
  proof (cases "TimerShift ?s1 = Some (Inl DanglingPointer)")
    case True
    with start d(2) show ?thesis by (simp add: Update_def timer_lock_def)
  next
    case False
    with shift have s2: "TimerShift ?s1 = Some (Inr ?s2)" "?p = place_of e (?t + 1)" by auto
    show ?thesis
    proof (cases "e = ?t + 1")
      case True
      then have "near_now ?s2 = ?p" using due_place [of e "?t + 1"] s2(2) by (simp add: near_now_def)
      moreover have "DispatchList a s' w = Some (Inl DanglingPointer)" if "tm_nodes s' a = None" for s'
        using that by (simp add: DispatchList.simps [of a] node_at_def)
      ultimately have "Execute ?s2 w = Some (Inl DanglingPointer)"
        using d(1,4) place_of_ok [of e ?t]
        by (simp add: Execute_near execute_loop.simps [of ?p] LinkClear_def bucket_set_def timer_unlock_def)
      with start s2 d(2) show ?thesis by (simp add: Update_def timer_lock_def)
    next
      case False
      then have "near_now ?s2 \<noteq> ?p" using due_place [of e "?t + 1"] s2(2) by (auto simp: near_now_def)
      then have "ll_first (tm_buckets ?s2 (near_now ?s2)) = None" using d(4) by (simp add: empty_list_def)
      then have "Execute ?s2 w = Some (Inr (?s2, w))"
        unfolding Execute_near by (rule execute_loop_empty) (rule near_now_ok)
      moreover have "timer_unlock ?s2 = s\<lparr>tm_time := ?t + 1\<rparr>" using d(2) by (simp add: timer_unlock_def)
      ultimately have "Update s w = Some (Inr (s\<lparr>tm_time := ?t + 1\<rparr>, w))"
        using start s2(1) d(2) by (simp add: Update_def timer_lock_def)
      moreover have "dangling a e (s\<lparr>tm_time := ?t + 1\<rparr>)"
        using d s2(2) ahead_tick [OF d(3)] False by (simp add: dangling_def)
      ultimately show ?thesis by simp
    qed
  qed
qed

lemma dangling_runs:
  assumes "dangling a e s"
  shows "\<exists>k. 0 < k \<and> k \<le> unat (e - tm_time s) \<and>
    (\<forall>n < k. update_times n s w = Some (Inr (s\<lparr>tm_time := tm_time s + of_nat n\<rparr>, w))) \<and>
    (\<forall>n \<ge> k. update_times n s w = Some (Inl DanglingPointer))"
  using assms
proof (induction "unat (e - tm_time s)" arbitrary: s)
  case 0
  then show ?case by (simp add: dangling_def ahead_def word_less_nat_alt)
next
  case (Suc d)
  let ?s = "s\<lparr>tm_time := tm_time s + 1\<rparr>"
  show ?case
  proof (cases "Update s w = Some (Inl DanglingPointer)")
    case True
    then have "update_times n s w = Some (Inl DanglingPointer)" if "1 \<le> n" for n using that by (cases n) auto
    moreover have "update_times n s w = Some (Inr (s\<lparr>tm_time := tm_time s + of_nat n\<rparr>, w))" if "n < 1" for n
      using that by simp
    ultimately show ?thesis using Suc(2) by (intro exI [of _ 1]) auto
  next
    case False
    with dangling_step [OF Suc.prems] have step: "Update s w = Some (Inr (?s, w))" "dangling a e ?s" by auto
    have "e - tm_time s \<noteq> 0" using Suc(2) by auto
    then have "unat (e - tm_time ?s) = d" using Suc(2) unat_minus_one [of "e - tm_time s"] by (simp add: algebra_simps)
    then obtain k where k: "0 < k" "k \<le> d"
      "\<And>n. n < k \<Longrightarrow> update_times n ?s w = Some (Inr (?s\<lparr>tm_time := tm_time ?s + of_nat n\<rparr>, w))"
      "\<And>n. k \<le> n \<Longrightarrow> update_times n ?s w = Some (Inl DanglingPointer)"
      using Suc(1) [OF _ step(2)] by auto
    have "update_times n s w = Some (Inr (s\<lparr>tm_time := tm_time s + of_nat n\<rparr>, w))" if "n < Suc k" for n
      using that step(1) k(3) by (cases n) (auto simp: add_ac)
    moreover have "update_times n s w = Some (Inl DanglingPointer)" if "Suc k \<le> n" for n
      using that step(1) k(4) by (cases n) auto
    ultimately show ?thesis using Suc(2) k(2) by (intro exI [of _ "Suc k"]) auto
  qed
qed

lemma Timeout_dangling:
  assumes "0 < time" and "time < 2 ^ 31" and "\<not> tm_locked s" and "tm_nodes s = (\<lambda>_. None)"
    and "tm_buckets s = (\<lambda>_. empty_list)"
  shows "\<exists>s'. Timeout a h time session s w = Inr (session, s', w) \<and> tm_time s' = tm_time s \<and>
    dangling a (word_of_int time + tm_time s) s'"
proof -
  let ?e = "word_of_int time + tm_time s"
  let ?p = "place_of ?e (tm_time s)"
  let ?n = "\<lparr>tn_next = None, tn_expire = ?e, tn_handle = h, tn_session = session\<rparr>"
  let ?s = "(node_set a ?n s)\<lparr>tm_locked := True\<rparr>"
  let ?s' = "node_free a (timer_unlock (node_set a ?n (bucket_set ?p \<lparr>ll_first = Some a, ll_tail = Some a\<rparr> ?s)))"
  have "Link ?p a ?s = Inr (node_set a ?n (bucket_set ?p \<lparr>ll_first = Some a, ll_tail = Some a\<rparr> ?s))"
    using place_of_ok [of ?e "tm_time s"] assms(5) by (simp add: Link_def empty_list_def node_at_Some Let_def)
  then have "Timeout a h time session s w = Inr (session, ?s', w)"
    using assms(1,3) by (simp add: Timeout_def AddNode_def timer_lock_def node_at_Some Let_def)
  moreover have "uint (word_of_int time :: u32) = time"
    using assms(1,2) by (simp add: uint_word_of_int take_bit_int_eq_self)
  then have "ahead ?e (tm_time s)" using assms(1,2) by (simp add: ahead_def word_less_def)
  ultimately show ?thesis using assms(4,5) by (intro exI [of _ ?s']) (simp add: dangling_def)
qed

text \<open>C33 No service is ever woken by \<open>Timeout\<close>. The node that it puts into the wheel is a local variable of
  the call; in a wheel with no other timer, the ticks up to some tick \<open>k\<close>, which comes no later than
  the timer expires, send nothing, and tick \<open>k\<close> follows the pointer to the variable that is gone.\<close>

theorem timeout_never_wakes:
  assumes "0 < time" and "time < 2 ^ 31" and "\<not> tm_locked s" and "tm_nodes s = (\<lambda>_. None)"
    and "tm_buckets s = (\<lambda>_. empty_list)"
  shows "\<exists>s' k. Timeout a h time session s w = Inr (session, s', w) \<and> 0 < k \<and> k \<le> nat time \<and>
    (\<forall>n < k. update_times n s' w = Some (Inr (s'\<lparr>tm_time := tm_time s + of_nat n\<rparr>, w))) \<and>
    (\<forall>n \<ge> k. update_times n s' w = Some (Inl DanglingPointer))"
proof -
  obtain s' where s': "Timeout a h time session s w = Inr (session, s', w)" "tm_time s' = tm_time s"
    "dangling a (word_of_int time + tm_time s) s'" using Timeout_dangling [OF assms] by blast
  have "uint (word_of_int time :: u32) = time"
    using assms(1,2) by (simp add: uint_word_of_int take_bit_int_eq_self)
  then have "unat (word_of_int time :: u32) = nat time" by (metis unat_eq_nat_uint)
  then show ?thesis using s' dangling_runs [OF s'(3), of w] by auto
qed

theorem timeout_never_wakes_witness:
  "\<exists>s' k. Timeout 100 9 5 3 (TimerInit 0 0) (start_world 1 1 []) = Inr (3, s', start_world 1 1 []) \<and> k \<le> 5 \<and>
    update_times k s' (start_world 1 1 []) = Some (Inl DanglingPointer)"
  using timeout_never_wakes [of 5 "TimerInit 0 0" 100 9 3 "start_world 1 1 []"]
  by (force simp: TimerInit_def)

end
