(* ===== verification/SocketBase.thy ===== *)
theory SocketBase
  imports Cstring
begin

text \<open>
  \<open>skynet-src/socket_server.cpp\<close>, the data: sockets, the server with its 65536 slots, requests, and
  the calls into the operating system. \<open>include/socket_server.h\<close> and \<open>include/socket_protocol.h\<close>
  declare them.

  The model is a state monad over the record \<open>server\<close> with faults. The record holds what the
  functions pass along by reference: the message that is reported (\<open>sv_msg\<close>) and the lock counter of
  the operation (\<open>sv_lock_slot\<close>, \<open>sv_lock_count\<close>; there is one at a time). Calls into the operating
  system are written to a log in order; those with a result that the code looks at take the next
  of a list of answers, and are \<open>Blocked\<close> when it is empty.
\<close>

section \<open>Constants\<close>

datatype socket_type =
    kSocketTypeInvalid
  | kSocketTypeReserve
  | kSocketTypePlisten
  | kSocketTypeListen
  | kSocketTypeConnecting
  | kSocketTypeConnected
  | kSocketTypeHalfCloseRead
  | kSocketTypeHalfCloseWrite
  | kSocketTypeIPaccept
  | kSocketTypeBind

text \<open>What the handlers return; \<open>Ignored\<close> is \<open>-1\<close>.\<close>

datatype outcome =
    kSocketData
  | kSocketClose
  | kSocketOpen
  | kSocketAccept
  | kSocketErr
  | kSocketExit
  | kSocketUDP
  | kSocketWarning
  | kSocketRst
  | kSocketMore
  | Ignored

datatype protocol = TCP | UDP | UDPv6 | UNKNOWN

definition MAX_SOCKET :: nat where "MAX_SOCKET = 65536"
definition MIN_READ_BUFFER :: int where "MIN_READ_BUFFER = 64"
definition WARNING_SIZE :: int where "WARNING_SIZE = 1048576"
definition USEROBJECT :: u64 where "USEROBJECT = - 1"
definition kUdpAddressSize :: nat where "kUdpAddressSize = 19"

definition HASH_ID :: "int \<Rightarrow> nat" where "HASH_ID n = nat (n mod 65536)"
definition ID_TAG16 :: "int \<Rightarrow> int" where "ID_TAG16 n = n div 65536 mod 65536"

section \<open>Buffers and sockets\<close>

text \<open>
  A pointer into memory is the address of a \<open>std::string\<close> object and an offset from it: the code
  takes the object for its characters. The address 0 is \<open>nullptr\<close>.
\<close>

type_synonym pointer = "nat \<times> int"

record write_buffer =
  wb_buffer :: nat
  wb_ptr :: pointer
  wb_sz :: u64

text \<open>The \<open>std::variant\<close> \<open>p\<close>: the size of the next read, or an address.\<close>

datatype param = ReadSize int | UdpAddress "u8 list"

text \<open>The lists \<open>high\<close> and \<open>low\<close> are their nodes from \<open>head\<close> to \<open>tail\<close>.\<close>

record socket =
  sk_opaque :: u64
  sk_high :: "write_buffer list"
  sk_low :: "write_buffer list"
  sk_wb_size :: int
  sk_rtime :: u64
  sk_wtime :: u64
  sk_read :: u64
  sk_write :: u64
  sk_sending :: u64
  sk_fd :: int
  sk_id :: int
  sk_type :: socket_type
  sk_protocol :: protocol
  sk_reading :: bool
  sk_writing :: bool
  sk_closing :: bool
  sk_udpconnecting :: int
  sk_warn_size :: int
  sk_p :: param
  sk_dw_lock :: bool
  sk_dw_offset :: int
  sk_dw_buffer :: nat
  sk_dw_size :: u64

text \<open>\<open>struct SocketMessage\<close>, and \<open>struct Sendbuffer\<close> with its type.\<close>

record server_message =
  pm_id :: int
  pm_opaque :: u64
  pm_ud :: int
  pm_data :: string

datatype buffer_type = BufferMemory | BufferObject | BufferRawpointer

record sendbuffer =
  sb_id :: int
  sb_type :: buffer_type
  sb_buffer :: nat
  sb_sz :: u64

section \<open>Requests\<close>

text \<open>What the other threads ask of the socket thread, through a pipe: one structure for each letter.\<close>

datatype request =
    ReqResume int u64
  | ReqPause int u64
  | ReqBind int int u64
  | ReqListen int int u64
  | ReqClose int bool u64
  | ReqOpen int int u64 string
  | ReqExit
  | ReqTrigger int
  | ReqSend bool int u64 nat
  | ReqSendUdp int u64 nat "u8 list"
  | ReqSetUdp int "u8 list"
  | ReqSetOpt int int int
  | ReqUdp int int bool u64
  | ReqUnknown int int

section \<open>The operating system\<close>

datatype sockaddr = V4 "u8 list" "u8 list" | V6 "u8 list" "u8 list"

datatype oscall =
    OsWrite int pointer u64
  | OsSendto int pointer u64 sockaddr
  | OsRead int int
  | OsRecvfrom int
  | OsClose int
  | OsShutdown int bool
  | OsEpollAdd int int "nat option"
  | OsEpollDel int int
  | OsEpollMod int int nat bool bool
  | OsEpollWait int
  | OsGetaddrinfo string int
  | OsSocket int
  | OsKeepalive int
  | OsNonblock int
  | OsConnect int
  | OsAccept int
  | OsGetsockname int
  | OsGetpeername int
  | OsGetError int
  | OsSetsockopt int int int
  | OsSelect int
  | OsReadPipe int
  | OsWritePipe int request
  | OsDup int
  | OsReuseaddr int
  | OsBind int
  | OsListen int int
  | OsPipe
  | OsEpollCreate
  | Delete nat
  | LogError string

text \<open>\<open>struct Event\<close>; \<open>ev_s\<close> is the slot the event points to.\<close>

record epoll_event =
  ev_s :: "nat option"
  ev_read :: bool
  ev_write :: bool
  ev_error :: bool
  ev_eof :: bool

text \<open>
  What \<open>EpollWait\<close> makes of the entries that \<open>epoll_wait\<close> answers: the pointer given to \<open>EpollAdd\<close>, and
  the flags.
\<close>

definition EPOLLIN :: u32 where "EPOLLIN = 1"
definition EPOLLOUT :: u32 where "EPOLLOUT = 4"
definition EPOLLERR :: u32 where "EPOLLERR = 8"
definition EPOLLHUP :: u32 where "EPOLLHUP = 16"

definition event_of :: "nat option \<times> u32 \<Rightarrow> epoll_event" where
  "event_of ev =
     (let flag = snd ev in
      \<lparr>ev_s = fst ev, ev_read = (flag AND EPOLLIN \<noteq> 0), ev_write = (flag AND EPOLLOUT \<noteq> 0),
       ev_error = (flag AND EPOLLERR \<noteq> 0), ev_eof = (flag AND EPOLLHUP \<noteq> 0)\<rparr>)"

text \<open>
  An answer: the returned value, \<open>errno\<close>, and what the call stores through its pointers.
\<close>

record answer =
  an_ret :: int
  an_errno :: int
  an_value :: int
  an_bytes :: "u8 list"
  an_addr :: sockaddr
  an_name :: "string option"
  an_families :: "int list"
  an_request :: request
  an_events :: "(nat option \<times> u32) list"

definition EINTR :: int where "EINTR = 4"
definition EAGAIN :: int where "EAGAIN = 11"
definition ENFILE :: int where "ENFILE = 23"
definition EMFILE :: int where "EMFILE = 24"
definition EINPROGRESS :: int where "EINPROGRESS = 115"
definition AF_INET :: int where "AF_INET = 2"
definition AF_INET6 :: int where "AF_INET6 = 10"
definition TCP_NODELAY :: int where "TCP_NODELAY = 1"

section \<open>The server\<close>

text \<open>
  Where the code leaves the language, what happens is not determined by it; it is a parameter:
  what assigning \<open>nullptr\<close> to a \<open>std::string\<close> leaves in the string, what using a pointer that was
  never assigned as if it pointed to fresh memory does, the bytes found in memory that was never
  written, and the bytes behind a \<open>RequestPackage\<close> that are written to the pipe in its place. A fault
  stands for a program that does not survive it. The rest are answers of the library: the place of
  the characters of a \<open>std::string\<close>, and the text of an error.
\<close>

record platform =
  pf_null :: "string res"
  pf_pointer :: "unit res"
  pf_memory :: "u8 list res"
  pf_request :: "request \<Rightarrow> request res"
  pf_c_str :: "nat \<Rightarrow> pointer"
  pf_strerror :: "int \<Rightarrow> string"
  pf_gai_strerror :: "int \<Rightarrow> string"

record server =
  sv_slot :: "nat \<Rightarrow> socket"
  sv_alloc_id :: int
  sv_time :: u64
  sv_reserve_fd :: int
  sv_recvctrl_fd :: int
  sv_sendctrl_fd :: int
  sv_event_fd :: int
  sv_checkctrl :: bool
  sv_event_n :: int
  sv_event_index :: int
  sv_ev :: "epoll_event list"
  sv_lock_slot :: nat
  sv_lock_count :: int
  sv_msg :: server_message
  sv_platform :: platform
  sv_answers :: "answer list"
  sv_calls :: "oscall list"

section \<open>Actions\<close>

type_synonym 'a act = "server \<Rightarrow> ('a \<times> server) res"

definition ret :: "'a \<Rightarrow> 'a act" where
  "ret x = (\<lambda>s. Inr (x, s))"

definition raise :: "fault \<Rightarrow> 'a act" where
  "raise e = (\<lambda>s. Inl e)"

definition seq :: "'a act \<Rightarrow> ('a \<Rightarrow> 'b act) \<Rightarrow> 'b act" where
  "seq m f = (\<lambda>s. bindR (m s) (\<lambda>(x, s'). f x s'))"

definition next_do :: "'a act \<Rightarrow> 'b act \<Rightarrow> 'b act" where
  "next_do m n = seq m (\<lambda>_. n)"

definition lift_res :: "'a res \<Rightarrow> 'a act" where
  "lift_res r = (\<lambda>s. bindR r (\<lambda>x. Inr (x, s)))"

definition check :: "bool \<Rightarrow> unit act" where
  "check b = lift_res (assertR b)"

definition look :: "(server \<Rightarrow> 'a) \<Rightarrow> 'a act" where
  "look f = (\<lambda>s. Inr (f s, s))"

definition change :: "(server \<Rightarrow> server) \<Rightarrow> unit act" where
  "change f = (\<lambda>s. Inr ((), f s))"

definition sock :: "nat \<Rightarrow> socket act" where
  "sock i = look (\<lambda>s. sv_slot s i)"

definition upd :: "nat \<Rightarrow> (socket \<Rightarrow> socket) \<Rightarrow> unit act" where
  "upd i f = change (\<lambda>s. s\<lparr>sv_slot := (sv_slot s)(i := f (sv_slot s i))\<rparr>)"

definition msg :: "(server_message \<Rightarrow> server_message) \<Rightarrow> unit act" where
  "msg f = change (\<lambda>s. s\<lparr>sv_msg := f (sv_msg s)\<rparr>)"

definition msg_data :: "string \<Rightarrow> unit act" where
  "msg_data text = msg (\<lambda>m. m\<lparr>pm_data := text\<rparr>)"

text \<open>\<open>socket_message.data = nullptr\<close>\<close>

definition msg_null :: "unit act" where
  "msg_null = seq (look (pf_null \<circ> sv_platform)) (\<lambda>r. seq (lift_res r) msg_data)"

definition strerror :: "int \<Rightarrow> string act" where
  "strerror e = look (\<lambda>s. pf_strerror (sv_platform s) e)"

text \<open>Using a pointer variable that nothing was assigned to.\<close>

definition unset_pointer :: "unit act" where
  "unset_pointer = seq (look (pf_pointer \<circ> sv_platform)) lift_res"

definition tell :: "oscall \<Rightarrow> unit act" where
  "tell c = change (\<lambda>s. s\<lparr>sv_calls := sv_calls s @ [c]\<rparr>)"

text \<open>\<open>SkynetError (-1, text)\<close>, and the message that all errors but an interruption give.\<close>

definition log_error :: "string \<Rightarrow> unit act" where
  "log_error text = tell (LogError text)"

definition log_errno :: "string \<Rightarrow> int \<Rightarrow> unit act" where
  "log_errno text e = (if e \<noteq> EINTR then seq (strerror e) (\<lambda>err. log_error (text @ err)) else ret ())"

definition ask :: "oscall \<Rightarrow> answer act" where
  "ask c = (\<lambda>s. case sv_answers s of
       [] \<Rightarrow> Inl Blocked
     | a # as \<Rightarrow> Inr (a, s\<lparr>sv_answers := as, sv_calls := sv_calls s @ [c]\<rparr>))"

lemma seq_cong [fundef_cong]:
  assumes "m s = m' s'" and "\<And>x t. m' s' = Inr (x, t) \<Longrightarrow> f x t = f' x t"
  shows "seq m f s = seq m' f' s'"
  using assms by (cases "m' s'") (auto simp: seq_def)

named_theorems act_simps "evaluation of actions"

lemma act_eval [act_simps]:
  "ret x s = Inr (x, s)" "raise e s = Inl e" "look f s = Inr (f s, s)" "change g s = Inr ((), g s)"
  by (simp_all add: ret_def raise_def look_def change_def)

lemma seq_eval [act_simps]:
  "m s = Inr (x, t) \<Longrightarrow> seq m f s = f x t"
  "m s = Inl e \<Longrightarrow> seq m f s = Inl e"
  by (simp_all add: seq_def)

lemma seq_Inr_iff: "seq m f s = Inr (y, u) \<longleftrightarrow> (\<exists>x t. m s = Inr (x, t) \<and> f x t = Inr (y, u))"
  by (auto simp: seq_def bindR_Inr_iff)

lemma check_eval [act_simps]: "check b s = (if b then Inr ((), s) else Inl AssertionFailed)"
  by (simp add: check_def lift_res_def)

end
