(* ===== verification/SocketOps.thy ===== *)
theory SocketOps
  imports SocketBase
begin

text \<open>
  \<open>skynet-src/socket_server.cpp\<close>, the operations on one socket: its lock, its slot, opening,
  listening, binding, resuming, pausing and closing it. A socket is the index of its slot.
\<close>

section \<open>Locking\<close>

definition steps :: "unit act list \<Rightarrow> unit act" where
  "steps ms = foldr next_do ms (ret ())"

definition only_if :: "bool \<Rightarrow> unit act \<Rightarrow> unit act" where
  "only_if b m = (if b then m else ret ())"

text \<open>A lock that is held is waited for, and nobody else runs in the meantime.\<close>

definition SocketLockInit :: "nat \<Rightarrow> unit act" where
  "SocketLockInit i = change (\<lambda>s. s\<lparr>sv_lock_slot := i, sv_lock_count := 0\<rparr>)"

definition SocketLock :: "unit act" where
  "SocketLock =
     seq (look (\<lambda>s. (sv_lock_slot s, sv_lock_count s))) (\<lambda>(i, count).
     next_do (only_if (count = 0) (seq (sock i) (\<lambda>k.
         if sk_dw_lock k then raise Deadlock else upd i (\<lambda>k. k\<lparr>sk_dw_lock := True\<rparr>))))
       (change (\<lambda>s. s\<lparr>sv_lock_count := count + 1\<rparr>)))"

definition SocketTrylock :: "bool act" where
  "SocketTrylock =
     seq (look (\<lambda>s. (sv_lock_slot s, sv_lock_count s))) (\<lambda>(i, count).
     seq (sock i) (\<lambda>k.
       if count = 0 \<and> sk_dw_lock k then ret False
       else next_do (only_if (count = 0) (upd i (\<lambda>k. k\<lparr>sk_dw_lock := True\<rparr>)))
              (next_do (change (\<lambda>s. s\<lparr>sv_lock_count := count + 1\<rparr>)) (ret True))))"

definition SocketUnlock :: "unit act" where
  "SocketUnlock =
     seq (look (\<lambda>s. (sv_lock_slot s, sv_lock_count s))) (\<lambda>(i, count).
     next_do (change (\<lambda>s. s\<lparr>sv_lock_count := count - 1\<rparr>))
       (only_if (count - 1 \<le> 0)
          (next_do (check (count - 1 = 0)) (upd i (\<lambda>k. k\<lparr>sk_dw_lock := False\<rparr>)))))"

section \<open>Slots\<close>

definition SocketInvalid :: "int \<Rightarrow> bool act" where
  "SocketInvalid n = seq (sock (HASH_ID n)) (\<lambda>k. ret (sk_id k \<noteq> n \<or> sk_type k = kSocketTypeInvalid))"

definition SocketKeepalive :: "int \<Rightarrow> unit act" where
  "SocketKeepalive fd = tell (OsKeepalive fd)"

text \<open>
  The atomic counter wraps around, but adding 1 to its old value once more is signed arithmetic.
  The argument counts the iterations that are left.
\<close>

fun reserve_loop :: "nat \<Rightarrow> int act" where
  "reserve_loop 0 = ret (- 1)"
| "reserve_loop (Suc k) =
     seq (look sv_alloc_id) (\<lambda>old.
       if old = 2 ^ 31 - 1 then raise SignedOverflow
       else
         let n = (if old + 1 < 0 then (old + 1) mod 2 ^ 31 else old + 1) in
         next_do (change (\<lambda>s. s\<lparr>sv_alloc_id := n\<rparr>))
           (seq (sock (HASH_ID n)) (\<lambda>j.
              if sk_type j = kSocketTypeInvalid then
                next_do (upd (HASH_ID n) (\<lambda>j. j\<lparr>sk_type := kSocketTypeReserve, sk_id := n,
                    sk_protocol := UNKNOWN, sk_udpconnecting := 0, sk_fd := - 1\<rparr>))
                  (ret n)
              else reserve_loop k)))"

definition ReserveId :: "int act" where
  "ReserveId = reserve_loop MAX_SOCKET"

definition FreeBuffer :: "sendbuffer \<Rightarrow> unit act" where
  "FreeBuffer b = only_if (sb_type b = BufferMemory) (tell (Delete (sb_buffer b)))"

definition CloneBuffer :: "sendbuffer \<Rightarrow> nat \<times> u64" where
  "CloneBuffer b =
     (case sb_type b of
        BufferMemory \<Rightarrow> (sb_buffer b, sb_sz b)
      | BufferObject \<Rightarrow> (sb_buffer b, USEROBJECT)
      | BufferRawpointer \<Rightarrow> (0, 0))"

definition ClearWriteBufferList :: "write_buffer list" where
  "ClearWriteBufferList = []"

text \<open>The loop walks over the list; nothing is freed.\<close>

definition FreeWriteBufferList :: "nat \<Rightarrow> unit act" where
  "FreeWriteBufferList i = upd i (\<lambda>k. k\<lparr>sk_high := [], sk_low := []\<rparr>)"

section \<open>Polling\<close>

definition EpollAdd :: "int \<Rightarrow> nat option \<Rightarrow> bool act" where
  "EpollAdd fd data =
     seq (look sv_event_fd) (\<lambda>efd. seq (ask (OsEpollAdd efd fd data)) (\<lambda>a. ret (an_ret a = - 1)))"

definition EpollDel :: "int \<Rightarrow> unit act" where
  "EpollDel fd = seq (look sv_event_fd) (\<lambda>efd. tell (OsEpollDel efd fd))"

definition EpollEnable :: "int \<Rightarrow> nat \<Rightarrow> bool \<Rightarrow> bool \<Rightarrow> bool act" where
  "EpollEnable fd data read_enable write_enable =
     seq (look sv_event_fd) (\<lambda>efd.
     seq (ask (OsEpollMod efd fd data read_enable write_enable)) (\<lambda>a. ret (an_ret a = - 1)))"

definition EpollNonblocking :: "int \<Rightarrow> unit act" where
  "EpollNonblocking fd = tell (OsNonblock fd)"

definition EnableWrite :: "nat \<Rightarrow> bool \<Rightarrow> bool act" where
  "EnableWrite i enable =
     seq (sock i) (\<lambda>k.
       if sk_writing k \<noteq> enable then
         next_do (upd i (\<lambda>k. k\<lparr>sk_writing := enable\<rparr>)) (EpollEnable (sk_fd k) i (sk_reading k) enable)
       else ret False)"

definition EnableRead :: "nat \<Rightarrow> bool \<Rightarrow> bool act" where
  "EnableRead i enable =
     seq (sock i) (\<lambda>k.
       if sk_reading k \<noteq> enable then
         next_do (upd i (\<lambda>k. k\<lparr>sk_reading := enable\<rparr>)) (EpollEnable (sk_fd k) i enable (sk_writing k))
       else ret False)"

section \<open>Closing\<close>

definition set_type :: "nat \<Rightarrow> socket_type \<Rightarrow> unit act" where
  "set_type i t = upd i (\<lambda>k. k\<lparr>sk_type := t\<rparr>)"

definition free_direct :: "nat \<Rightarrow> unit act" where
  "free_direct i =
     seq (sock i) (\<lambda>k.
       only_if (sk_dw_buffer k \<noteq> 0)
         (next_do (FreeBuffer \<lparr>sb_id = sk_id k,
             sb_type = (if sk_dw_size k = USEROBJECT then BufferObject else BufferMemory),
             sb_buffer = sk_dw_buffer k, sb_sz = sk_dw_size k\<rparr>)
           (upd i (\<lambda>k. k\<lparr>sk_dw_buffer := 0\<rparr>))))"

definition ForceClose :: "nat \<Rightarrow> unit act" where
  "ForceClose i =
     seq (sock i) (\<lambda>k.
     next_do (steps
       [msg (\<lambda>m. m\<lparr>pm_id := sk_id k, pm_ud := 0\<rparr>), msg_null, msg (\<lambda>m. m\<lparr>pm_opaque := sk_opaque k\<rparr>)])
       (only_if (sk_type k \<noteq> kSocketTypeInvalid) (steps
          [check (sk_type k \<noteq> kSocketTypeReserve),
           FreeWriteBufferList i,
           EpollDel (sk_fd k),
           SocketLock,
           only_if (sk_type k \<noteq> kSocketTypeBind) (tell (OsClose (sk_fd k))),
           set_type i kSocketTypeInvalid,
           free_direct i,
           SocketUnlock])))"

definition ReportError :: "nat \<Rightarrow> string \<Rightarrow> outcome act" where
  "ReportError i err =
     seq (sock i) (\<lambda>k.
     next_do (msg (\<lambda>m. m\<lparr>pm_id := sk_id k, pm_ud := 0, pm_opaque := sk_opaque k, pm_data := err\<rparr>))
       (ret kSocketErr))"

text \<open>\<open>e\<close> is \<open>errno\<close>, as the call that failed has left it.\<close>

definition CloseWrite :: "nat \<Rightarrow> int \<Rightarrow> outcome act" where
  "CloseWrite i e =
     seq (sock i) (\<lambda>k.
       if sk_closing k then next_do (ForceClose i) (ret kSocketRst)
       else if sk_type k = kSocketTypeHalfCloseRead then next_do (ForceClose i) (ret kSocketRst)
       else if sk_type k = kSocketTypeHalfCloseWrite then ret kSocketRst
       else
         next_do (set_type i kSocketTypeHalfCloseWrite)
           (next_do (tell (OsShutdown (sk_fd k) True))
             (seq (EnableWrite i False) (\<lambda>_. seq (strerror e) (ReportError i)))))"

definition CloseRead :: "nat \<Rightarrow> unit act" where
  "CloseRead i =
     seq (sock i) (\<lambda>k. steps
       [set_type i kSocketTypeHalfCloseRead,
        seq (EnableRead i False) (\<lambda>_. ret ()),
        tell (OsShutdown (sk_fd k) False),
        msg (\<lambda>m. m\<lparr>pm_id := sk_id k, pm_ud := 0\<rparr>),
        msg_null,
        msg (\<lambda>m. m\<lparr>pm_opaque := sk_opaque k\<rparr>)])"

definition HalfcloseRead :: "nat \<Rightarrow> bool act" where
  "HalfcloseRead i = seq (sock i) (\<lambda>k. ret (sk_type k = kSocketTypeHalfCloseRead))"

definition SendBufferEmpty :: "socket \<Rightarrow> bool" where
  "SendBufferEmpty k \<longleftrightarrow> sk_high k = [] \<and> sk_low k = []"

definition NomoreSendingData :: "nat \<Rightarrow> bool act" where
  "NomoreSendingData i =
     seq (sock i) (\<lambda>k. ret ((SendBufferEmpty k \<and> sk_dw_buffer k = 0 \<and> sk_sending k AND 0xffff = 0) \<or>
       sk_type k = kSocketTypeHalfCloseWrite))"

definition CloseSocket :: "int \<Rightarrow> bool \<Rightarrow> outcome act" where
  "CloseSocket n shutdown =
     (let i = HASH_ID n in
      seq (SocketInvalid n) (\<lambda>invalid.
        if invalid then ret Ignored
        else
          next_do (SocketLockInit i)
            (seq (HalfcloseRead i) (\<lambda>shutdown_read.
             seq (NomoreSendingData i) (\<lambda>nomore.
               if shutdown \<or> nomore then
                 next_do (ForceClose i) (ret (if shutdown_read then Ignored else kSocketClose))
               else
                 next_do (upd i (\<lambda>k. k\<lparr>sk_closing := True\<rparr>))
                   (if shutdown_read then ret Ignored else next_do (CloseRead i) (ret kSocketClose)))))))"

section \<open>New sockets\<close>

definition NewFd :: "int \<Rightarrow> int \<Rightarrow> protocol \<Rightarrow> u64 \<Rightarrow> bool \<Rightarrow> bool act" where
  "NewFd n fd protocol opaque reading =
     (let i = HASH_ID n in
      seq (sock i) (\<lambda>k.
      next_do (check (sk_type k = kSocketTypeReserve))
        (seq (EpollAdd fd (Some i)) (\<lambda>failed.
           if failed then next_do (set_type i kSocketTypeInvalid) (ret False)
           else
             next_do (upd i (\<lambda>k. k\<lparr>sk_id := n, sk_fd := fd, sk_reading := True, sk_writing := False,
                 sk_closing := False, sk_sending := word_of_int (ID_TAG16 n * 65536), sk_protocol := protocol,
                 sk_p := ReadSize MIN_READ_BUFFER, sk_opaque := opaque, sk_wb_size := 0, sk_warn_size := 0\<rparr>))
               (next_do (check (sk_high k = [] \<and> sk_low k = []))
                 (next_do (upd i (\<lambda>k. k\<lparr>sk_dw_buffer := 0, sk_dw_size := 0, sk_rtime := 0, sk_wtime := 0,
                      sk_read := 0, sk_write := 0\<rparr>))
                   (seq (EnableRead i reading) (\<lambda>failed.
                      if failed then next_do (set_type i kSocketTypeInvalid) (ret False) else ret True))))))))"

definition StatRead :: "nat \<Rightarrow> int \<Rightarrow> unit act" where
  "StatRead i n =
     seq (look sv_time) (\<lambda>t. upd i (\<lambda>k. k\<lparr>sk_read := sk_read k + word_of_int n, sk_rtime := t\<rparr>))"

definition StatWrite :: "nat \<Rightarrow> int \<Rightarrow> unit act" where
  "StatWrite i n =
     seq (look sv_time) (\<lambda>t. upd i (\<lambda>k. k\<lparr>sk_write := sk_write k + word_of_int n, sk_wtime := t\<rparr>))"

text \<open>
  The loop over the addresses of the name: the socket, or a negative number, the status, the printed
  address, and \<open>errno\<close>.
\<close>

fun connect_loop :: "int list \<Rightarrow> int \<Rightarrow> int \<Rightarrow> (int \<times> int \<times> string option \<times> int) act" where
  "connect_loop [] status e = ret (- 1, status, None, e)"
| "connect_loop (family # fs) status e =
     seq (ask (OsSocket family)) (\<lambda>a.
       if an_ret a < 0 then connect_loop fs status (an_errno a)
       else
         let fd = an_ret a in
         next_do (SocketKeepalive fd)
           (next_do (EpollNonblocking fd)
             (seq (ask (OsConnect fd)) (\<lambda>b.
                if an_ret b \<noteq> 0 \<and> an_errno b \<noteq> EINPROGRESS
                then next_do (tell (OsClose fd)) (connect_loop fs (an_ret b) (an_errno b))
                else ret (fd, an_ret b, an_name b, an_errno b)))))"

definition connected_socket :: "int \<Rightarrow> string option \<Rightarrow> outcome act" where
  "connected_socket n printed =
     next_do (set_type (HASH_ID n) kSocketTypeConnected)
       (next_do (case printed of None \<Rightarrow> ret () | Some text \<Rightarrow> msg_data text) (ret kSocketOpen))"

definition connecting_socket :: "int \<Rightarrow> int \<Rightarrow> outcome act" where
  "connecting_socket n fd =
     seq (EnableWrite (HASH_ID n) True) (\<lambda>failed.
       if failed then
         next_do (msg_data ''enable write failed'')
           (next_do (tell (OsClose fd))
             (next_do (set_type (HASH_ID n) kSocketTypeInvalid) (ret kSocketErr)))
       else next_do (set_type (HASH_ID n) kSocketTypeConnecting) (ret Ignored))"

definition OpenSocket :: "int \<Rightarrow> int \<Rightarrow> u64 \<Rightarrow> string \<Rightarrow> outcome act" where
  "OpenSocket n port opaque host =
     next_do (msg (\<lambda>m. m\<lparr>pm_opaque := opaque, pm_id := n, pm_ud := 0\<rparr>))
     (next_do msg_null
     (seq (ask (OsGetaddrinfo host port)) (\<lambda>a.
       if an_ret a \<noteq> 0 then
         next_do (seq (look (\<lambda>s. pf_gai_strerror (sv_platform s) (an_ret a))) msg_data)
           (next_do (set_type (HASH_ID n) kSocketTypeInvalid) (ret kSocketErr))
       else
         seq (connect_loop (an_families a) 0 (an_errno a)) (\<lambda>(fd, status, printed, e).
           if fd < 0 then
             next_do (seq (strerror e) msg_data)
               (next_do (set_type (HASH_ID n) kSocketTypeInvalid) (ret kSocketErr))
           else
             seq (NewFd n fd TCP opaque True) (\<lambda>made.
               if \<not> made then
                 next_do (msg_data ''reach skynet socket number limit'')
                   (next_do (set_type (HASH_ID n) kSocketTypeInvalid) (ret kSocketErr))
               else if status = 0 then connected_socket n printed
               else connecting_socket n fd)))))"

definition ListenSocket :: "int \<Rightarrow> int \<Rightarrow> u64 \<Rightarrow> outcome act" where
  "ListenSocket n listen_fd opaque =
     seq (NewFd n listen_fd TCP opaque False) (\<lambda>made.
       if \<not> made then
         next_do (tell (OsClose listen_fd))
           (next_do (msg (\<lambda>m. m\<lparr>pm_opaque := opaque, pm_id := n, pm_ud := 0,
                 pm_data := ''reach skynet socket number limit''\<rparr>))
             (next_do (set_type (HASH_ID n) kSocketTypeInvalid) (ret kSocketErr)))
       else
         next_do (set_type (HASH_ID n) kSocketTypePlisten)
           (next_do (msg (\<lambda>m. m\<lparr>pm_opaque := opaque, pm_id := n, pm_ud := 0, pm_data := ''listen''\<rparr>))
             (seq (ask (OsGetsockname listen_fd)) (\<lambda>a.
                case (an_ret a = 0, an_name a) of
                  (True, Some text) \<Rightarrow>
                    next_do (msg (\<lambda>m. m\<lparr>pm_data := text, pm_ud := an_value a\<rparr>)) (ret kSocketOpen)
                | _ \<Rightarrow> next_do (seq (strerror (an_errno a)) msg_data) (ret kSocketErr)))))"

definition BindSocket :: "int \<Rightarrow> int \<Rightarrow> u64 \<Rightarrow> outcome act" where
  "BindSocket n fd opaque =
     next_do (msg (\<lambda>m. m\<lparr>pm_id := n, pm_opaque := opaque, pm_ud := 0\<rparr>))
       (seq (NewFd n fd TCP opaque True) (\<lambda>made.
          if \<not> made then next_do (msg_data ''reach skynet socket number limit'') (ret kSocketErr)
          else
            next_do (EpollNonblocking fd)
              (next_do (set_type (HASH_ID n) kSocketTypeBind)
                (next_do (msg_data ''binding'') (ret kSocketOpen)))))"

section \<open>Resuming and pausing\<close>

definition start_socket :: "int \<Rightarrow> u64 \<Rightarrow> outcome act" where
  "start_socket n opaque =
     (let i = HASH_ID n in
      seq (sock i) (\<lambda>k.
        if sk_type k = kSocketTypeIPaccept \<or> sk_type k = kSocketTypePlisten then
          next_do (set_type i (if sk_type k = kSocketTypeIPaccept then kSocketTypeConnected else kSocketTypeListen))
            (next_do (upd i (\<lambda>k. k\<lparr>sk_opaque := opaque\<rparr>)) (next_do (msg_data ''start'') (ret kSocketOpen)))
        else if sk_type k = kSocketTypeConnected then
          next_do (upd i (\<lambda>k. k\<lparr>sk_opaque := opaque\<rparr>)) (next_do (msg_data ''transfer'') (ret kSocketOpen))
        else ret Ignored))"

definition ResumeSocket :: "int \<Rightarrow> u64 \<Rightarrow> outcome act" where
  "ResumeSocket n opaque =
     (let i = HASH_ID n in
      next_do (msg (\<lambda>m. m\<lparr>pm_id := n, pm_opaque := opaque, pm_ud := 0\<rparr>))
      (next_do msg_null
      (seq (SocketInvalid n) (\<lambda>invalid.
         if invalid then next_do (msg_data ''invalid socket'') (ret kSocketErr)
         else
           seq (HalfcloseRead i) (\<lambda>halfclose.
             if halfclose then next_do (msg_data ''socket closed'') (ret kSocketErr)
             else
               next_do (SocketLockInit i)
                 (seq (EnableRead i True) (\<lambda>failed.
                    if failed then next_do (msg_data ''enable read failed'') (ret kSocketErr)
                    else start_socket n opaque)))))))"

definition PauseSocket :: "int \<Rightarrow> outcome act" where
  "PauseSocket n =
     seq (SocketInvalid n) (\<lambda>invalid.
       if invalid then ret Ignored
       else seq (EnableRead (HASH_ID n) False) (\<lambda>failed.
         if failed then ReportError (HASH_ID n) ''enable read failed'' else ret Ignored))"

definition SetOptSocket :: "int \<Rightarrow> int \<Rightarrow> int \<Rightarrow> unit act" where
  "SetOptSocket n what v =
     seq (SocketInvalid n) (\<lambda>invalid.
       only_if (\<not> invalid) (seq (sock (HASH_ID n)) (\<lambda>k. tell (OsSetsockopt (sk_fd k) what v))))"

end
