(* ===== verification/SocketSend.thy ===== *)
theory SocketSend
  imports SocketOps
begin

text \<open>
  \<open>skynet-src/socket_server.cpp\<close>, sending: the two lists of buffers of a socket, datagram addresses,
  the socket thread's side of a send, and the count of sends that are under way.
\<close>

section \<open>Datagram addresses\<close>

definition protocol_number :: "protocol \<Rightarrow> u8" where
  "protocol_number p = (case p of TCP \<Rightarrow> 0 | UDP \<Rightarrow> 1 | UDPv6 \<Rightarrow> 2 | UNKNOWN \<Rightarrow> 3)"

text \<open>A type byte, two bytes of port, 4 or 16 bytes of address; \<open>None\<close> is length 0.\<close>

definition UDPSocketAddress :: "socket \<Rightarrow> u8 list \<Rightarrow> sockaddr option res" where
  "UDPSocketAddress k a =
     bindR (nthR a 0) (\<lambda>p.
       if p \<noteq> protocol_number (sk_protocol k) then Inr None
       else
         bindR (memcpy_from a 1 2) (\<lambda>port.
           case sk_protocol k of
             UDP \<Rightarrow> bindR (memcpy_from a 3 4) (\<lambda>addr. Inr (Some (V4 port addr)))
           | UDPv6 \<Rightarrow> bindR (memcpy_from a 3 16) (\<lambda>addr. Inr (Some (V6 port addr)))
           | _ \<Rightarrow> Inr None))"

text \<open>The bytes that are written to \<open>udp_address\<close>; their number is the result of the function.\<close>

definition GenUDPAddress :: "protocol \<Rightarrow> sockaddr \<Rightarrow> u8 list res" where
  "GenUDPAddress p sa =
     (case (p, sa) of
        (UDP, V4 port addr) \<Rightarrow> Inr (protocol_number p # port @ addr)
      | (UDP, V6 port addr) \<Rightarrow> Inl TypeConfusion
      | (_, V6 port addr) \<Rightarrow> Inr (protocol_number p # port @ addr)
      | (_, V4 port addr) \<Rightarrow> Inl TypeConfusion)"

text \<open>\<open>std::get\<close> of the variant \<open>p\<close> throws when the other alternative is there.\<close>

definition get_address :: "nat \<Rightarrow> u8 list act" where
  "get_address i =
     seq (sock i) (\<lambda>k. case sk_p k of UdpAddress a \<Rightarrow> ret a | ReadSize n \<Rightarrow> raise Exception)"

definition get_size :: "nat \<Rightarrow> int act" where
  "get_size i =
     seq (sock i) (\<lambda>k. case sk_p k of ReadSize n \<Rightarrow> ret n | UdpAddress a \<Rightarrow> raise Exception)"

definition AddUDPSocket :: "int \<Rightarrow> int \<Rightarrow> bool \<Rightarrow> u64 \<Rightarrow> unit act" where
  "AddUDPSocket n fd v6 opaque =
     (let i = HASH_ID n in
      seq (NewFd n fd (if v6 then UDPv6 else UDP) opaque True) (\<lambda>made.
        if \<not> made then next_do (tell (OsClose fd)) (set_type i kSocketTypeInvalid)
        else
          next_do (set_type i kSocketTypeConnected)
            (seq (get_address i) (\<lambda>_. upd i (\<lambda>k. k\<lparr>sk_p := UdpAddress (replicate kUdpAddressSize 0)\<rparr>)))))"

definition SetUDPAddress :: "int \<Rightarrow> u8 list \<Rightarrow> outcome act" where
  "SetUDPAddress n a =
     (let i = HASH_ID n in
      seq (SocketInvalid n) (\<lambda>invalid.
        if invalid then ret Ignored
        else
          seq (sock i) (\<lambda>k.
          seq (lift_res (nthR a 0)) (\<lambda>p.
            if p \<noteq> protocol_number (sk_protocol k) then ReportError i ''protocol mismatch''
            else
              seq (get_address i) (\<lambda>old.
              let len = (if sk_protocol k = UDP then 7 else 19) in
              seq (lift_res (memcpy_from a 0 (int len))) (\<lambda>new.
                next_do (upd i (\<lambda>k. k\<lparr>sk_p := UdpAddress (new @ drop len old),
                    sk_udpconnecting := sk_udpconnecting k - 1\<rparr>))
                  (ret Ignored)))))))"

section \<open>Lists of buffers\<close>

text \<open>The list is chosen by its priority: \<open>True\<close> is \<open>PRIORITY_HIGH\<close>.\<close>

definition wlist :: "bool \<Rightarrow> socket \<Rightarrow> write_buffer list" where
  "wlist high k = (if high then sk_high k else sk_low k)"

definition set_wlist :: "bool \<Rightarrow> nat \<Rightarrow> write_buffer list \<Rightarrow> unit act" where
  "set_wlist high i ws = upd i (\<lambda>k. if high then k\<lparr>sk_high := ws\<rparr> else k\<lparr>sk_low := ws\<rparr>)"

text \<open>\<open>wb_size\<close> is 64 bits wide and signed.\<close>

definition add_size :: "nat \<Rightarrow> int \<Rightarrow> unit act" where
  "add_size i d = upd i (\<lambda>k. k\<lparr>sk_wb_size := signed_take_bit 63 (sk_wb_size k + d)\<rparr>)"

lemma ask_shrinks: "ask c s = Inr (a, t) \<Longrightarrow> length (sv_answers t) < length (sv_answers s)"
  by (auto simp: ask_def split: list.splits)

lemma quiet:
  "upd i f s = Inr (u, t) \<Longrightarrow> sv_answers t = sv_answers s"
  "sock i s = Inr (k, t) \<Longrightarrow> t = s"
  "look g s = Inr (x, t) \<Longrightarrow> t = s"
  "StatWrite i n s = Inr (u, t) \<Longrightarrow> sv_answers t = sv_answers s"
  "add_size i n s = Inr (u, t) \<Longrightarrow> sv_answers t = sv_answers s"
  "set_wlist high i ws s = Inr (u, t) \<Longrightarrow> sv_answers t = sv_answers s"
  "seq (look g) (\<lambda>x. lift_res (h x)) s = Inr (y, t) \<Longrightarrow> t = s"
  by (auto simp: upd_def change_def sock_def look_def StatWrite_def seq_def add_size_def set_wlist_def
      lift_res_def bindR_Inr_iff)

text \<open>The two loops of \<open>SendListTCP\<close> are one: an interrupted \<open>write\<close> is tried again with the same node.\<close>

function SendListTCP :: "bool \<Rightarrow> nat \<Rightarrow> outcome act" where
  "SendListTCP high i s =
     seq (sock i) (\<lambda>k s.
       case wlist high k of
         [] \<Rightarrow> ret Ignored s
       | w # ws \<Rightarrow>
           seq (ask (OsWrite (sk_fd k) (wb_ptr w) (wb_sz w))) (\<lambda>a s.
             if an_ret a < 0 then
               if an_errno a = EINTR then SendListTCP high i s
               else if an_errno a = EAGAIN then ret Ignored s
               else CloseWrite i (an_errno a) s
             else
               seq (StatWrite i (an_ret a)) (\<lambda>_.
               seq (add_size i (- an_ret a)) (\<lambda>_ s.
                 if word_of_int (an_ret a) \<noteq> wb_sz w then
                   next_do (set_wlist high i (w\<lparr>wb_ptr := (fst (wb_ptr w), snd (wb_ptr w) + an_ret a),
                       wb_sz := wb_sz w - word_of_int (an_ret a)\<rparr> # ws)) (ret Ignored) s
                 else seq (set_wlist high i ws) (\<lambda>_. SendListTCP high i) s)) s) s) s"
  by pat_completeness auto
termination
  by (relation "measure (\<lambda>(_, _, s). length (sv_answers s))") (auto dest!: ask_shrinks quiet)

declare SendListTCP.simps [simp del]

definition DropUDP :: "bool \<Rightarrow> nat \<Rightarrow> write_buffer \<Rightarrow> write_buffer list \<Rightarrow> outcome act" where
  "DropUDP high i w ws = next_do (add_size i (- uint (wb_sz w))) (next_do (set_wlist high i ws) (ret Ignored))"

text \<open>The address behind a node was never written: the nodes of the lists are no \<open>WriteBufferUDP\<close>.\<close>

function SendListUDP :: "bool \<Rightarrow> nat \<Rightarrow> outcome act" where
  "SendListUDP high i s =
     seq (sock i) (\<lambda>k s.
       case wlist high k of
         [] \<Rightarrow> ret Ignored s
       | w # ws \<Rightarrow>
           seq (seq (look (pf_memory \<circ> sv_platform)) (\<lambda>r. lift_res (bindR r (UDPSocketAddress k)))) (\<lambda>r s.
             case r of
               None \<Rightarrow> DropUDP high i w ws s
             | Some sa \<Rightarrow>
                 seq (ask (OsSendto (sk_fd k) (wb_ptr w) (wb_sz w) sa)) (\<lambda>a s.
                   if an_ret a < 0 then
                     if an_errno a = EINTR \<or> an_errno a = EAGAIN then ret Ignored s else DropUDP high i w ws s
                   else
                     seq (StatWrite i (uint (wb_sz w))) (\<lambda>_.
                     seq (add_size i (- uint (wb_sz w))) (\<lambda>_.
                     seq (set_wlist high i ws) (\<lambda>_. SendListUDP high i))) s) s) s) s"
  by pat_completeness auto
termination
  by (relation "measure (\<lambda>(_, _, s). length (sv_answers s))") (auto dest!: ask_shrinks quiet)

declare SendListUDP.simps [simp del]

definition SendList :: "bool \<Rightarrow> nat \<Rightarrow> outcome act" where
  "SendList high i =
     seq (sock i) (\<lambda>k. if sk_protocol k = TCP then SendListTCP high i else SendListUDP high i)"

text \<open>The buffer is a \<open>std::string\<close>, the pointer was made from the address of that object.\<close>

definition ListUncomplete :: "write_buffer list \<Rightarrow> bool act" where
  "ListUncomplete ws =
     (case ws of
        [] \<Rightarrow> ret False
      | w # _ \<Rightarrow>
          if wb_buffer w = 0 then raise NullDereference
          else look (\<lambda>s. wb_ptr w \<noteq> pf_c_str (sv_platform s) (wb_buffer w)))"

definition RaiseUncomplete :: "nat \<Rightarrow> unit act" where
  "RaiseUncomplete i =
     seq (sock i) (\<lambda>k.
       case sk_low k of
         [] \<Rightarrow> raise NullDereference
       | w # ws \<Rightarrow>
           next_do (set_wlist False i ws)
             (next_do (check (sk_high k = [])) (set_wlist True i [w])))"

section \<open>Sending the lists\<close>

definition lists_empty :: "nat \<Rightarrow> outcome act" where
  "lists_empty i =
     seq (sock i) (\<lambda>k.
     next_do (check (SendBufferEmpty k \<and> sk_wb_size k = 0))
       (if sk_closing k then next_do (ForceClose i) (ret Ignored)
        else
          seq (EnableWrite i False) (\<lambda>failed.
            if failed then ReportError i ''disable write failed''
            else if sk_warn_size k > 0 then
              next_do (upd i (\<lambda>k. k\<lparr>sk_warn_size := 0\<rparr>))
                (next_do (msg (\<lambda>m. m\<lparr>pm_opaque := sk_opaque k, pm_id := sk_id k, pm_ud := 0\<rparr>))
                  (next_do msg_null (ret kSocketWarning)))
            else ret Ignored)))"

definition SendBuffer_step :: "nat \<Rightarrow> outcome act" where
  "SendBuffer_step i =
     seq (sock i) (\<lambda>k.
     seq (ListUncomplete (sk_low k)) (\<lambda>uncomplete.
     next_do (check (\<not> uncomplete))
     (seq (SendList True i) (\<lambda>r.
        if r \<noteq> Ignored then ret (if r = kSocketErr then kSocketErr else Ignored)
        else
          seq (sock i) (\<lambda>k.
            if sk_high k \<noteq> [] then ret Ignored
            else if sk_low k = [] then lists_empty i
            else
              seq (SendList False i) (\<lambda>r.
                if r \<noteq> Ignored then ret (if r = kSocketErr then kSocketErr else Ignored)
                else
                  seq (sock i) (\<lambda>k.
                  seq (ListUncomplete (sk_low k)) (\<lambda>uncomplete.
                    if uncomplete then next_do (RaiseUncomplete i) (ret Ignored)
                    else if sk_low k \<noteq> [] then ret Ignored
                    else lists_empty i))))))))"

text \<open>What \<open>Send\<close> has written directly, but not completely, is sent before everything else.\<close>

definition take_direct :: "nat \<Rightarrow> unit act" where
  "take_direct i =
     seq (sock i) (\<lambda>k.
       only_if (sk_dw_buffer k \<noteq> 0)
         (let w = \<lparr>wb_buffer = sk_dw_buffer k, wb_ptr = (sk_dw_buffer k, sk_dw_offset k),
                   wb_sz = sk_dw_size k - word_of_int (sk_dw_offset k)\<rparr> in
          next_do (add_size i (uint (wb_sz w)))
            (upd i (\<lambda>k. k\<lparr>sk_high := w # sk_high k, sk_dw_buffer := 0\<rparr>))))"

definition SendBuffer :: "nat \<Rightarrow> outcome act" where
  "SendBuffer i =
     seq SocketTrylock (\<lambda>ok.
       if \<not> ok then ret Ignored
       else
         next_do (take_direct i)
           (seq (SendBuffer_step i) (\<lambda>r. next_do SocketUnlock (ret r))))"

section \<open>Requests to send\<close>

text \<open>The node is written through a pointer that nothing was assigned to.\<close>

definition AppendSendbuffer_node :: "bool \<Rightarrow> nat \<Rightarrow> u64 \<Rightarrow> nat \<Rightarrow> unit act" where
  "AppendSendbuffer_node high i sz b =
     next_do unset_pointer
       (seq (sock i) (\<lambda>k.
          set_wlist high i (wlist high k @ [\<lparr>wb_buffer = b, wb_ptr = (b, 0), wb_sz = sz\<rparr>])))"

definition AppendSendbufferUdp :: "bool \<Rightarrow> nat \<Rightarrow> u64 \<Rightarrow> nat \<Rightarrow> unit act" where
  "AppendSendbufferUdp high i sz b = next_do (AppendSendbuffer_node high i sz b) (add_size i (uint sz))"

definition AppendSendbuffer :: "nat \<Rightarrow> u64 \<Rightarrow> nat \<Rightarrow> unit act" where
  "AppendSendbuffer i sz b = next_do (AppendSendbuffer_node True i sz b) (add_size i (uint sz))"

definition AppendSendbufferLow :: "nat \<Rightarrow> u64 \<Rightarrow> nat \<Rightarrow> unit act" where
  "AppendSendbufferLow i sz b = next_do (AppendSendbuffer_node False i sz b) (add_size i (uint sz))"

definition TriggerWrite :: "int \<Rightarrow> outcome act" where
  "TriggerWrite n =
     seq (SocketInvalid n) (\<lambda>invalid.
       if invalid then ret Ignored
       else seq (EnableWrite (HASH_ID n) True) (\<lambda>failed.
         if failed then ReportError (HASH_ID n) ''enable write failed'' else ret Ignored))"

definition warn_socket :: "nat \<Rightarrow> outcome act" where
  "warn_socket i =
     seq (sock i) (\<lambda>k.
       if sk_wb_size k \<ge> WARNING_SIZE \<and> sk_wb_size k \<ge> sk_warn_size k then
         next_do (upd i (\<lambda>k. k\<lparr>sk_warn_size := (if sk_warn_size k = 0 then WARNING_SIZE * 2 else sk_warn_size k * 2)\<rparr>))
           (next_do (msg (\<lambda>m. m\<lparr>pm_opaque := sk_opaque k, pm_id := sk_id k,
               pm_ud := (if sk_wb_size k mod 1024 = 0 then sk_wb_size k div 1024 else sk_wb_size k div 1024 + 1)\<rparr>))
             (next_do msg_null (ret kSocketWarning)))
       else ret Ignored)"

text \<open>The first buffer of an idle socket: \<open>Some\<close> outcome when the function returns at once.\<close>

definition send_idle :: "nat \<Rightarrow> u64 \<Rightarrow> nat \<Rightarrow> bool \<Rightarrow> u8 list option \<Rightarrow> outcome option act" where
  "send_idle i sz b high address =
     seq (sock i) (\<lambda>k.
     seq (if sk_protocol k = TCP then next_do (AppendSendbuffer i sz b) (ret False)
          else
            seq (case address of Some a \<Rightarrow> ret a | None \<Rightarrow> get_address i) (\<lambda>a.
            seq (lift_res (UDPSocketAddress k a)) (\<lambda>sa.
              case sa of
                None \<Rightarrow>
                  next_do (log_error (''socket-server: udp socket ('' @ to_string (sk_id k) @ '') type mismatch.''))
                    (next_do (tell (Delete b)) (ret True))
              | Some sa \<Rightarrow>
                  seq (ask (OsSendto (sk_fd k) (b, 0) sz sa)) (\<lambda>r.
                    if word_of_int (an_ret r) \<noteq> sz then next_do (AppendSendbufferUdp high i sz b) (ret False)
                    else next_do (StatWrite i (an_ret r)) (next_do (tell (Delete b)) (ret True)))))) (\<lambda>finished.
       if finished then ret (Some Ignored)
       else
         seq (EnableWrite i True) (\<lambda>failed.
           if failed then seq (ReportError i ''enable write failed'') (\<lambda>r. ret (Some r)) else ret None)))"

definition send_busy :: "nat \<Rightarrow> u64 \<Rightarrow> nat \<Rightarrow> bool \<Rightarrow> u8 list option \<Rightarrow> unit act" where
  "send_busy i sz b high address =
     seq (sock i) (\<lambda>k.
       if sk_protocol k = TCP then
         (if high then AppendSendbuffer i sz b else AppendSendbufferLow i sz b)
       else
         seq (case address of Some a \<Rightarrow> ret a | None \<Rightarrow> get_address i) (\<lambda>_. AppendSendbufferUdp high i sz b))"

definition SendSocket :: "int \<Rightarrow> u64 \<Rightarrow> nat \<Rightarrow> bool \<Rightarrow> u8 list option \<Rightarrow> outcome act" where
  "SendSocket n sz b high address =
     (let i = HASH_ID n in
      seq (sock i) (\<lambda>k.
        if sk_type k = kSocketTypeInvalid \<or> sk_id k \<noteq> n \<or> sk_type k = kSocketTypeHalfCloseWrite \<or>
           sk_type k = kSocketTypeIPaccept \<or> sk_closing k
        then next_do (tell (Delete b)) (ret Ignored)
        else if sk_type k = kSocketTypePlisten \<or> sk_type k = kSocketTypeListen
        then
          next_do (log_error (''socket-server: write to listen fd '' @ to_string n)) (next_do (tell (Delete b)) (ret Ignored))
        else if SendBufferEmpty k then
          seq (send_idle i sz b high address) (\<lambda>r. case r of Some r \<Rightarrow> ret r | None \<Rightarrow> warn_socket i)
        else next_do (send_busy i sz b high address) (warn_socket i)))"

section \<open>Counting sends\<close>

text \<open>A full counter is waited for, and nobody else runs in the meantime.\<close>

definition IncSendingRef :: "nat \<Rightarrow> int \<Rightarrow> unit act" where
  "IncSendingRef i n =
     seq (sock i) (\<lambda>k.
       if sk_protocol k = TCP \<and> drop_bit 16 (sk_sending k) = word_of_int (ID_TAG16 n) then
         if sk_sending k AND 0xffff = 0xffff then raise Deadlock
         else upd i (\<lambda>k. k\<lparr>sk_sending := sk_sending k + 1\<rparr>)
       else ret ())"

definition DecSendingRef :: "int \<Rightarrow> unit act" where
  "DecSendingRef n =
     (let i = HASH_ID n in
      seq (sock i) (\<lambda>k.
        only_if (sk_id k = n \<and> sk_protocol k = TCP)
          (next_do (check (sk_sending k AND 0xffff \<noteq> 0)) (upd i (\<lambda>k. k\<lparr>sk_sending := sk_sending k - 1\<rparr>)))))"

end
