(* ===== verification/SocketPoll.thy ===== *)
theory SocketPoll
  imports SocketSend
begin

text \<open>
  \<open>skynet-src/socket_server.cpp\<close>, the socket thread: requests from the pipe, incoming data and
  connections, and the loop of \<open>SocketServer::Poll\<close>.
\<close>

section \<open>Requests\<close>

text \<open>
  The answer that \<open>read\<close> succeeded with, or \<open>None\<close> when it failed and the buffer keeps what it had.
  The answer to the read of a header holds the request that follows.
\<close>

function BlockReadpipe :: "int \<Rightarrow> int \<Rightarrow> answer option act" where
  "BlockReadpipe fd sz s =
     seq (ask (OsReadPipe fd)) (\<lambda>a s.
       if an_ret a < 0 then
         if an_errno a = EINTR then BlockReadpipe fd sz s
         else next_do (log_errno ''socket-server : read pipe error '' (an_errno a)) (ret None) s
       else next_do (check (an_ret a = sz)) (ret (Some a)) s) s"
  by pat_completeness auto
termination
  by (relation "measure (\<lambda>(_, _, s). length (sv_answers s))") (auto dest!: ask_shrinks)

declare BlockReadpipe.simps [simp del]

text \<open>\<open>sizeof\<close> of the structures, with the length of what is appended to them.\<close>

fun request_len :: "request \<Rightarrow> int" where
  "request_len (ReqResume _ _) = 16"
| "request_len (ReqPause _ _) = 16"
| "request_len (ReqBind _ _ _) = 16"
| "request_len (ReqListen _ _ _) = 24"
| "request_len (ReqClose _ _ _) = 16"
| "request_len (ReqOpen _ _ _ host) = 24 + int (length host)"
| "request_len ReqExit = 0"
| "request_len (ReqTrigger _) = 24"
| "request_len (ReqSend _ _ _ _) = 24"
| "request_len (ReqSendUdp _ _ _ a) = 24 + int (length a)"
| "request_len (ReqSetUdp _ a) = 5 + int (length a)"
| "request_len (ReqSetOpt _ _ _) = 12"
| "request_len (ReqUdp _ _ _ _) = 24"
| "request_len (ReqUnknown _ len) = len"

text \<open>The bytes of an address that the request does not carry are what is in the memory behind it.\<close>

definition fill_address :: "u8 list \<Rightarrow> u8 list act" where
  "fill_address a =
     (if length a = kUdpAddressSize then ret a
      else seq (look (pf_memory \<circ> sv_platform)) (\<lambda>r.
             seq (lift_res r) (\<lambda>rest. ret (take kUdpAddressSize (a @ rest)))))"

fun ctrl_case :: "request \<Rightarrow> outcome act" where
  "ctrl_case (ReqResume n opaque) = ResumeSocket n opaque"
| "ctrl_case (ReqPause n opaque) = PauseSocket n"
| "ctrl_case (ReqBind n fd opaque) = BindSocket n fd opaque"
| "ctrl_case (ReqListen n fd opaque) = ListenSocket n fd opaque"
| "ctrl_case (ReqClose n shutdown opaque) = CloseSocket n shutdown"
| "ctrl_case (ReqOpen n port opaque host) = OpenSocket n port opaque host"
| "ctrl_case ReqExit =
     next_do (msg (\<lambda>m. m\<lparr>pm_opaque := 0, pm_id := 0, pm_ud := 0\<rparr>)) (next_do msg_null (ret kSocketExit))"
| "ctrl_case (ReqTrigger n) = TriggerWrite n"
| "ctrl_case (ReqSend high n sz b) =
     seq (SendSocket n sz b high None) (\<lambda>r. next_do (DecSendingRef n) (ret r))"
| "ctrl_case (ReqSendUdp n sz b a) = seq (fill_address a) (\<lambda>a. SendSocket n sz b True (Some a))"
| "ctrl_case (ReqSetUdp n a) = seq (fill_address a) (SetUDPAddress n)"
| "ctrl_case (ReqSetOpt n what v) = next_do (SetOptSocket n what v) (ret Ignored)"
| "ctrl_case (ReqUdp n fd v6 opaque) = next_do (AddUDPSocket n fd v6 opaque) (ret Ignored)"
| "ctrl_case (ReqUnknown type len) =
     next_do (log_error (''socket-server: Unknown ctrl '' @ to_string type)) (ret Ignored)"

definition CtrlCmd :: "outcome act" where
  "CtrlCmd =
     seq (look sv_recvctrl_fd) (\<lambda>fd.
     seq (BlockReadpipe fd 2) (\<lambda>header.
       case header of
         None \<Rightarrow> raise UninitialisedRead
       | Some a \<Rightarrow>
           seq (BlockReadpipe fd (request_len (an_request a))) (\<lambda>body.
             case body of None \<Rightarrow> raise UninitialisedRead | Some _ \<Rightarrow> ctrl_case (an_request a))))"

definition HasCmd :: "bool act" where
  "HasCmd = seq (look sv_recvctrl_fd) (\<lambda>fd. seq (ask (OsSelect fd)) (\<lambda>a. ret (an_ret a = 1)))"

section \<open>Incoming data\<close>

text \<open>\<open>socket_message.data = p\<close> for a \<open>char *\<close> to these bytes.\<close>

definition msg_bytes :: "u8 list \<Rightarrow> unit act" where
  "msg_bytes bytes = seq (lift_res (std_string bytes)) (\<lambda>bs. msg_data (string_of bs))"

definition tcp_closed :: "nat \<Rightarrow> outcome act" where
  "tcp_closed i =
     next_do unset_pointer
       (seq (sock i) (\<lambda>k.
          if sk_closing k then
            seq (NomoreSendingData i) (\<lambda>nomore. next_do (only_if nomore (ForceClose i)) (ret Ignored))
          else if sk_type k = kSocketTypeHalfCloseRead then ret Ignored
          else
            next_do (if sk_type k = kSocketTypeHalfCloseWrite then ForceClose i else CloseRead i)
              (ret kSocketClose)))"

definition tcp_data :: "nat \<Rightarrow> int \<Rightarrow> int \<Rightarrow> u8 list \<Rightarrow> outcome act" where
  "tcp_data i sz n bytes =
     next_do (StatRead i n)
       (seq (sock i) (\<lambda>k.
        next_do (msg (\<lambda>m. m\<lparr>pm_opaque := sk_opaque k, pm_id := sk_id k, pm_ud := n\<rparr>))
        (next_do (msg_bytes bytes)
          (if n = sz then
             if sz * 2 \<ge> 2 ^ 31 then raise SignedOverflow
             else next_do (upd i (\<lambda>k. k\<lparr>sk_p := ReadSize (sz * 2)\<rparr>)) (ret kSocketMore)
           else
             next_do (only_if (sz > MIN_READ_BUFFER \<and> n * 2 < sz) (upd i (\<lambda>k. k\<lparr>sk_p := ReadSize (sz div 2)\<rparr>)))
               (ret kSocketData)))))"

text \<open>The buffer is a pointer that nothing was assigned to.\<close>

definition ForwardMessageTCP :: "nat \<Rightarrow> outcome act" where
  "ForwardMessageTCP i =
     seq (get_size i) (\<lambda>sz.
     next_do unset_pointer
     (seq (sock i) (\<lambda>k.
      seq (ask (OsRead (sk_fd k) sz)) (\<lambda>a.
      let n = an_ret a in
        if n < 0 then
          if an_errno a = EINTR \<or> an_errno a = EAGAIN then ret Ignored
          else seq (strerror (an_errno a)) (ReportError i)
        else if n = 0 then tcp_closed i
        else
          seq (HalfcloseRead i) (\<lambda>halfclose.
            if halfclose then ret Ignored else tcp_data i sz n (an_bytes a))))))"

definition ForwardMessageUDP :: "nat \<Rightarrow> outcome act" where
  "ForwardMessageUDP i =
     seq (sock i) (\<lambda>k.
     seq (ask (OsRecvfrom (sk_fd k))) (\<lambda>a.
     let n = an_ret a in
       if n < 0 then
         if an_errno a = EINTR \<or> an_errno a = EAGAIN then ret Ignored
         else next_do (ForceClose i) (next_do (seq (strerror (an_errno a)) msg_data) (ret kSocketErr))
       else
         next_do (StatRead i n)
           (let p = (case an_addr a of V4 _ _ \<Rightarrow> UDP | V6 _ _ \<Rightarrow> UDPv6) in
            if sk_protocol k \<noteq> p then ret Ignored
            else
              next_do unset_pointer
                (seq (lift_res (GenUDPAddress p (an_addr a))) (\<lambda>address.
                 next_do (msg (\<lambda>m. m\<lparr>pm_opaque := sk_opaque k, pm_id := sk_id k, pm_ud := n\<rparr>))
                   (next_do (msg_bytes (an_bytes a @ address)) (ret kSocketUDP)))))))"

section \<open>Connections\<close>

definition report_connected :: "nat \<Rightarrow> outcome act" where
  "report_connected i =
     next_do (set_type i kSocketTypeConnected)
       (seq (sock i) (\<lambda>k.
        next_do (msg (\<lambda>m. m\<lparr>pm_opaque := sk_opaque k, pm_id := sk_id k, pm_ud := 0\<rparr>))
          (seq (NomoreSendingData i) (\<lambda>nomore.
           seq (if nomore then EnableWrite i False else ret False) (\<lambda>failed.
             if failed then
               next_do (ForceClose i) (next_do (msg_data ''disable write failed'') (ret kSocketErr))
             else
               seq (ask (OsGetpeername (sk_fd k))) (\<lambda>a.
                 case (an_ret a = 0, an_name a) of
                   (True, Some text) \<Rightarrow> next_do (msg_data text) (ret kSocketOpen)
                 | _ \<Rightarrow> next_do msg_null (ret kSocketOpen)))))))"

definition ReportConnect :: "nat \<Rightarrow> outcome act" where
  "ReportConnect i =
     seq (sock i) (\<lambda>k.
     seq (ask (OsGetError (sk_fd k))) (\<lambda>a.
       if an_ret a < 0 \<or> an_value a \<noteq> 0 then
         next_do (ForceClose i)
           (next_do (seq (strerror (if an_ret a < 0 then an_errno a else an_value a)) msg_data) (ret kSocketErr))
       else report_connected i))"

definition accept_limit :: "nat \<Rightarrow> int \<Rightarrow> int act" where
  "accept_limit i e =
     seq (sock i) (\<lambda>k.
     next_do (msg (\<lambda>m. m\<lparr>pm_opaque := sk_opaque k, pm_id := sk_id k, pm_ud := 0\<rparr>))
     (next_do (seq (strerror e) msg_data)
     (seq (look sv_reserve_fd) (\<lambda>reserve.
       if reserve \<ge> 0 then
         next_do (tell (OsClose reserve))
           (seq (ask (OsAccept (sk_fd k))) (\<lambda>a.
            next_do (only_if (an_ret a \<ge> 0) (tell (OsClose (an_ret a))))
              (seq (ask (OsDup 1)) (\<lambda>d.
               next_do (change (\<lambda>s. s\<lparr>sv_reserve_fd := an_ret d\<rparr>)) (ret (- 1))))))
       else ret (- 1)))))"

text \<open>
  \<open>GetName\<close>: \<open>an_name\<close> is what \<open>inet_ntop\<close> answers for the address that was stored, \<open>an_value\<close> the port;
  \<open>snprintf\<close> writes at most \<open>MAX_INFO - 1\<close> characters. \<open>None\<close> is the result 0.
\<close>

definition MAX_INFO :: nat where "MAX_INFO = 128"

definition GetName :: "answer \<Rightarrow> string option" where
  "GetName a =
     (case an_name a of
        None \<Rightarrow> None
      | Some tmp \<Rightarrow> Some (take (MAX_INFO - 1) (tmp @ '':'' @ to_string (an_value a))))"

definition accepted :: "nat \<Rightarrow> int \<Rightarrow> int \<Rightarrow> string option \<Rightarrow> int act" where
  "accepted i n client_fd name =
     next_do (SocketKeepalive client_fd)
     (next_do (EpollNonblocking client_fd)
     (seq (sock i) (\<lambda>k.
      seq (NewFd n client_fd TCP (sk_opaque k) False) (\<lambda>made.
        if \<not> made then next_do (tell (OsClose client_fd)) (ret 0)
        else
          next_do (StatRead i 1)
          (next_do (set_type (HASH_ID n) kSocketTypeIPaccept)
          (next_do (msg (\<lambda>m. m\<lparr>pm_opaque := sk_opaque k, pm_id := sk_id k, pm_ud := n\<rparr>))
          (next_do msg_null
          (next_do (case name of None \<Rightarrow> ret () | Some text \<Rightarrow> msg_data text) (ret 1)))))))))"

definition ReportAccept :: "nat \<Rightarrow> int act" where
  "ReportAccept i =
     seq (sock i) (\<lambda>k.
     seq (ask (OsAccept (sk_fd k))) (\<lambda>a.
       if an_ret a < 0 then
         if an_errno a = EMFILE \<or> an_errno a = ENFILE then accept_limit i (an_errno a) else ret 0
       else
         seq ReserveId (\<lambda>n.
           if n < 0 then next_do (tell (OsClose (an_ret a))) (ret 0)
           else accepted i n (an_ret a) (GetName a))))"

section \<open>Events\<close>

text \<open>The first event from index \<open>i\<close> on of a socket with this id that is invalid loses its socket.\<close>

fun clear_event :: "(nat \<Rightarrow> socket) \<Rightarrow> int \<Rightarrow> epoll_event list \<Rightarrow> epoll_event list" where
  "clear_event slot n [] = []"
| "clear_event slot n (e # es) =
     (case ev_s e of
        Some j \<Rightarrow>
          if sk_id (slot j) = n \<and> sk_type (slot j) = kSocketTypeInvalid then e\<lparr>ev_s := None\<rparr> # es
          else e # clear_event slot n es
      | None \<Rightarrow> e # clear_event slot n es)"

definition ClearClosedEvent :: "outcome \<Rightarrow> unit act" where
  "ClearClosedEvent type =
     only_if (type = kSocketClose \<or> type = kSocketErr)
       (change (\<lambda>s.
          let i = nat (sv_event_index s); m = nat (sv_event_n s) in
          s\<lparr>sv_ev := take i (sv_ev s) @ clear_event (sv_slot s) (pm_id (sv_msg s)) (drop i (take m (sv_ev s)))
              @ drop m (sv_ev s)\<rparr>))"

datatype step = Return outcome | Continue | Through

definition poll_ctrl :: "step act" where
  "poll_ctrl =
     seq (look sv_checkctrl) (\<lambda>checkctrl.
       if checkctrl then
         seq HasCmd (\<lambda>cmd.
           if cmd then
             seq CtrlCmd (\<lambda>type.
               if type \<noteq> Ignored then next_do (ClearClosedEvent type) (ret (Return type)) else ret Continue)
           else next_do (change (\<lambda>s. s\<lparr>sv_checkctrl := False\<rparr>)) (ret Through))
       else ret Through)"

definition poll_wait :: "int \<Rightarrow> (step \<times> int) act" where
  "poll_wait pending =
     seq (look (\<lambda>s. (sv_event_index s, sv_event_n s, sv_event_fd s))) (\<lambda>(i, n, efd).
       if i = n then
         seq (ask (OsEpollWait efd)) (\<lambda>a.
         next_do (change (\<lambda>s. s\<lparr>sv_event_n := (if an_ret a \<le> 0 then 0 else an_ret a), sv_ev := map event_of (an_events a),
             sv_checkctrl := True, sv_event_index := 0\<rparr>))
           (next_do (only_if (an_ret a \<le> 0) (log_errno ''socket-server: '' (an_errno a)))
             (ret (if an_ret a \<le> 0 then Continue else Through, 0))))
       else ret (Through, pending))"

text \<open>The readable event of a socket; the write flag is kept for another round.\<close>

definition step_back :: "unit act" where
  "step_back = change (\<lambda>s. s\<lparr>sv_event_index := sv_event_index s - 1\<rparr>)"

definition poll_read :: "nat \<Rightarrow> nat \<Rightarrow> epoll_event \<Rightarrow> step act" where
  "poll_read at j e =
     seq (sock j) (\<lambda>k.
     seq (if sk_protocol k = TCP then ForwardMessageTCP j else ForwardMessageUDP j) (\<lambda>type.
       if sk_protocol k = TCP \<and> type = kSocketMore then next_do step_back (ret (Return kSocketData))
       else if sk_protocol k \<noteq> TCP \<and> type = kSocketUDP then next_do step_back (ret (Return kSocketUDP))
       else
         next_do (only_if (ev_write e \<and> type \<noteq> kSocketClose \<and> type \<noteq> kSocketErr)
             (next_do (change (\<lambda>s. s\<lparr>sv_ev := (sv_ev s)[at := e\<lparr>ev_read := False\<rparr>]\<rparr>)) step_back))
           (ret (if type = Ignored then Continue else Return type))))"

definition poll_error :: "nat \<Rightarrow> step act" where
  "poll_error j =
     seq (sock j) (\<lambda>k.
     seq (ask (OsGetError (sk_fd k))) (\<lambda>a.
     seq (if an_ret a < 0 then strerror (an_errno a)
          else if an_value a \<noteq> 0 then strerror (an_value a) else ret ''Unknown error'') (\<lambda>err.
     seq (ReportError j err) (\<lambda>r. ret (Return r)))))"

definition poll_eof :: "nat \<Rightarrow> step act" where
  "poll_eof j =
     seq (HalfcloseRead j) (\<lambda>halfclose.
     next_do (ForceClose j) (ret (if halfclose then Continue else Return kSocketClose)))"

definition poll_socket :: "nat \<Rightarrow> nat \<Rightarrow> epoll_event \<Rightarrow> step act" where
  "poll_socket at j e =
     next_do (SocketLockInit j)
       (seq (sock j) (\<lambda>k.
          case sk_type k of
            kSocketTypeConnecting \<Rightarrow> seq (ReportConnect j) (\<lambda>r. ret (Return r))
          | kSocketTypeListen \<Rightarrow>
              seq (ReportAccept j) (\<lambda>ok.
                ret (if ok > 0 then Return kSocketAccept else if ok < 0 then Return kSocketErr else Continue))
          | kSocketTypeInvalid \<Rightarrow> next_do (log_error ''socket-server: invalid socket'') (ret Continue)
          | _ \<Rightarrow>
              if ev_read e then poll_read at j e
              else if ev_write e then
                seq (SendBuffer j) (\<lambda>r. ret (if r = Ignored then Continue else Return r))
              else if ev_error e then poll_error j
              else if ev_eof e then poll_eof j
              else ret Continue))"

definition poll_event :: "step act" where
  "poll_event =
     seq (look (\<lambda>s. (sv_event_index s, sv_ev s))) (\<lambda>(i, evs).
     seq (lift_res (nthR evs i)) (\<lambda>e.
     next_do (change (\<lambda>s. s\<lparr>sv_event_index := i + 1\<rparr>))
       (case ev_s e of None \<Rightarrow> ret Continue | Some j \<Rightarrow> poll_socket (nat i) j e)))"

definition poll_round :: "int \<Rightarrow> (step \<times> int) act" where
  "poll_round pending =
     seq poll_ctrl (\<lambda>c.
       case c of
         Through \<Rightarrow>
           seq (poll_wait pending) (\<lambda>(w, pending).
             if w = Through then seq poll_event (\<lambda>r. ret (r, pending)) else ret (w, pending))
       | _ \<Rightarrow> ret (c, pending))"

partial_function (option) Poll :: "int \<Rightarrow> server \<Rightarrow> ((outcome \<times> int) \<times> server) res option" where
  "Poll pending s =
     (case poll_round pending s of
        Inl e \<Rightarrow> Some (Inl e)
      | Inr r \<Rightarrow>
          (case r of (c, s') \<Rightarrow>
             (case fst c of
                Return type \<Rightarrow> Some (Inr ((type, snd c), s'))
              | _ \<Rightarrow> Poll (snd c) s')))"

end
