(* ===== verification/SocketApi.thy ===== *)
theory SocketApi
  imports SocketPoll
begin

text \<open>
  \<open>skynet-src/socket_server.cpp\<close>, the side of the other threads: the requests they write into the
  pipe, sending directly, and the server's beginning and end.
\<close>

section \<open>Requests\<close>

text \<open>
  The request is written from \<open>&request_package + 6\<close>, which counts in whole packages: what is written
  is not the request but what lies behind the package. A \<open>write\<close> that fails is tried again for ever.
\<close>

lemma log_errno_quiet: "log_errno text e s = Inr (u, t) \<Longrightarrow> sv_answers t = sv_answers s"
  by (auto simp: log_errno_def log_error_def strerror_def look_def tell_def change_def ret_def seq_Inr_iff split: if_splits)

function write_request :: "int \<Rightarrow> request \<Rightarrow> int \<Rightarrow> unit act" where
  "write_request fd r len s =
     seq (ask (OsWritePipe fd r)) (\<lambda>a s.
       if an_ret a < 0 then
         seq (log_errno ''socket-server : send ctrl command error '' (an_errno a)) (\<lambda>_. write_request fd r len) s
       else check (an_ret a = len + 2) s) s"
  by pat_completeness auto
termination
  by (relation "measure (\<lambda>(_, _, _, s). length (sv_answers s))") (auto dest!: ask_shrinks log_errno_quiet)

declare write_request.simps [simp del]

definition SendRequest :: "request \<Rightarrow> unit act" where
  "SendRequest r =
     seq (look (\<lambda>s. (sv_sendctrl_fd s, pf_request (sv_platform s) r))) (\<lambda>(fd, bytes).
     seq (lift_res bytes) (\<lambda>r'. write_request fd r' (request_len r)))"

definition OpenRequest :: "string \<Rightarrow> int act" where
  "OpenRequest addr =
     (if int (length addr) + 24 \<ge> 256
      then next_do (log_error (''socket-server : Invalid addr '' @ addr)) (ret (- 1)) else ReserveId)"

definition CanDirectWrite :: "int \<Rightarrow> bool act" where
  "CanDirectWrite n =
     seq (sock (HASH_ID n)) (\<lambda>k.
     seq (NomoreSendingData (HASH_ID n)) (\<lambda>nomore.
       ret (sk_id k = n \<and> nomore \<and> sk_type k = kSocketTypeConnected \<and> sk_udpconnecting k = 0)))"

text \<open>The socket, or -1, and the family of its address.\<close>

definition DoBind :: "string option \<Rightarrow> int \<Rightarrow> (int \<times> int) act" where
  "DoBind host port =
     (let name = (case host of None \<Rightarrow> ''0.0.0.0'' | Some h \<Rightarrow> if h = [] then ''0.0.0.0'' else h) in
      seq (ask (OsGetaddrinfo name port)) (\<lambda>a.
        if an_ret a \<noteq> 0 then ret (- 1, 0)
        else
          seq (lift_res (nthR (an_families a) 0)) (\<lambda>family.
          seq (ask (OsSocket family)) (\<lambda>b.
          let fd = an_ret b in
            if fd < 0 then ret (- 1, family)
            else
              seq (ask (OsReuseaddr fd)) (\<lambda>c.
                if an_ret c = - 1 then next_do (tell (OsClose fd)) (ret (- 1, family))
                else
                  seq (ask (OsBind fd)) (\<lambda>d.
                    if an_ret d \<noteq> 0 then next_do (tell (OsClose fd)) (ret (- 1, family))
                    else ret (fd, family)))))))"

definition DoListen :: "string option \<Rightarrow> int \<Rightarrow> int \<Rightarrow> int act" where
  "DoListen host port backlog =
     seq (DoBind host port) (\<lambda>(fd, _).
       if fd < 0 then ret (- 1)
       else
         seq (ask (OsListen fd backlog)) (\<lambda>a.
           if an_ret a = - 1 then next_do (tell (OsClose fd)) (ret (- 1)) else ret fd))"

section \<open>The server\<close>

text \<open>\<open>mem\<close> is what the memory of the new server holds; the variant in a socket is initialised.\<close>

definition SocketServer_new ::
  "(nat \<Rightarrow> socket) \<Rightarrow> epoll_event list \<Rightarrow> platform \<Rightarrow> u64 \<Rightarrow> int \<Rightarrow> int \<Rightarrow> int \<Rightarrow> answer list \<Rightarrow> oscall list \<Rightarrow> server"
  where
  "SocketServer_new mem events pf time efd fd0 fd1 answers calls =
     \<lparr>sv_slot = (\<lambda>i. (mem i)\<lparr>sk_type := kSocketTypeInvalid, sk_high := ClearWriteBufferList,
                        sk_low := ClearWriteBufferList, sk_dw_lock := False, sk_p := ReadSize 0\<rparr>),
      sv_alloc_id = 0, sv_time = time, sv_reserve_fd = 0, sv_recvctrl_fd = fd0, sv_sendctrl_fd = fd1,
      sv_event_fd = efd, sv_checkctrl = True, sv_event_n = 0, sv_event_index = 0, sv_ev = events,
      sv_lock_slot = 0, sv_lock_count = 0,
      sv_msg = \<lparr>pm_id = 0, pm_opaque = 0, pm_ud = 0, pm_data = []\<rparr>,
      sv_platform = pf, sv_answers = answers, sv_calls = calls\<rparr>"

definition SocketServer_init :: "unit act" where
  "SocketServer_init =
     seq (ask (OsDup 1)) (\<lambda>a.
     next_do (change (\<lambda>s. s\<lparr>sv_reserve_fd := an_ret a\<rparr>))
       (seq (look sv_recvctrl_fd) (\<lambda>fd. check (fd < 1024))))"

text \<open>Creating a server: the result says whether there is one. The pipe's ends are \<open>an_families\<close>.\<close>

definition CreateSocketServer :: "u64 \<Rightarrow> bool act" where
  "CreateSocketServer time =
     seq (ask OsEpollCreate) (\<lambda>a.
     let efd = an_ret a in
       if efd = - 1 then next_do (log_error ''socket-server: create event pool failed.'') (ret False)
       else
         seq (ask OsPipe) (\<lambda>b.
           if an_ret b \<noteq> 0 then next_do (tell (OsClose efd)) (next_do (log_error ''socket-server: create socket pair failed.'') (ret False))
           else
             seq (lift_res (nthR (an_families b) 0)) (\<lambda>fd0.
             seq (lift_res (nthR (an_families b) 1)) (\<lambda>fd1.
             seq (ask (OsEpollAdd efd fd0 None)) (\<lambda>c.
               if an_ret c = - 1 then
                 next_do (log_error (''socket-server: can'' @ [CHR 0x27] @ ''t add server fd to event pool.''))
                 (next_do (tell (OsClose fd0)) (next_do (tell (OsClose fd1)) (next_do (tell (OsClose efd)) (ret False))))
               else
                 next_do (change (\<lambda>s. SocketServer_new (sv_slot s) (sv_ev s) (sv_platform s) time efd fd0 fd1
                     (sv_answers s) (sv_calls s)))
                   (next_do SocketServer_init (ret True)))))))"

definition SocketServer_delete :: "unit act" where
  "SocketServer_delete =
     next_do (steps (map (\<lambda>i.
         next_do (SocketLockInit i)
           (seq (sock i) (\<lambda>k. only_if (sk_type k \<noteq> kSocketTypeReserve) (ForceClose i)))) [0 ..< MAX_SOCKET]))
       (seq (look (\<lambda>s. (sv_sendctrl_fd s, sv_recvctrl_fd s, sv_event_fd s, sv_reserve_fd s))) (\<lambda>(a, b, c, d).
          steps [tell (OsClose a), tell (OsClose b), tell (OsClose c), only_if (d \<ge> 0) (tell (OsClose d))]))"

definition UpdateTime :: "u64 \<Rightarrow> unit act" where
  "UpdateTime time = change (\<lambda>s. s\<lparr>sv_time := time\<rparr>)"

section \<open>Asking for something\<close>

definition Server_Exit :: "unit act" where
  "Server_Exit = SendRequest ReqExit"

definition Server_Connect :: "u64 \<Rightarrow> string \<Rightarrow> int \<Rightarrow> int act" where
  "Server_Connect opaque addr port =
     seq (OpenRequest addr) (\<lambda>n.
       if n < 0 then ret (- 1) else next_do (SendRequest (ReqOpen n port opaque addr)) (ret n))"

definition Server_Close :: "u64 \<Rightarrow> int \<Rightarrow> unit act" where
  "Server_Close opaque n = SendRequest (ReqClose n False opaque)"

definition Server_Shutdown :: "u64 \<Rightarrow> int \<Rightarrow> unit act" where
  "Server_Shutdown opaque n = SendRequest (ReqClose n True opaque)"

definition Server_Listen :: "u64 \<Rightarrow> string option \<Rightarrow> int \<Rightarrow> int \<Rightarrow> int act" where
  "Server_Listen opaque addr port backlog =
     seq (DoListen addr port backlog) (\<lambda>fd.
       if fd < 0 then ret (- 1)
       else
         seq ReserveId (\<lambda>n.
           if n < 0 then next_do (tell (OsClose fd)) (ret n)
           else next_do (SendRequest (ReqListen n fd opaque)) (ret n)))"

definition Server_Bind :: "u64 \<Rightarrow> int \<Rightarrow> int act" where
  "Server_Bind opaque fd =
     seq ReserveId (\<lambda>n.
       if n < 0 then ret (- 1) else next_do (SendRequest (ReqBind n fd opaque)) (ret n))"

definition Server_Start :: "u64 \<Rightarrow> int \<Rightarrow> unit act" where
  "Server_Start opaque n = SendRequest (ReqResume n opaque)"

definition Server_Pause :: "u64 \<Rightarrow> int \<Rightarrow> unit act" where
  "Server_Pause opaque n = SendRequest (ReqPause n opaque)"

definition Server_Nodelay :: "int \<Rightarrow> unit act" where
  "Server_Nodelay n = SendRequest (ReqSetOpt n TCP_NODELAY 1)"

definition Server_UDP :: "u64 \<Rightarrow> string option \<Rightarrow> int \<Rightarrow> int act" where
  "Server_UDP opaque addr port =
     seq (if port \<noteq> 0 \<or> addr \<noteq> None then DoBind addr port
          else seq (ask (OsSocket AF_INET)) (\<lambda>a. ret (an_ret a, AF_INET))) (\<lambda>(fd, family).
       if fd < 0 then ret (- 1)
       else
         next_do (EpollNonblocking fd)
           (seq ReserveId (\<lambda>n.
              if n < 0 then next_do (tell (OsClose fd)) (ret (- 1))
              else next_do (SendRequest (ReqUdp n fd (family = AF_INET6) opaque)) (ret n))))"

section \<open>Sending\<close>

text \<open>\<open>struct SendObject\<close>: the pointer is the address of the \<open>std::string\<close>, not of its characters.\<close>

definition SendObjectInitFromSendbuffer :: "sendbuffer \<Rightarrow> nat \<times> u64" where
  "SendObjectInitFromSendbuffer b =
     (case sb_type b of
        BufferMemory \<Rightarrow> (sb_buffer b, sb_sz b)
      | BufferObject \<Rightarrow> (sb_buffer b, sb_sz b)
      | BufferRawpointer \<Rightarrow> (sb_buffer b, sb_sz b))"

text \<open>The number of bytes that went out, or nothing when a datagram socket has no address.\<close>

definition direct_write :: "nat \<Rightarrow> sendbuffer \<Rightarrow> int option act" where
  "direct_write i b =
     (let (p, sz) = SendObjectInitFromSendbuffer b in
      seq (sock i) (\<lambda>k.
        if sk_protocol k = TCP then
          seq (ask (OsWrite (sk_fd k) (p, 0) sz)) (\<lambda>a. ret (Some (an_ret a)))
        else
          seq (get_address i) (\<lambda>address.
          seq (lift_res (UDPSocketAddress k address)) (\<lambda>sa.
            case sa of
              None \<Rightarrow> ret None
            | Some sa \<Rightarrow> seq (ask (OsSendto (sk_fd k) (p, 0) sz sa)) (\<lambda>a. ret (Some (an_ret a)))))))"

definition send_direct :: "int \<Rightarrow> sendbuffer \<Rightarrow> int act" where
  "send_direct n b =
     (let i = HASH_ID n; (_, sz) = SendObjectInitFromSendbuffer b in
      seq (direct_write i b) (\<lambda>r.
        case r of
          None \<Rightarrow>
            next_do (log_error (''socket-server : set udp ('' @ to_string n @ '') address first.''))
              (next_do SocketUnlock (next_do (tell (Delete (sb_buffer b))) (ret (- 1))))
        | Some written \<Rightarrow>
            let m = (if written < 0 then 0 else written) in
            next_do (StatWrite i m)
              (if word_of_int m = sz then next_do SocketUnlock (next_do (tell (Delete (sb_buffer b))) (ret 0))
               else
                 next_do (upd i (\<lambda>k. k\<lparr>sk_dw_buffer := fst (CloneBuffer b), sk_dw_size := snd (CloneBuffer b),
                     sk_dw_offset := m\<rparr>))
                   (next_do SocketUnlock (next_do (SendRequest (ReqTrigger n)) (ret 0))))))"

definition send_queued :: "int \<Rightarrow> bool \<Rightarrow> sendbuffer \<Rightarrow> int act" where
  "send_queued n high b =
     next_do (IncSendingRef (HASH_ID n) n)
       (next_do (SendRequest (ReqSend high n (snd (CloneBuffer b)) (fst (CloneBuffer b)))) (ret 0))"

definition Server_Send :: "sendbuffer \<Rightarrow> int act" where
  "Server_Send b =
     (let n = sb_id b; i = HASH_ID n in
      seq (SocketInvalid n) (\<lambda>invalid.
      seq (sock i) (\<lambda>k.
        if invalid \<or> sk_closing k then next_do (FreeBuffer b) (ret (- 1))
        else
          next_do (SocketLockInit i)
            (seq (CanDirectWrite n) (\<lambda>can.
             seq (if can then SocketTrylock else ret False) (\<lambda>locked.
               if locked then
                 seq (CanDirectWrite n) (\<lambda>can.
                   if can then send_direct n b else next_do SocketUnlock (send_queued n True b))
               else send_queued n True b))))))"

definition Server_SendLowpriority :: "sendbuffer \<Rightarrow> int act" where
  "Server_SendLowpriority b =
     seq (SocketInvalid (sb_id b)) (\<lambda>invalid.
       if invalid then next_do (FreeBuffer b) (ret (- 1)) else send_queued (sb_id b) False b)"

definition udp_queued :: "int \<Rightarrow> sendbuffer \<Rightarrow> u8 list \<Rightarrow> int \<Rightarrow> int act" where
  "udp_queued n b mem len =
     seq (lift_res (memcpy_from mem 0 len)) (\<lambda>address.
     next_do (SendRequest (ReqSendUdp n (snd (CloneBuffer b)) (fst (CloneBuffer b)) address)) (ret 0))"

definition udp_direct :: "int \<Rightarrow> sendbuffer \<Rightarrow> u8 list \<Rightarrow> int \<Rightarrow> int act" where
  "udp_direct n b mem len =
     (let i = HASH_ID n; (p, sz) = SendObjectInitFromSendbuffer b in
      seq (sock i) (\<lambda>k.
      seq (lift_res (UDPSocketAddress k mem)) (\<lambda>sa.
        case sa of
          None \<Rightarrow> next_do SocketUnlock (next_do (tell (Delete (sb_buffer b))) (ret (- 1)))
        | Some sa \<Rightarrow>
            seq (ask (OsSendto (sk_fd k) (p, 0) sz sa)) (\<lambda>a.
              if an_ret a \<ge> 0 then
                next_do (StatWrite i (an_ret a))
                  (next_do SocketUnlock (next_do (tell (Delete (sb_buffer b))) (ret 0)))
              else next_do SocketUnlock (udp_queued n b mem len)))))"

text \<open>The address is a C++ string, which is read as an array of bytes, with the NUL behind it.\<close>

definition UDPSend :: "u8 list \<Rightarrow> sendbuffer \<Rightarrow> int act" where
  "UDPSend addr b =
     (let n = sb_id b; i = HASH_ID n; mem = addr @ [0] in
      seq (SocketInvalid n) (\<lambda>invalid.
        if invalid then next_do (FreeBuffer b) (ret (- 1))
        else
          let len = (if hd mem = 1 then 7 else if hd mem = 2 then 19 else 0) in
          if len = 0 then next_do (FreeBuffer b) (ret (- 1))
          else
            next_do (SocketLockInit i)
              (seq (CanDirectWrite n) (\<lambda>can.
               seq (if can then SocketTrylock else ret False) (\<lambda>locked.
                 if locked then
                   seq (CanDirectWrite n) (\<lambda>can.
                     if can then udp_direct n b mem len else next_do SocketUnlock (udp_queued n b mem len))
                 else udp_queued n b mem len)))))"

definition UDPConnect :: "int \<Rightarrow> string \<Rightarrow> int \<Rightarrow> int act" where
  "UDPConnect n addr port =
     (let i = HASH_ID n in
      seq (SocketInvalid n) (\<lambda>invalid.
        if invalid then ret (- 1)
        else
          next_do (SocketLockInit i)
          (next_do SocketLock
          (seq (SocketInvalid n) (\<lambda>invalid.
             if invalid then next_do SocketUnlock (ret (- 1))
             else
               next_do (upd i (\<lambda>k. k\<lparr>sk_udpconnecting := sk_udpconnecting k + 1\<rparr>))
               (next_do SocketUnlock
               (seq (ask (OsGetaddrinfo addr port)) (\<lambda>a.
                  if an_ret a \<noteq> 0 then ret (- 1)
                  else
                    seq (lift_res (nthR (an_families a) 0)) (\<lambda>family.
                      if family \<noteq> AF_INET \<and> family \<noteq> AF_INET6 then ret (- 1)
                      else
                        seq (lift_res (GenUDPAddress (if family = AF_INET then UDP else UDPv6) (an_addr a))) (\<lambda>address.
                          next_do (SendRequest (ReqSetUdp n address)) (ret 0)))))))))))"

section \<open>Information\<close>

datatype info_type = InfoBind | InfoListen | InfoClosing | InfoTcp | InfoUdp

record socket_info =
  in_id :: int
  in_type :: info_type
  in_opaque :: u64
  in_read :: u64
  in_write :: u64
  in_rtime :: u64
  in_wtime :: u64
  in_wbuffer :: int
  in_reading :: bool
  in_writing :: bool

text \<open>The type that is reported, if the socket is; the name is left out.\<close>

definition query_type :: "nat \<Rightarrow> info_type option act" where
  "query_type i =
     seq (sock i) (\<lambda>k.
       case sk_type k of
         kSocketTypeBind \<Rightarrow> ret (Some InfoBind)
       | kSocketTypeListen \<Rightarrow> seq (ask (OsGetsockname (sk_fd k))) (\<lambda>_. ret (Some InfoListen))
       | _ \<Rightarrow>
           if sk_type k \<in> {kSocketTypeConnected, kSocketTypeHalfCloseRead, kSocketTypeHalfCloseWrite} then
             if sk_protocol k = TCP then
               seq (ask (OsGetpeername (sk_fd k))) (\<lambda>_.
                 ret (Some (if sk_type k = kSocketTypeConnected then InfoTcp else InfoClosing)))
             else
               seq (get_address i) (\<lambda>address.
               seq (lift_res (UDPSocketAddress k address)) (\<lambda>_. ret (Some InfoUdp)))
           else ret None)"

definition QueryInfo :: "nat \<Rightarrow> socket_info option act" where
  "QueryInfo i =
     seq (query_type i) (\<lambda>r.
     seq (sock i) (\<lambda>k.
       ret (map_option (\<lambda>t. \<lparr>in_id = sk_id k, in_type = t, in_opaque = sk_opaque k, in_read = sk_read k,
           in_write = sk_write k, in_rtime = sk_rtime k, in_wtime = sk_wtime k, in_wbuffer = sk_wb_size k,
           in_reading = sk_reading k, in_writing = sk_writing k\<rparr>) r)))"

text \<open>\<open>CreateNext\<close> is called through the pointer to the list so far, which is null at first.\<close>

fun info_loop :: "nat list \<Rightarrow> socket_info list \<Rightarrow> socket_info list act" where
  "info_loop [] acc = ret acc"
| "info_loop (i # is) acc =
     seq (QueryInfo i) (\<lambda>r.
       case r of
         None \<Rightarrow> info_loop is acc
       | Some info \<Rightarrow> if acc = [] then raise NullDereference else info_loop is (info # acc))"

definition Server_Info :: "socket_info list act" where
  "Server_Info = info_loop [0 ..< MAX_SOCKET] []"

end
