(* ===== verification/SocketFrames.thy ===== *)
theory SocketFrames
  imports SocketApi
begin

text \<open>
  What the operations of \<open>skynet-src/socket_server.cpp\<close> leave as it is. A \<open>view\<close> is a part of the
  server; an action keeps it when it never returns with another one. The locale \<open>quiet_view\<close> lists the
  fields that locks, polling, statistics and requests write to, and derives that these keep every
  view that does not see those fields.
\<close>

section \<open>Executing actions\<close>

named_theorems act_iff "when an action returns"

lemma act_basic_iff [act_iff]:
  "ret x s = Inr (y, t) \<longleftrightarrow> y = x \<and> t = s"
  "raise e s = Inr (y, t) \<longleftrightarrow> False"
  "look q s = Inr (y, t) \<longleftrightarrow> y = q s \<and> t = s"
  "change g s = Inr (u, t) \<longleftrightarrow> t = g s"
  "sock i s = Inr (k, t) \<longleftrightarrow> k = sv_slot s i \<and> t = s"
  "upd i f s = Inr (u, t) \<longleftrightarrow> t = s\<lparr>sv_slot := (sv_slot s)(i := f (sv_slot s i))\<rparr>"
  "msg h s = Inr (u, t) \<longleftrightarrow> t = s\<lparr>sv_msg := h (sv_msg s)\<rparr>"
  "tell c s = Inr (u, t) \<longleftrightarrow> t = s\<lparr>sv_calls := sv_calls s @ [c]\<rparr>"
  "strerror en s = Inr (text, t) \<longleftrightarrow> text = pf_strerror (sv_platform s) en \<and> t = s"
  "check b s = Inr (u, t) \<longleftrightarrow> b \<and> t = s"
  by (auto simp: ret_def raise_def look_def change_def sock_def upd_def msg_def tell_def strerror_def check_def
      lift_res_def bindR_Inr_iff)

lemma lift_res_iff [act_iff]: "lift_res r s = Inr (x, t) \<longleftrightarrow> r = Inr x \<and> t = s"
  by (auto simp: lift_res_def bindR_Inr_iff)

lemma ask_iff: "ask c s = Inr (a, t) \<longleftrightarrow>
    (\<exists>as. sv_answers s = a # as \<and> t = s\<lparr>sv_answers := as, sv_calls := sv_calls s @ [c]\<rparr>)"
  by (auto simp: ask_def split: list.splits)

lemma seq_iff [act_iff]: "seq m f s = Inr (y, u) \<longleftrightarrow> (\<exists>x t. m s = Inr (x, t) \<and> f x t = Inr (y, u))"
  by (rule seq_Inr_iff)

lemma next_do_iff [act_iff]: "next_do m n s = Inr (y, u) \<longleftrightarrow> (\<exists>x t. m s = Inr (x, t) \<and> n t = Inr (y, u))"
  by (simp add: next_do_def seq_Inr_iff)

lemma only_if_iff [act_iff]: "only_if b m s = Inr (u, t) \<longleftrightarrow> (if b then m s = Inr (u, t) else t = s)"
  by (simp add: only_if_def act_basic_iff)

lemma steps_iff [act_iff]:
  "steps [] s = Inr (u, t) \<longleftrightarrow> t = s"
  "steps (m # ms) s = Inr (u, t) \<longleftrightarrow> (\<exists>r. m s = Inr ((), r) \<and> steps ms r = Inr (u, t))"
  by (auto simp: steps_def next_do_iff act_basic_iff)

lemma msg_null_iff [act_iff]:
  "msg_null s = Inr (u, t) \<longleftrightarrow> (\<exists>text. pf_null (sv_platform s) = Inr text \<and> t = s\<lparr>sv_msg := (sv_msg s)\<lparr>pm_data := text\<rparr>\<rparr>)"
  by (auto simp: msg_null_def msg_data_def act_iff)

lemma msg_data_iff [act_iff]: "msg_data text s = Inr (u, t) \<longleftrightarrow> t = s\<lparr>sv_msg := (sv_msg s)\<lparr>pm_data := text\<rparr>\<rparr>"
  by (auto simp: msg_data_def act_iff)

section \<open>Keeping a view\<close>

definition keeps :: "(server \<Rightarrow> 'v) \<Rightarrow> 'a act \<Rightarrow> bool" where
  "keeps v m \<longleftrightarrow> (\<forall>s x t. m s = Inr (x, t) \<longrightarrow> v t = v s)"

named_theorems keeps_rules "actions that keep a view"

lemma keepsD: "keeps v m \<Longrightarrow> m s = Inr (x, t) \<Longrightarrow> v t = v s"
  by (auto simp: keeps_def)

lemma keeps_basic [keeps_rules]:
  "keeps v (ret x)" "keeps v (raise e)" "keeps v (look f)" "keeps v (sock i)" "keeps v (check b)"
  "keeps v (lift_res r)" "keeps v (strerror en)"
  by (auto simp: keeps_def act_iff)

lemma keeps_seq [keeps_rules]: "keeps v m \<Longrightarrow> (\<And>x. keeps v (f x)) \<Longrightarrow> keeps v (seq m f)"
  unfolding keeps_def act_iff by metis

lemma keeps_next_do [keeps_rules]: "keeps v m \<Longrightarrow> keeps v n \<Longrightarrow> keeps v (next_do m n)"
  unfolding next_do_def by (rule keeps_seq)

lemma keeps_branches [keeps_rules]:
  "keeps v m \<Longrightarrow> keeps v n \<Longrightarrow> keeps v (if b then m else n)"
  "keeps v w \<Longrightarrow> keeps v (only_if b w)"
  "keeps v m' \<Longrightarrow> (\<And>x. keeps v (f' x)) \<Longrightarrow> keeps v (case opt of None \<Rightarrow> m' | Some x \<Rightarrow> f' x)"
  "(\<And>y z. keeps v (g y z)) \<Longrightarrow> keeps v (case pair of (y, z) \<Rightarrow> g y z)"
  by (auto simp: only_if_def keeps_basic split: option.splits prod.splits)

lemma keeps_steps [keeps_rules]:
  "keeps v (steps [])"
  "keeps v m \<Longrightarrow> keeps v (steps ms) \<Longrightarrow> keeps v (steps (m # ms))"
  by (auto simp: steps_def intro: keeps_rules)

section \<open>Quiet actions\<close>

text \<open>The fields of a socket that only matter to locks, polling and statistics.\<close>

locale quiet_view =
  fixes v :: "server \<Rightarrow> 'v"
  assumes quiet_fields: "v (s\<lparr>sv_calls := cs\<rparr>) = v s" "v (s\<lparr>sv_answers := a\<rparr>) = v s"
      "v (s\<lparr>sv_lock_slot := i\<rparr>) = v s" "v (s\<lparr>sv_lock_count := n\<rparr>) = v s"
    and quiet_slots: "v (s\<lparr>sv_slot := (sv_slot s)(j := (sv_slot s j)\<lparr>sk_dw_lock := b\<rparr>)\<rparr>) = v s"
      "v (s\<lparr>sv_slot := (sv_slot s)(j := (sv_slot s j)\<lparr>sk_reading := b\<rparr>)\<rparr>) = v s"
      "v (s\<lparr>sv_slot := (sv_slot s)(j := (sv_slot s j)\<lparr>sk_writing := b\<rparr>)\<rparr>) = v s"
      "v (s\<lparr>sv_slot := (sv_slot s)(j := (sv_slot s j)\<lparr>sk_sending := w\<rparr>)\<rparr>) = v s"
      "v (s\<lparr>sv_slot := (sv_slot s)(j := (sv_slot s j)\<lparr>sk_udpconnecting := n\<rparr>)\<rparr>) = v s"
      "v (s\<lparr>sv_slot := (sv_slot s)(j := (sv_slot s j)\<lparr>sk_closing := b\<rparr>)\<rparr>) = v s"
      "v (s\<lparr>sv_slot := (sv_slot s)(j := (sv_slot s j)\<lparr>sk_warn_size := n\<rparr>)\<rparr>) = v s"
      "v (s\<lparr>sv_slot := (sv_slot s)(j := (sv_slot s j)\<lparr>sk_opaque := w\<rparr>)\<rparr>) = v s"
      "v (s\<lparr>sv_slot := (sv_slot s)(j := (sv_slot s j)\<lparr>sk_p := p\<rparr>)\<rparr>) = v s"
      "v (s\<lparr>sv_slot := (sv_slot s)(j := (sv_slot s j)\<lparr>sk_read := w, sk_rtime := w'\<rparr>)\<rparr>) = v s"
      "v (s\<lparr>sv_slot := (sv_slot s)(j := (sv_slot s j)\<lparr>sk_write := w, sk_wtime := w'\<rparr>)\<rparr>) = v s"
begin

lemma quiet_tell [keeps_rules]: "keeps v (tell c)"
  by (auto simp: keeps_def act_iff quiet_fields)

lemma quiet_ask [keeps_rules]: "keeps v (ask c)"
proof -
  have "v (s\<lparr>sv_answers := a, sv_calls := c\<rparr>) = v s" for s :: server and a c
    using quiet_fields(1,2) by simp
  then show ?thesis by (auto simp: keeps_def ask_iff)
qed

lemma quiet_lock [keeps_rules]: "keeps v SocketLock" "keeps v SocketUnlock" "keeps v SocketTrylock"
    "keeps v (SocketLockInit i)"
proof -
  have count: "keeps v (change (\<lambda>s. s\<lparr>sv_lock_count := n\<rparr>))" for n
    by (auto simp: keeps_def act_iff quiet_fields)
  have flag: "keeps v (upd i (\<lambda>k. k\<lparr>sk_dw_lock := b\<rparr>))" for i b
    by (auto simp: keeps_def act_iff quiet_slots)
  show "keeps v SocketLock" "keeps v SocketUnlock" "keeps v SocketTrylock"
    unfolding SocketLock_def SocketUnlock_def SocketTrylock_def by (intro keeps_rules count flag)+
  have "v (s\<lparr>sv_lock_slot := i, sv_lock_count := 0\<rparr>) = v s" for s
    using quiet_fields(3,4) by simp
  then show "keeps v (SocketLockInit i)" by (auto simp: SocketLockInit_def keeps_def act_iff)
qed

lemma quiet_poll [keeps_rules]:
  "keeps v (EpollAdd fd data)" "keeps v (EpollDel fd)" "keeps v (EpollEnable fd i r w)" "keeps v (EpollNonblocking fd)"
  "keeps v (SocketKeepalive fd)" "keeps v (log_error text)" "keeps v (log_errno text e)"
  unfolding EpollAdd_def EpollDel_def EpollEnable_def EpollNonblocking_def SocketKeepalive_def
    log_error_def log_errno_def
  by (intro keeps_rules)+

lemma quiet_upd [keeps_rules]:
  "keeps v (upd i (\<lambda>k. k\<lparr>sk_reading := b\<rparr>))" "keeps v (upd i (\<lambda>k. k\<lparr>sk_writing := b\<rparr>))"
  "keeps v (upd i (\<lambda>k. k\<lparr>sk_closing := b\<rparr>))" "keeps v (upd i (\<lambda>k. k\<lparr>sk_p := p\<rparr>))"
  "keeps v (upd i (\<lambda>k. k\<lparr>sk_warn_size := n\<rparr>))" "keeps v (upd i (\<lambda>k. k\<lparr>sk_opaque := w\<rparr>))"
  "keeps v (upd i (\<lambda>k. k\<lparr>sk_sending := sk_sending k + 1\<rparr>))" "keeps v (upd i (\<lambda>k. k\<lparr>sk_sending := sk_sending k - 1\<rparr>))"
  "keeps v (upd i (\<lambda>k. k\<lparr>sk_warn_size := (if sk_warn_size k = 0 then n else sk_warn_size k * 2)\<rparr>))"
  "keeps v (upd i (\<lambda>k. k\<lparr>sk_udpconnecting := sk_udpconnecting k + 1\<rparr>))"
  by (auto simp: keeps_def act_iff quiet_slots)

lemma quiet_enable [keeps_rules]: "keeps v (EnableWrite i b)" "keeps v (EnableRead i b)"
  unfolding EnableWrite_def EnableRead_def by (intro keeps_rules)+

lemma quiet_stat [keeps_rules]: "keeps v (StatRead i n)" "keeps v (StatWrite i n)"
  by (auto simp: StatRead_def StatWrite_def keeps_def act_iff quiet_slots)

lemma quiet_queries [keeps_rules]:
  "keeps v (SocketInvalid n)" "keeps v (HalfcloseRead i)" "keeps v (NomoreSendingData i)" "keeps v (CanDirectWrite n)"
  "keeps v (get_address i)" "keeps v (get_size i)" "keeps v unset_pointer" "keeps v (fill_address a)"
  "keeps v (FreeBuffer b)"
  unfolding SocketInvalid_def HalfcloseRead_def NomoreSendingData_def CanDirectWrite_def get_address_def get_size_def
    unset_pointer_def fill_address_def FreeBuffer_def
  by (auto intro!: keeps_rules split: param.splits)

lemma quiet_counts [keeps_rules]: "keeps v (IncSendingRef i n)" "keeps v (DecSendingRef n)"
  unfolding IncSendingRef_def DecSendingRef_def Let_def by (intro keeps_rules)+

lemma quiet_write_request: "write_request fd r len s = Inr (x, t) \<Longrightarrow> v t = v s"
proof (induction fd r len s rule: write_request.induct)
  case (1 fd r len s)
  obtain a u where a: "ask (OsWritePipe fd r) s = Inr (a, u)"
    and rest: "(if an_ret a < 0 then seq (log_errno ''socket-server : send ctrl command error '' (an_errno a))
        (\<lambda>_. write_request fd r len) u else check (an_ret a = len + 2) u) = Inr (x, t)"
    using 1(2) unfolding write_request.simps [of fd r len s] seq_iff by auto
  have "v u = v s" using keepsD [OF quiet_ask a] .
  moreover have "v t = v u" if neg: "an_ret a < 0"
  proof -
    obtain w where "log_errno ''socket-server : send ctrl command error '' (an_errno a) u = Inr ((), w)"
      and "write_request fd r len w = Inr (x, t)"
      using rest neg by (auto simp: seq_iff)
    with 1(1) [OF a neg] show ?thesis using keepsD [OF quiet_poll(7)] by metis
  qed
  ultimately show ?case using rest by (cases "an_ret a < 0") (simp_all add: act_iff)
qed

lemma quiet_SendRequest [keeps_rules]: "keeps v (SendRequest r)"
proof -
  have "keeps v (write_request fd r' len)" for fd r' len
    using quiet_write_request by (auto simp: keeps_def)
  then show ?thesis unfolding SendRequest_def by (intro keeps_rules)
qed

end

section \<open>Two views\<close>

text \<open>The message under construction, and of every socket what its life and its buffers depend on.\<close>

record core =
  co_id :: int
  co_type :: socket_type
  co_protocol :: protocol
  co_high :: "write_buffer list"
  co_low :: "write_buffer list"
  co_wb_size :: int
  co_dw_buffer :: nat

definition core_of :: "socket \<Rightarrow> core" where
  "core_of k = \<lparr>co_id = sk_id k, co_type = sk_type k, co_protocol = sk_protocol k, co_high = sk_high k,
     co_low = sk_low k, co_wb_size = sk_wb_size k, co_dw_buffer = sk_dw_buffer k\<rparr>"

definition cores :: "server \<Rightarrow> int \<times> (nat \<Rightarrow> core)" where
  "cores s = (sv_alloc_id s, \<lambda>i. core_of (sv_slot s i))"

interpretation core_view: quiet_view cores
  by unfold_locales (auto simp: cores_def core_of_def fun_eq_iff)

interpretation msg_view: quiet_view sv_msg
  by unfold_locales auto

lemma core_of_simps [simp]:
  "co_id (core_of k) = sk_id k" "co_type (core_of k) = sk_type k" "co_protocol (core_of k) = sk_protocol k"
  "co_high (core_of k) = sk_high k" "co_low (core_of k) = sk_low k" "co_wb_size (core_of k) = sk_wb_size k"
  "co_dw_buffer (core_of k) = sk_dw_buffer k"
  by (simp_all add: core_of_def)

lemma cores_eqD: "cores t = cores s \<Longrightarrow> core_of (sv_slot t i) = core_of (sv_slot s i)"
  "cores t = cores s \<Longrightarrow> sv_alloc_id t = sv_alloc_id s"
  by (auto simp: cores_def dest: fun_cong)

lemma keeps_msg [keeps_rules]: "keeps cores (msg g)" "keeps cores (msg_data text)" "keeps cores msg_null"
  by (auto simp: keeps_def act_iff cores_def)

end
