(* ===== verification/SocketLife.thy ===== *)
theory SocketLife
  imports SocketFrames
begin

text \<open>
  How the sockets of \<open>skynet-src/socket_server.cpp\<close> change. The ledger of a server is its last id and the
  core of every slot. The relation \<open>evolves\<close> between ledgers says that what a slot has queued is still
  counted correctly and that a socket which has been closed for reading stays so until its slot is given
  to a later id. It is transitive, and every operation of the server is shown to stay within it.
\<close>

section \<open>Ledgers\<close>

type_synonym ledger = "int \<times> (nat \<Rightarrow> core)"

definition put :: "nat \<Rightarrow> core \<Rightarrow> ledger \<Rightarrow> ledger" where
  "put i k c = (fst c, (snd c)(i := k))"

lemma put_simps [simp]:
  "fst (put i k c) = fst c" "snd (put i k c) i = k" "put i k' (put i k c) = put i k' c"
  "put i (snd c i) c = c"
  by (simp_all add: put_def)

lemma snd_put: "snd (put i k c) j = (if j = i then k else snd c j)"
  by (simp add: put_def)

definition edit :: "nat \<Rightarrow> (core \<Rightarrow> core) \<Rightarrow> ledger \<Rightarrow> ledger" where
  "edit i f c = put i (f (snd c i)) c"

lemma edit_simps [simp]: "edit i g (edit i f c) = edit i (\<lambda>k. g (f k)) c" "edit i (\<lambda>k. k) c = c"
  "snd (edit i f c) i = f (snd c i)"
  by (simp_all add: edit_def)

lemma cores_simps [simp]: "snd (cores s) i = core_of (sv_slot s i)" "fst (cores s) = sv_alloc_id s"
  by (simp_all add: cores_def)

lemma cores_upd: "cores (s\<lparr>sv_slot := (sv_slot s)(i := k)\<rparr>) = put i (core_of k) (cores s)"
  by (auto simp: cores_def put_def)

lemma cores_other [simp]:
  "cores (s\<lparr>sv_msg := m\<rparr>) = cores s" "cores (s\<lparr>sv_calls := cs\<rparr>) = cores s" "cores (s\<lparr>sv_answers := as\<rparr>) = cores s" "cores (s\<lparr>sv_ev := es\<rparr>) = cores s"
  "cores (s\<lparr>sv_event_index := n\<rparr>) = cores s" "cores (s\<lparr>sv_reserve_fd := n\<rparr>) = cores s"
  by (simp_all add: cores_def)

lemma core_of_upd [simp]:
  "core_of (k\<lparr>sk_id := n\<rparr>) = (core_of k)\<lparr>co_id := n\<rparr>"
  "core_of (k\<lparr>sk_type := ty\<rparr>) = (core_of k)\<lparr>co_type := ty\<rparr>"
  "core_of (k\<lparr>sk_protocol := p\<rparr>) = (core_of k)\<lparr>co_protocol := p\<rparr>"
  "core_of (k\<lparr>sk_high := ws\<rparr>) = (core_of k)\<lparr>co_high := ws\<rparr>"
  "core_of (k\<lparr>sk_low := ws\<rparr>) = (core_of k)\<lparr>co_low := ws\<rparr>"
  "core_of (k\<lparr>sk_wb_size := n\<rparr>) = (core_of k)\<lparr>co_wb_size := n\<rparr>"
  "core_of (k\<lparr>sk_dw_buffer := b\<rparr>) = (core_of k)\<lparr>co_dw_buffer := b\<rparr>"
  by (simp_all add: core_of_def)

section \<open>Sizes and lives\<close>

definition idle :: "core \<Rightarrow> bool" where
  "idle k \<longleftrightarrow> co_type k = kSocketTypeInvalid \<or> co_protocol k = UNKNOWN"

definition queued :: "core \<Rightarrow> u64" where
  "queued k = sum_list (map wb_sz (co_high k @ co_low k))"

text \<open>A slot without an open socket has nothing queued; otherwise \<open>wb_size\<close> is what is queued.\<close>

definition sized :: "core \<Rightarrow> bool" where
  "sized k \<longleftrightarrow> (co_type k = kSocketTypeReserve \<longrightarrow> co_protocol k = UNKNOWN) \<and>
     (if idle k then co_high k = [] \<and> co_low k = [] \<and> co_dw_buffer k = 0 else co_wb_size k = sint (queued k))"

text \<open>A slot in use stands where its id leads, and ids are given in order.\<close>

definition placed :: "int \<Rightarrow> nat \<Rightarrow> core \<Rightarrow> bool" where
  "placed newest i k \<longleftrightarrow> co_type k = kSocketTypeInvalid \<or> HASH_ID (co_id k) = i \<and> co_id k \<le> newest"

definition all_sized :: "ledger \<Rightarrow> bool" where
  "all_sized c \<longleftrightarrow> (\<forall>i. sized (snd c i) \<and> placed (fst c) i (snd c i))"

definition shut :: "core \<Rightarrow> bool" where
  "shut k \<longleftrightarrow> co_type k = kSocketTypeInvalid \<or> co_type k = kSocketTypeHalfCloseRead"

definition lives :: "core \<Rightarrow> core \<Rightarrow> bool" where
  "lives k k' \<longleftrightarrow> co_id k' = co_id k \<and> (co_type k' = co_type k \<or> co_type k' = kSocketTypeInvalid \<or> \<not> shut k)"

definition later :: "ledger \<Rightarrow> ledger \<Rightarrow> bool" where
  "later c d \<longleftrightarrow> fst c \<le> fst d \<and>
     (\<forall>i. lives (snd c i) (snd d i) \<or> fst c < co_id (snd d i) \<and> co_id (snd d i) \<le> fst d)"

definition evolves :: "ledger \<Rightarrow> ledger \<Rightarrow> bool" where
  "evolves c d \<longleftrightarrow> (all_sized c \<and> 0 \<le> fst c \<longrightarrow> all_sized d \<and> 0 \<le> fst d \<and> later c d)"

lemma lives_refl [simp]: "lives k k"
  by (simp add: lives_def)

lemma lives_trans: "lives k k' \<Longrightarrow> lives k' k'' \<Longrightarrow> lives k k''"
  by (auto simp: lives_def shut_def)

lemma later_refl: "later c c"
  by (simp add: later_def)

lemma later_trans:
  assumes "later c d" and "later d e"
  shows "later c e"
  unfolding later_def
proof (intro conjI allI)
  show "fst c \<le> fst e" using assms by (simp add: later_def)
  fix i
  have d: "lives (snd c i) (snd d i) \<or> fst c < co_id (snd d i) \<and> co_id (snd d i) \<le> fst d"
    and e: "lives (snd d i) (snd e i) \<or> fst d < co_id (snd e i) \<and> co_id (snd e i) \<le> fst e"
    and le: "fst c \<le> fst d" "fst d \<le> fst e"
    using assms by (auto simp: later_def)
  from e show "lives (snd c i) (snd e i) \<or> fst c < co_id (snd e i) \<and> co_id (snd e i) \<le> fst e"
  proof
    assume l: "lives (snd d i) (snd e i)"
    then have "co_id (snd e i) = co_id (snd d i)" by (simp add: lives_def)
    then show ?thesis using d lives_trans [OF _ l] le by auto
  next
    assume "fst d < co_id (snd e i) \<and> co_id (snd e i) \<le> fst e"
    then show ?thesis using le by auto
  qed
qed

lemma evolves_refl [simp]: "evolves c c"
  by (simp add: evolves_def later_refl)

lemma evolves_trans: "evolves c d \<Longrightarrow> evolves d e \<Longrightarrow> evolves c e"
  unfolding evolves_def using later_trans by blast

lemma evolves_put:
  assumes "sized (snd c i) \<Longrightarrow> sized k \<and> lives (snd c i) k"
  shows "evolves c (put i k c)"
proof (unfold evolves_def, rule impI)
  assume c: "all_sized c \<and> 0 \<le> fst c"
  then have "sized k" "lives (snd c i) k" using assms by (auto simp: all_sized_def)
  moreover have "placed (fst c) i (snd c i)" using c by (simp add: all_sized_def)
  then have "placed (fst c) i k" using \<open>lives (snd c i) k\<close> by (auto simp: placed_def lives_def shut_def)
  ultimately show "all_sized (put i k c) \<and> 0 \<le> fst (put i k c) \<and> later c (put i k c)"
    using c by (auto simp: all_sized_def later_def snd_put)
qed

lemma evolves_if_sized:
  assumes "sized (snd c i) \<Longrightarrow> evolves c d"
  shows "evolves c d"
  using assms by (auto simp: evolves_def all_sized_def)

section \<open>Actions within \<open>evolves\<close>\<close>

definition evolving :: "'a act \<Rightarrow> bool" where
  "evolving m \<longleftrightarrow> (\<forall>s x t. m s = Inr (x, t) \<longrightarrow> evolves (cores s) (cores t))"

named_theorems evolving_rules "actions within evolves"

lemma evolvingD: "evolving m \<Longrightarrow> m s = Inr (x, t) \<Longrightarrow> evolves (cores s) (cores t)"
  by (auto simp: evolving_def)

lemma keeps_evolving: "keeps cores m \<Longrightarrow> evolving m"
  by (auto simp: keeps_def evolving_def)

lemma evolving_seq [evolving_rules]: "evolving m \<Longrightarrow> (\<And>x. evolving (f x)) \<Longrightarrow> evolving (seq m f)"
  unfolding evolving_def act_iff using evolves_trans by blast

lemma evolving_next_do [evolving_rules]: "evolving m \<Longrightarrow> evolving n \<Longrightarrow> evolving (next_do m n)"
  unfolding next_do_def by (rule evolving_seq)

lemma evolving_branches [evolving_rules]:
  "evolving m \<Longrightarrow> evolving n \<Longrightarrow> evolving (if b then m else n)"
  "evolving w \<Longrightarrow> evolving (only_if b w)"
  "evolving m' \<Longrightarrow> (\<And>x. evolving (f' x)) \<Longrightarrow> evolving (case opt of None \<Rightarrow> m' | Some x \<Rightarrow> f' x)"
  "(\<And>y z. evolving (g y z)) \<Longrightarrow> evolving (case pair of (y, z) \<Rightarrow> g y z)"
  by (auto simp: only_if_def intro: keeps_evolving keeps_basic split: option.splits prod.splits)

text \<open>What an action does to the ledger when it returns, if that does not depend on more.\<close>

definition edits :: "nat \<Rightarrow> (core \<Rightarrow> core) \<Rightarrow> 'a act \<Rightarrow> bool" where
  "edits i f m \<longleftrightarrow> (\<forall>s x t. m s = Inr (x, t) \<longrightarrow> cores t = edit i f (cores s))"

lemma editsD: "edits i f m \<Longrightarrow> m s = Inr (x, t) \<Longrightarrow> cores t = edit i f (cores s)"
  by (auto simp: edits_def)

lemma keeps_edits: "keeps cores m \<Longrightarrow> edits i (\<lambda>k. k) m"
  by (auto simp: keeps_def edits_def)

lemma edits_seq: "edits i f m \<Longrightarrow> (\<And>x. edits i g (h x)) \<Longrightarrow> edits i (\<lambda>k. g (f k)) (seq m h)"
  unfolding edits_def act_iff by (metis edit_simps(1))

lemma edits_next_do: "edits i f m \<Longrightarrow> edits i g n \<Longrightarrow> edits i (\<lambda>k. g (f k)) (next_do m n)"
  unfolding next_do_def by (rule edits_seq)

lemma edits_steps:
  "edits i f m \<Longrightarrow> edits i g (steps ms) \<Longrightarrow> edits i (\<lambda>k. g (f k)) (steps (m # ms))"
  by (auto simp: steps_def intro: edits_next_do)

lemma edits_steps_quiet:
  "keeps cores m \<Longrightarrow> edits i g (steps ms) \<Longrightarrow> edits i g (steps (m # ms))"
  "edits i g m \<Longrightarrow> keeps cores (steps ms) \<Longrightarrow> edits i g (steps (m # ms))"
  using edits_steps [OF keeps_edits, of m i g ms] edits_steps [OF _ keeps_edits, of i g m ms] by auto

lemma edits_quiet:
  "keeps cores m \<Longrightarrow> edits i g n \<Longrightarrow> edits i g (next_do m n)"
  "edits i g m \<Longrightarrow> keeps cores n \<Longrightarrow> edits i g (next_do m n)"
  "keeps cores l \<Longrightarrow> (\<And>x. edits i g (h x)) \<Longrightarrow> edits i g (seq l h)"
  using edits_next_do [OF keeps_edits, of m i g n] edits_next_do [OF _ keeps_edits, of i g m n]
    edits_seq [OF keeps_edits, of l i g h] by auto

lemma edits_upd: "(\<And>k. core_of (f k) = g (core_of k)) \<Longrightarrow> edits i g (upd i f)"
  by (auto simp: edits_def act_iff cores_upd edit_def)

definition gives :: "('a \<Rightarrow> bool) \<Rightarrow> 'a act \<Rightarrow> bool" where
  "gives P m \<longleftrightarrow> (\<forall>s x t. m s = Inr (x, t) \<longrightarrow> P x)"

named_theorems gives_rules "what an action returns"

lemma givesD: "gives P m \<Longrightarrow> m s = Inr (x, t) \<Longrightarrow> P x"
  by (auto simp: gives_def)

lemma gives_basic [gives_rules]: "P x \<Longrightarrow> gives P (ret x)" "gives P (raise e)"
  by (auto simp: gives_def act_iff)

lemma gives_seq [gives_rules]: "(\<And>x. gives P (f x)) \<Longrightarrow> gives P (seq m f)"
  unfolding gives_def act_iff by metis

lemma gives_next_do [gives_rules]: "gives P n \<Longrightarrow> gives P (next_do m n)"
  unfolding next_do_def by (rule gives_seq)

lemma gives_branches [gives_rules]:
  "gives P m \<Longrightarrow> gives P n \<Longrightarrow> gives P (if b then m else n)"
  "gives P m \<Longrightarrow> (\<And>y. gives P (g y)) \<Longrightarrow> gives P (case opt of None \<Rightarrow> m | Some y \<Rightarrow> g y)"
  "(\<And>y z. gives P (h y z)) \<Longrightarrow> gives P (case pair of (y, z) \<Rightarrow> h y z)"
  by (auto split: option.splits prod.splits)

section \<open>Closing\<close>

lemma set_type_edits: "edits i (\<lambda>k. k\<lparr>co_type := ty\<rparr>) (set_type i ty)"
  unfolding set_type_def by (rule edits_upd) simp

lemma keeps_msg_upd [keeps_rules]: "keeps sv_msg (upd i f)" "keeps sv_msg (set_type i ty)"
  by (auto simp: keeps_def set_type_def act_iff)

lemma free_direct_edits: "edits i (\<lambda>k. k\<lparr>co_dw_buffer := 0\<rparr>) (free_direct i)"
  unfolding edits_def
proof (intro allI impI)
  fix s u t
  assume run: "free_direct i s = Inr (u, t)"
  let ?k = "sv_slot s i" and ?f = "\<lambda>k :: core. k\<lparr>co_dw_buffer := 0\<rparr>"
  have "edits i (\<lambda>k. ?f ((\<lambda>k. k) k)) (next_do (FreeBuffer b) (upd i (\<lambda>k. k\<lparr>sk_dw_buffer := 0\<rparr>)))" for b
    by (intro edits_next_do keeps_edits keeps_rules edits_upd core_of_upd)
  note both = this [THEN editsD, simplified]
  show "cores t = edit i ?f (cores s)"
  proof (cases "sk_dw_buffer ?k = 0")
    case True
    then have "t = s" using run by (simp add: free_direct_def act_iff)
    moreover have "?f (core_of ?k) = core_of ?k" using True by (simp add: core_of_def)
    ultimately show ?thesis by (simp add: edit_def) (metis cores_simps(1) put_simps(4))
  next
    case False
    then show ?thesis using run both by (auto simp: free_direct_def seq_iff act_basic_iff only_if_def)
  qed
qed

definition closed_core :: "core \<Rightarrow> core" where
  "closed_core k = k\<lparr>co_type := kSocketTypeInvalid, co_high := [], co_low := [], co_dw_buffer := 0\<rparr>"

lemma closing_edits:
  "edits i closed_core (steps [check b, FreeWriteBufferList i, EpollDel fd, SocketLock, only_if b' (tell c),
     set_type i kSocketTypeInvalid, free_direct i, SocketUnlock])" (is "edits i closed_core ?m")
proof -
  let ?free = "\<lambda>k :: core. k\<lparr>co_high := [], co_low := []\<rparr>"
  have free: "edits i ?free (FreeWriteBufferList i)"
    unfolding FreeWriteBufferList_def by (rule edits_upd) simp
  have "edits i (\<lambda>k. k\<lparr>co_dw_buffer := 0\<rparr>) (steps [free_direct i, SocketUnlock])"
    by (rule edits_steps_quiet(2) [OF free_direct_edits]) (intro keeps_rules)
  note edits_steps [OF set_type_edits this, of kSocketTypeInvalid]
  then have "edits i (\<lambda>k. k\<lparr>co_type := kSocketTypeInvalid, co_dw_buffer := 0\<rparr>)
      (steps [EpollDel fd, SocketLock, only_if b' (tell c), set_type i kSocketTypeInvalid, free_direct i, SocketUnlock])"
    by - ((rule edits_steps_quiet(1), intro keeps_rules)+)
  then have "edits i (\<lambda>k. (?free k)\<lparr>co_type := kSocketTypeInvalid, co_dw_buffer := 0\<rparr>) ?m"
    by (intro edits_steps_quiet(1) [OF keeps_basic(5)] edits_steps [OF free])
  moreover have "closed_core = (\<lambda>k. (?free k)\<lparr>co_type := kSocketTypeInvalid, co_dw_buffer := 0\<rparr>)"
    by (simp add: closed_core_def fun_eq_iff)
  ultimately show ?thesis by simp
qed

text \<open>A socket is closed at once; the message names it.\<close>

lemma ForceClose_cores:
  assumes "ForceClose i s = Inr (u, t)"
  shows "cores t = (if sk_type (sv_slot s i) = kSocketTypeInvalid then cores s else edit i closed_core (cores s))"
    and "pm_id (sv_msg t) = sk_id (sv_slot s i)"
proof -
  let ?k = "sv_slot s i"
  let ?m = "steps [msg (\<lambda>m. m\<lparr>pm_id := sk_id ?k, pm_ud := 0\<rparr>), msg_null, msg (\<lambda>m. m\<lparr>pm_opaque := sk_opaque ?k\<rparr>)]"
  let ?n = "steps [check (sk_type ?k \<noteq> kSocketTypeReserve),
      FreeWriteBufferList i, EpollDel (sk_fd ?k), SocketLock,
      only_if (sk_type ?k \<noteq> kSocketTypeBind) (tell (OsClose (sk_fd ?k))),
      set_type i kSocketTypeInvalid, free_direct i, SocketUnlock]"
  obtain s1 where m: "?m s = Inr ((), s1)" and rest: "only_if (sk_type ?k \<noteq> kSocketTypeInvalid) ?n s1 = Inr (u, t)"
    using assms unfolding ForceClose_def seq_iff next_do_iff act_basic_iff by auto
  have s1: "cores s1 = cores s" "pm_id (sv_msg s1) = sk_id ?k" using m by (auto simp: act_iff)
  show "cores t = (if sk_type ?k = kSocketTypeInvalid then cores s else edit i closed_core (cores s))"
    using rest s1(1) editsD [OF closing_edits] by (auto simp: only_if_iff)
  have "keeps sv_msg (FreeWriteBufferList i)" "keeps sv_msg (free_direct i)"
    unfolding FreeWriteBufferList_def free_direct_def by (intro keeps_rules)+
  then have "keeps sv_msg (only_if (sk_type ?k \<noteq> kSocketTypeInvalid) ?n)" by (intro keeps_rules)
  from keepsD [OF this rest] show "pm_id (sv_msg t) = sk_id ?k" using s1(2) by simp
qed

lemma lives_closed [simp]: "lives k (closed_core k)"
  by (simp add: lives_def closed_core_def)

lemma sized_closed [simp]: "sized (closed_core k)"
  by (simp add: sized_def idle_def closed_core_def)

lemma evolves_edit: "(sized (snd c i) \<Longrightarrow> sized (f (snd c i)) \<and> lives (snd c i) (f (snd c i))) \<Longrightarrow> evolves c (edit i f c)"
  unfolding edit_def by (rule evolves_put)

lemma evolving_ForceClose [evolving_rules]: "evolving (ForceClose i)"
  by (auto simp: evolving_def ForceClose_cores(1) intro: evolves_edit)

end
