(* ===== verification/SocketWork.thy ===== *)
theory SocketWork
  imports SocketLife
begin

text \<open>
  The operations of \<open>skynet-src/socket_server.cpp\<close> on sockets stay within \<open>evolves\<close>: closing, opening,
  and sending.
\<close>

section \<open>Closing one side\<close>

lemma evolving_Enable [evolving_rules]: "evolving (EnableWrite i b)" "evolving (EnableRead i b)"
  by (intro keeps_evolving keeps_rules)+

lemma evolving_ReportError [evolving_rules]: "evolving (ReportError i err)"
  unfolding ReportError_def by (intro keeps_evolving keeps_rules)

lemma retype_open:
  assumes "sk_type (sv_slot s i) \<noteq> kSocketTypeInvalid" and "\<not> shut (core_of (sv_slot s i))"
    and "ty \<noteq> kSocketTypeReserve" and "ty \<noteq> kSocketTypeInvalid" and "set_type i ty s = Inr (u, t)"
  shows "evolves (cores s) (cores t)"
  unfolding editsD [OF set_type_edits assms(5)]
  using assms(1-4) by (intro evolves_edit) (auto simp: sized_def idle_def lives_def queued_def)

lemma CloseWrite_evolves:
  assumes "CloseWrite i e s = Inr (x, t)" and "sk_type (sv_slot s i) \<noteq> kSocketTypeInvalid"
  shows "evolves (cores s) (cores t)"
proof -
  let ?k = "sv_slot s i"
  let ?rest = "next_do (tell (OsShutdown (sk_fd ?k) True)) (seq (EnableWrite i False) (\<lambda>_. seq (strerror e) (ReportError i)))"
  have force: "evolving (next_do (ForceClose i) (ret kSocketRst))"
    by (intro evolving_rules keeps_evolving keeps_rules)
  have rest: "evolving ?rest" unfolding ReportError_def by (intro keeps_evolving keeps_rules)
  consider (all) "next_do (ForceClose i) (ret kSocketRst) s = Inr (x, t)" | (same) "t = s"
    | (half) u where "sk_type ?k \<noteq> kSocketTypeHalfCloseRead" "set_type i kSocketTypeHalfCloseWrite s = Inr ((), u)" "?rest u = Inr (x, t)"
    using assms(1) unfolding CloseWrite_def seq_iff act_basic_iff by (auto simp: next_do_iff act_basic_iff split: if_splits)
  then show ?thesis
  proof cases
    case all
    then show ?thesis using evolvingD [OF force] by simp
  next
    case half
    have "evolves (cores s) (cores u)"
      using assms(2) half(1) by (intro retype_open [OF _ _ _ _ half(2)]) (simp_all add: shut_def)
    then show ?thesis using evolvingD [OF rest half(3)] evolves_trans by blast
  qed simp
qed

lemma gives_ReportError: "gives (\<lambda>r. r = kSocketErr) (ReportError i err)"
  unfolding ReportError_def by (intro gives_rules) simp

lemma gives_CloseWrite [gives_rules]: "gives (\<lambda>r. r \<noteq> kSocketClose) (CloseWrite i e)"
  unfolding CloseWrite_def ReportError_def by (intro gives_rules) simp_all

lemma CloseRead_cores:
  assumes "CloseRead i s = Inr (u, t)"
  shows "cores t = edit i (\<lambda>k. k\<lparr>co_type := kSocketTypeHalfCloseRead\<rparr>) (cores s)"
    and "pm_id (sv_msg t) = sk_id (sv_slot s i)"
proof -
  let ?k = "sv_slot s i"
  let ?ms = "[msg (\<lambda>m. m\<lparr>pm_id := sk_id ?k, pm_ud := 0\<rparr>), msg_null, msg (\<lambda>m. m\<lparr>pm_opaque := sk_opaque ?k\<rparr>)]"
  let ?m = "steps (set_type i kSocketTypeHalfCloseRead # seq (EnableRead i False) (\<lambda>_. ret ()) #
    tell (OsShutdown (sk_fd ?k) False) # ?ms)"
  have run: "?m s = Inr (u, t)" using assms unfolding CloseRead_def seq_iff act_basic_iff by simp
  have "edits i (\<lambda>k. k\<lparr>co_type := kSocketTypeHalfCloseRead\<rparr>) ?m"
    by (rule edits_steps_quiet(2) [OF set_type_edits]) (intro keeps_rules)
  then show "cores t = edit i (\<lambda>k. k\<lparr>co_type := kSocketTypeHalfCloseRead\<rparr>) (cores s)" using run by (rule editsD)
  obtain r where "steps ?ms r = Inr (u, t)" using run unfolding steps_iff by blast
  then show "pm_id (sv_msg t) = sk_id ?k" by (auto simp: act_iff)
qed

lemma evolves_half_closed:
  assumes "co_type (snd c i) \<noteq> kSocketTypeInvalid"
  shows "evolves c (edit i (\<lambda>k. k\<lparr>co_type := kSocketTypeHalfCloseRead\<rparr>) c)"
proof (rule evolves_edit)
  assume "sized (snd c i)"
  then show "sized ((snd c i)\<lparr>co_type := kSocketTypeHalfCloseRead\<rparr>) \<and>
      lives (snd c i) ((snd c i)\<lparr>co_type := kSocketTypeHalfCloseRead\<rparr>)"
    using assms by (auto simp: sized_def idle_def lives_def shut_def queued_def)
qed

text \<open>What the report of a closed socket means: the socket of that id was open for reading, and is not now.\<close>

definition reports_close :: "int \<Rightarrow> ledger \<Rightarrow> ledger \<Rightarrow> bool" where
  "reports_close n c d \<longleftrightarrow> (\<exists>i. co_id (snd c i) = n \<and> \<not> shut (snd c i) \<and> co_id (snd d i) = n \<and> shut (snd d i))"

lemma reports_half_closed:
  assumes "\<not> shut (snd c i)"
  shows "reports_close (co_id (snd c i)) c (edit i (\<lambda>k. k\<lparr>co_type := kSocketTypeHalfCloseRead\<rparr>) c)"
  using assms by (auto simp: reports_close_def shut_def intro!: exI [of _ i])

lemma reports_closed: "\<not> shut (snd c i) \<Longrightarrow> reports_close (co_id (snd c i)) c (edit i closed_core c)"
  by (auto simp: reports_close_def shut_def closed_core_def intro!: exI [of _ i])

lemma ForceClose_reports:
  assumes "ForceClose i s = Inr (u, t)" and "\<not> shut (core_of (sv_slot s i))"
  shows "reports_close (pm_id (sv_msg t)) (cores s) (cores t)"
  using reports_closed [of "cores s" i] assms(2) ForceClose_cores [OF assms(1)] by (auto simp: shut_def)

lemma CloseRead_reports:
  assumes "CloseRead i s = Inr (u, t)" and "\<not> shut (core_of (sv_slot s i))"
  shows "reports_close (pm_id (sv_msg t)) (cores s) (cores t)"
  using reports_half_closed [of "cores s" i] assms(2) CloseRead_cores [OF assms(1)] by simp

lemma CloseRead_evolves:
  assumes "CloseRead i s = Inr (u, t)" and "sk_type (sv_slot s i) \<noteq> kSocketTypeInvalid"
  shows "evolves (cores s) (cores t)"
  unfolding CloseRead_cores(1) [OF assms(1)] using assms(2) by (intro evolves_half_closed) simp

text \<open>A handler that returns \<open>out\<close> and leads from \<open>s\<close> to \<open>t\<close>.\<close>

definition proper :: "server \<Rightarrow> outcome \<Rightarrow> server \<Rightarrow> bool" where
  "proper s out t \<longleftrightarrow> evolves (cores s) (cores t) \<and>
     (out = kSocketClose \<longrightarrow> reports_close (pm_id (sv_msg t)) (cores s) (cores t))"

lemma proper_silent: "evolves (cores s) (cores t) \<Longrightarrow> out \<noteq> kSocketClose \<Longrightarrow> proper s out t"
  by (simp add: proper_def)

lemma proper_before: "cores u = cores s \<Longrightarrow> proper u out t \<Longrightarrow> proper s out t"
  by (simp add: proper_def)

lemma ForceClose_proper:
  assumes "ForceClose i s = Inr (u, t)" and "out = kSocketClose \<Longrightarrow> \<not> shut (core_of (sv_slot s i))"
  shows "proper s out t"
  using assms ForceClose_reports evolvingD [OF evolving_ForceClose assms(1)] by (auto simp: proper_def)

lemma CloseRead_proper:
  assumes "CloseRead i s = Inr (u, t)" and "\<not> shut (core_of (sv_slot s i))"
  shows "proper s out t"
  using assms CloseRead_reports CloseRead_evolves by (auto simp: proper_def shut_def)

lemma CloseSocket_proper:
  assumes "CloseSocket n shutdown s = Inr (out, t)"
  shows "proper s out t"
proof -
  let ?i = "HASH_ID n"
  let ?k = "sv_slot s ?i"
  let ?read = "sk_type ?k = kSocketTypeHalfCloseRead"
  define s1 where "s1 = s\<lparr>sv_lock_slot := ?i, sv_lock_count := 0\<rparr>"
  have s1: "cores s1 = cores s" "sv_slot s1 = sv_slot s" "sv_alloc_id s1 = sv_alloc_id s"
    by (simp_all add: s1_def cores_def)
  define nomore where "nomore \<longleftrightarrow> (SendBufferEmpty ?k \<and> sk_dw_buffer ?k = 0 \<and> sk_sending ?k AND 0xffff = 0) \<or>
      sk_type ?k = kSocketTypeHalfCloseWrite"
  have "CloseSocket n shutdown s = (if sk_id ?k \<noteq> n \<or> sk_type ?k = kSocketTypeInvalid then Inr (Ignored, s)
      else (if shutdown \<or> nomore then next_do (ForceClose ?i) (ret (if ?read then Ignored else kSocketClose))
        else next_do (upd ?i (\<lambda>k. k\<lparr>sk_closing := True\<rparr>))
          (if ?read then ret Ignored else next_do (CloseRead ?i) (ret kSocketClose))) s1)"
    unfolding CloseSocket_def Let_def next_do_def
    by (simp add: act_simps sock_def SocketInvalid_def SocketLockInit_def HalfcloseRead_def NomoreSendingData_def nomore_def s1_def)
  with assms consider "out = Ignored" "t = s" | (alive) "\<not> (sk_id ?k \<noteq> n \<or> sk_type ?k = kSocketTypeInvalid)"
      "(if shutdown \<or> nomore then next_do (ForceClose ?i) (ret (if ?read then Ignored else kSocketClose))
        else next_do (upd ?i (\<lambda>k. k\<lparr>sk_closing := True\<rparr>))
          (if ?read then ret Ignored else next_do (CloseRead ?i) (ret kSocketClose))) s1 = Inr (out, t)"
    by (auto split: if_splits)
  then show ?thesis
  proof cases
    case alive
    show ?thesis
    proof (cases "shutdown \<or> nomore")
      case True
      then obtain u where "ForceClose ?i s1 = Inr (u, t)" "out = (if ?read then Ignored else kSocketClose)"
        using alive(2) by (auto simp: next_do_iff act_basic_iff)
      then have "proper s1 out t" using alive(1) s1(2) by (intro ForceClose_proper) (auto simp: shut_def split: if_splits)
      with s1(1) show ?thesis by (rule proper_before)
    next
      case False
      define s2 where "s2 = s1\<lparr>sv_slot := (sv_slot s1)(?i := ?k\<lparr>sk_closing := True\<rparr>)\<rparr>"
      have s2: "cores s2 = cores s" by (auto simp: s2_def core_of_def cores_def s1(2,3))
      have "(if ?read then ret Ignored else next_do (CloseRead ?i) (ret kSocketClose)) s2 = Inr (out, t)"
        using False alive(2) by (auto simp: next_do_iff act_basic_iff s2_def s1(2))
      moreover have "CloseRead ?i s2 = Inr (u, t) \<Longrightarrow> \<not> ?read \<Longrightarrow> proper s2 out t" for u
        using alive(1) by (intro CloseRead_proper) (auto simp: shut_def s2_def)
      ultimately have "proper s2 out t" by (auto simp: act_iff proper_silent split: if_splits)
      with s2 show ?thesis by (rule proper_before)
    qed
  qed (simp add: proper_silent)
qed

section \<open>Opening\<close>

text \<open>
  What \<open>NewFd\<close> makes of a slot that was reserved: a new socket with nothing queued, or none.
\<close>

definition new_core :: "int \<Rightarrow> protocol \<Rightarrow> core \<Rightarrow> core \<Rightarrow> bool" where
  "new_core n p k k' \<longleftrightarrow> co_type k = kSocketTypeReserve \<and> co_type k' = kSocketTypeReserve \<and> co_id k' = n \<and>
     co_protocol k' = p \<and> co_high k' = [] \<and> co_low k' = [] \<and> co_wb_size k' = 0 \<and> co_dw_buffer k' = 0"

definition no_core :: "int \<Rightarrow> core \<Rightarrow> core \<Rightarrow> bool" where
  "no_core n k k' \<longleftrightarrow> co_type k = kSocketTypeReserve \<and> co_type k' = kSocketTypeInvalid \<and> co_id k' \<in> {n, co_id k} \<and>
     (sized k \<longrightarrow> co_high k' = [] \<and> co_low k' = [] \<and> co_dw_buffer k' = 0)"

lemma NewFd_cores:
  assumes "NewFd n fd p opaque reading s = Inr (made, t)"
  shows "\<exists>k'. cores t = put (HASH_ID n) k' (cores s) \<and>
    (if made then new_core n p (core_of (sv_slot s (HASH_ID n))) k' \<and> sk_p (sv_slot t (HASH_ID n)) = ReadSize MIN_READ_BUFFER
     else no_core n (core_of (sv_slot s (HASH_ID n))) k')"
proof -
  let ?i = "HASH_ID n"
  let ?k = "sv_slot s ?i"
  obtain failed u where reserve: "sk_type ?k = kSocketTypeReserve" and add: "EpollAdd fd (Some ?i) s = Inr (failed, u)"
    and rest: "(if failed then next_do (set_type ?i kSocketTypeInvalid) (ret False)
           else
             next_do (upd ?i (\<lambda>k. k\<lparr>sk_id := n, sk_fd := fd, sk_reading := True, sk_writing := False,
                 sk_closing := False, sk_sending := word_of_int (ID_TAG16 n * 65536), sk_protocol := p,
                 sk_p := ReadSize MIN_READ_BUFFER, sk_opaque := opaque, sk_wb_size := 0, sk_warn_size := 0\<rparr>))
               (next_do (check (sk_high ?k = [] \<and> sk_low ?k = []))
                 (next_do (upd ?i (\<lambda>k. k\<lparr>sk_dw_buffer := 0, sk_dw_size := 0, sk_rtime := 0, sk_wtime := 0,
                      sk_read := 0, sk_write := 0\<rparr>))
                   (seq (EnableRead ?i reading) (\<lambda>failed.
                      if failed then next_do (set_type ?i kSocketTypeInvalid) (ret False) else ret True))))) u = Inr (made, t)"
    using assms unfolding NewFd_def Let_def seq_iff next_do_iff act_basic_iff by auto
  have u: "cores u = cores s" using keepsD [OF core_view.quiet_poll(1) add] .
  have cu: "core_of (sv_slot u ?i) = core_of ?k" using cores_eqD(1) [OF u] .
  show ?thesis
  proof (cases failed)
    case True
    then have "cores t = edit ?i (\<lambda>k. k\<lparr>co_type := kSocketTypeInvalid\<rparr>) (cores u)" "\<not> made"
      using rest editsD [OF set_type_edits] by (auto simp: next_do_iff act_basic_iff)
    then show ?thesis using u cu reserve
      by (intro exI [of _ "(core_of ?k)\<lparr>co_type := kSocketTypeInvalid\<rparr>"])
        (auto simp: edit_def no_core_def sized_def idle_def)
  next
    case False
    define w where "w = u\<lparr>sv_slot := (sv_slot u)(?i := (sv_slot u ?i)\<lparr>sk_id := n, sk_fd := fd, sk_reading := True,
        sk_writing := False, sk_closing := False, sk_sending := word_of_int (ID_TAG16 n * 65536), sk_protocol := p,
        sk_p := ReadSize MIN_READ_BUFFER, sk_opaque := opaque, sk_wb_size := 0, sk_warn_size := 0,
        sk_dw_buffer := 0, sk_dw_size := 0, sk_rtime := 0, sk_wtime := 0, sk_read := 0, sk_write := 0\<rparr>)\<rparr>"
    define k' where "k' = (core_of ?k)\<lparr>co_id := n, co_protocol := p, co_wb_size := 0, co_dw_buffer := 0\<rparr>"
    have w: "cores w = put ?i k' (cores s)"
      unfolding w_def cores_upd u k'_def cu [symmetric] by (rule arg_cong [where f = "\<lambda>k. put ?i k (cores s)"]) (simp add: core_of_def)
    obtain bad v where empty: "sk_high ?k = []" "sk_low ?k = []" and enable: "EnableRead ?i reading w = Inr (bad, v)"
      and fin: "(if bad then next_do (set_type ?i kSocketTypeInvalid) (ret False) else ret True) v = Inr (made, t)"
      using rest False unfolding w_def by (auto simp: next_do_iff act_basic_iff seq_iff)
    have v: "cores v = put ?i k' (cores s)" using keepsD [OF core_view.quiet_enable(2) enable] w by simp
    have p: "sk_p (sv_slot v ?i) = ReadSize MIN_READ_BUFFER"
      using enable by (auto simp: EnableRead_def EpollEnable_def act_iff ask_iff w_def split: if_splits)
    have cv: "core_of (sv_slot v ?i) = k'" using arg_cong [OF v, of "\<lambda>c. snd c ?i"] by simp
    show ?thesis
    proof (cases bad)
      case True
      then have "cores t = put ?i (k'\<lparr>co_type := kSocketTypeInvalid\<rparr>) (cores s)" "\<not> made"
        using fin editsD [OF set_type_edits] v cv by (auto simp: next_do_iff act_basic_iff edit_def)
      then show ?thesis using reserve empty
        by (intro exI [of _ "k'\<lparr>co_type := kSocketTypeInvalid\<rparr>"]) (auto simp: no_core_def k'_def)
    next
      case False
      then have "t = v" made using fin by (auto simp: act_basic_iff)
      then show ?thesis using v p reserve empty
        by (intro exI [of _ k']) (auto simp: new_core_def k'_def)
    qed
  qed
qed

text \<open>The slot that a request for a new socket is about: reserved for its id, or closed in the meantime.\<close>

definition reserved_for :: "int \<Rightarrow> server \<Rightarrow> bool" where
  "reserved_for n s \<longleftrightarrow> sk_id (sv_slot s (HASH_ID n)) = n \<and> sk_protocol (sv_slot s (HASH_ID n)) = UNKNOWN"

lemma evolves_open:
  assumes "new_core n p (snd c i) k'" and "co_id (snd c i) = n" and "p \<noteq> UNKNOWN" and "ty \<noteq> kSocketTypeReserve"
  shows "evolves c (put i (k'\<lparr>co_type := ty\<rparr>) c)"
  using assms by (intro evolves_put) (auto simp: new_core_def sized_def idle_def queued_def lives_def shut_def)

lemma evolves_no_core: "no_core n (snd c i) k' \<Longrightarrow> co_id (snd c i) = n \<Longrightarrow> evolves c (put i k' c)"
  by (intro evolves_put) (auto simp: no_core_def sized_def idle_def lives_def)

lemma NewFd_refused:
  assumes "NewFd n fd p opaque reading s = Inr (False, t)" and "sk_id (sv_slot s (HASH_ID n)) = n"
  shows "evolves (cores s) (cores t)" and "sk_type (sv_slot t (HASH_ID n)) = kSocketTypeInvalid"
proof -
  obtain k' where t: "cores t = put (HASH_ID n) k' (cores s)" and k': "no_core n (core_of (sv_slot s (HASH_ID n))) k'"
    using NewFd_cores [OF assms(1)] by auto
  show "evolves (cores s) (cores t)" unfolding t using k' assms(2) by (intro evolves_no_core) simp_all
  have "core_of (sv_slot t (HASH_ID n)) = k'" using arg_cong [OF t, of "\<lambda>c. snd c (HASH_ID n)"] by simp
  then show "sk_type (sv_slot t (HASH_ID n)) = kSocketTypeInvalid" using k' by (metis core_of_simps(2) no_core_def)
qed

text \<open>A slot without an open socket can be given up; a new socket gets its type.\<close>

lemma give_up_evolves:
  assumes "edits i (\<lambda>k. k\<lparr>co_type := kSocketTypeInvalid\<rparr>) m" and "m s = Inr (x, t)" and "idle (core_of (sv_slot s i))"
  shows "evolves (cores s) (cores t)"
  unfolding editsD [OF assms(1,2)]
  using assms(3) by (intro evolves_edit) (auto simp: sized_def idle_def lives_def)

lemma NewFd_then:
  assumes "NewFd n fd p opaque reading s = Inr (True, u)" and "sk_id (sv_slot s (HASH_ID n)) = n"
    and "edits (HASH_ID n) (\<lambda>k. k\<lparr>co_type := ty\<rparr>) m" and "m u = Inr (x, t)" and "p \<noteq> UNKNOWN" and "ty \<noteq> kSocketTypeReserve"
  shows "evolves (cores s) (cores t)"
proof -
  obtain k' where u: "cores u = put (HASH_ID n) k' (cores s)" and k': "new_core n p (core_of (sv_slot s (HASH_ID n))) k'"
    using NewFd_cores [OF assms(1)] by auto
  have "cores t = put (HASH_ID n) (k'\<lparr>co_type := ty\<rparr>) (cores s)"
    unfolding editsD [OF assms(3,4)] u by (simp add: edit_def)
  then show ?thesis using k' assms(2,5,6) by (metis evolves_open cores_simps(1) core_of_simps(1))
qed

lemma connect_loop_keeps [keeps_rules]: "keeps cores (connect_loop fs status e)"
proof (induction fs arbitrary: status e)
  case (Cons f fs)
  then show ?case unfolding connect_loop.simps Let_def by (intro keeps_rules)
qed (simp add: keeps_rules)

lemma connected_socket_edits: "edits (HASH_ID n) (\<lambda>k. k\<lparr>co_type := kSocketTypeConnected\<rparr>) (connected_socket n printed)"
  unfolding connected_socket_def by (rule edits_quiet(2) [OF set_type_edits]) (intro keeps_rules)

lemma connecting_socket_edits:
  assumes "connecting_socket n fd s = Inr (out, t)"
  shows "\<exists>ty \<in> {kSocketTypeInvalid, kSocketTypeConnecting}. \<exists>m. edits (HASH_ID n) (\<lambda>k. k\<lparr>co_type := ty\<rparr>) m \<and> m s = Inr (out, t)"
proof -
  let ?bad = "next_do (msg_data ''enable write failed'') (next_do (tell (OsClose fd))
      (next_do (set_type (HASH_ID n) kSocketTypeInvalid) (ret kSocketErr)))"
  let ?good = "next_do (set_type (HASH_ID n) kSocketTypeConnecting) (ret Ignored)"
  obtain failed u where e: "EnableWrite (HASH_ID n) True s = Inr (failed, u)" and r: "(if failed then ?bad else ?good) u = Inr (out, t)"
    using assms unfolding connecting_socket_def seq_iff by auto
  have bad: "edits (HASH_ID n) (\<lambda>k. k\<lparr>co_type := kSocketTypeInvalid\<rparr>) (seq (EnableWrite (HASH_ID n) True) (\<lambda>_. ?bad))"
    by (intro edits_quiet(1,3) edits_quiet(2) [OF set_type_edits] keeps_rules)
  have good: "edits (HASH_ID n) (\<lambda>k. k\<lparr>co_type := kSocketTypeConnecting\<rparr>) (seq (EnableWrite (HASH_ID n) True) (\<lambda>_. ?good))"
    by (intro edits_quiet(3) edits_quiet(2) [OF set_type_edits] keeps_rules)
  show ?thesis
  proof (cases failed)
    case True
    then have "seq (EnableWrite (HASH_ID n) True) (\<lambda>_. ?bad) s = Inr (out, t)" using e r by (auto simp: seq_iff)
    then show ?thesis using bad by blast
  next
    case False
    then have "seq (EnableWrite (HASH_ID n) True) (\<lambda>_. ?good) s = Inr (out, t)" using e r by (auto simp: seq_iff)
    then show ?thesis using good by blast
  qed
qed

lemma reserved_idle: "reserved_for n s \<Longrightarrow> idle (core_of (sv_slot s (HASH_ID n)))"
  by (simp add: reserved_for_def idle_def)

lemma reserved_cores: "cores u = cores s \<Longrightarrow> reserved_for n s \<Longrightarrow> reserved_for n u"
  unfolding reserved_for_def by (metis cores_eqD(1) core_of_simps(1,3))

text \<open>A request for a new socket: until \<open>NewFd\<close> the slot is not touched, afterwards it gets one type.\<close>

lemma opened:
  assumes "reserved_for n s" and "cores u = cores s" and "NewFd n fd p opaque reading u = Inr (True, v)"
    and "edits (HASH_ID n) (\<lambda>k. k\<lparr>co_type := ty\<rparr>) m" and "m v = Inr (x, t)" and "p \<noteq> UNKNOWN" and "ty \<noteq> kSocketTypeReserve"
  shows "evolves (cores s) (cores t)"
proof -
  have "sk_id (sv_slot u (HASH_ID n)) = n"
    using reserved_cores [OF assms(2,1)] by (simp add: reserved_for_def)
  from NewFd_then [OF assms(3) this assms(4-7)] show ?thesis using assms(2) by simp
qed

lemma refused:
  assumes "reserved_for n s" and "cores u = cores s" and "NewFd n fd p opaque reading u = Inr (False, v)"
    and "edits (HASH_ID n) (\<lambda>k. k\<lparr>co_type := kSocketTypeInvalid\<rparr>) m" and "m v = Inr (x, t)"
  shows "evolves (cores s) (cores t)"
proof -
  have "sk_id (sv_slot u (HASH_ID n)) = n"
    using reserved_cores [OF assms(2,1)] by (simp add: reserved_for_def)
  note refused = NewFd_refused [OF assms(3) this]
  have "evolves (cores v) (cores t)"
    using refused(2) by (intro give_up_evolves [OF assms(4,5)]) (simp add: idle_def)
  with refused(1) show ?thesis unfolding assms(2) by (rule evolves_trans)
qed

lemma refused_quiet:
  assumes "reserved_for n s" and "cores u = cores s" and "NewFd n fd p opaque reading u = Inr (False, v)"
    and "keeps cores m" and "m v = Inr (x, t)"
  shows "evolves (cores s) (cores t)"
proof -
  have "sk_id (sv_slot u (HASH_ID n)) = n"
    using reserved_cores [OF assms(2,1)] by (simp add: reserved_for_def)
  from NewFd_refused(1) [OF assms(3) this] show ?thesis using keepsD [OF assms(4,5)] assms(2) by simp
qed

lemma ListenSocket_evolves:
  assumes "ListenSocket n fd opaque s = Inr (x, t)" and "reserved_for n s"
  shows "evolves (cores s) (cores t)"
proof -
  let ?ask = "seq (ask (OsGetsockname fd)) (\<lambda>a.
                case (an_ret a = 0, an_name a) of
                  (True, Some text) \<Rightarrow>
                    next_do (msg (\<lambda>m. m\<lparr>pm_data := text, pm_ud := an_value a\<rparr>)) (ret kSocketOpen)
                | _ \<Rightarrow> next_do (seq (strerror (an_errno a)) msg_data) (ret kSocketErr))"
  let ?good = "next_do (set_type (HASH_ID n) kSocketTypePlisten)
           (next_do (msg (\<lambda>m. m\<lparr>pm_opaque := opaque, pm_id := n, pm_ud := 0, pm_data := ''listen''\<rparr>)) ?ask)"
  let ?bad = "next_do (tell (OsClose fd))
           (next_do (msg (\<lambda>m. m\<lparr>pm_opaque := opaque, pm_id := n, pm_ud := 0,
                 pm_data := ''reach skynet socket number limit''\<rparr>))
             (next_do (set_type (HASH_ID n) kSocketTypeInvalid) (ret kSocketErr)))"
  obtain made v where new: "NewFd n fd TCP opaque False s = Inr (made, v)" and rest: "(if \<not> made then ?bad else ?good) v = Inr (x, t)"
    using assms(1) unfolding ListenSocket_def seq_iff by blast
  show ?thesis
  proof (cases made)
    case True
    then have new': "NewFd n fd TCP opaque False s = Inr (True, v)" and rest': "?good v = Inr (x, t)"
      using new rest by simp_all
    have "keeps cores ?ask"
      by (intro keeps_seq core_view.quiet_ask) (auto intro!: keeps_rules split: bool.splits option.splits)
    then have "edits (HASH_ID n) (\<lambda>k. k\<lparr>co_type := kSocketTypePlisten\<rparr>) ?good"
      by (intro edits_quiet(2) [OF set_type_edits] keeps_next_do keeps_msg)
    then show ?thesis using rest' by (rule opened [OF assms(2) refl new']) simp_all
  next
    case False
    then have new': "NewFd n fd TCP opaque False s = Inr (False, v)" and rest': "?bad v = Inr (x, t)"
      using new rest by simp_all
    have "edits (HASH_ID n) (\<lambda>k. k\<lparr>co_type := kSocketTypeInvalid\<rparr>) ?bad"
      by (intro edits_quiet(1) edits_quiet(2) [OF set_type_edits] keeps_rules)
    then show ?thesis using rest' by (rule refused [OF assms(2) refl new'])
  qed
qed

lemma BindSocket_evolves:
  assumes "BindSocket n fd opaque s = Inr (x, t)" and "reserved_for n s"
  shows "evolves (cores s) (cores t)"
proof -
  let ?bad = "next_do (msg_data ''reach skynet socket number limit'') (ret kSocketErr)"
  let ?good = "next_do (EpollNonblocking fd) (next_do (set_type (HASH_ID n) kSocketTypeBind)
      (next_do (msg_data ''binding'') (ret kSocketOpen)))"
  obtain u made v where u: "msg (\<lambda>m. m\<lparr>pm_id := n, pm_opaque := opaque, pm_ud := 0\<rparr>) s = Inr ((), u)"
    and new: "NewFd n fd TCP opaque True u = Inr (made, v)" and rest: "(if \<not> made then ?bad else ?good) v = Inr (x, t)"
    using assms(1) unfolding BindSocket_def next_do_def seq_iff by auto
  have cu: "cores u = cores s" using keepsD [OF keeps_msg(1) u] .
  show ?thesis
  proof (cases made)
    case True
    then have new': "NewFd n fd TCP opaque True u = Inr (True, v)" and rest': "?good v = Inr (x, t)"
      using new rest by simp_all
    have "edits (HASH_ID n) (\<lambda>k. k\<lparr>co_type := kSocketTypeBind\<rparr>) ?good"
      by (intro edits_quiet(1) edits_quiet(2) [OF set_type_edits] keeps_rules)
    then show ?thesis using rest' by (rule opened [OF assms(2) cu new']) simp_all
  next
    case False
    then have new': "NewFd n fd TCP opaque True u = Inr (False, v)" and rest': "?bad v = Inr (x, t)"
      using new rest by simp_all
    have "keeps cores ?bad" by (intro keeps_rules)
    then show ?thesis using rest' by (rule refused_quiet [OF assms(2) cu new'])
  qed
qed

lemma quit_edits:
  assumes "keeps cores w"
  shows "edits (HASH_ID n) (\<lambda>k. k\<lparr>co_type := kSocketTypeInvalid\<rparr>)
    (next_do w (next_do (set_type (HASH_ID n) kSocketTypeInvalid) (ret kSocketErr)))"
  by (intro edits_quiet(1) [OF assms] edits_quiet(2) [OF set_type_edits] keeps_rules)

lemma quit_evolves:
  assumes "keeps cores w" and "next_do w (next_do (set_type (HASH_ID n) kSocketTypeInvalid) (ret kSocketErr)) v = Inr (x, t)"
    and "cores v = cores s" and "reserved_for n s"
  shows "evolves (cores s) (cores t)"
  using give_up_evolves [OF quit_edits [OF assms(1)] assms(2) reserved_idle [OF reserved_cores [OF assms(3,4)]]] assms(3)
  by simp

lemma connected_evolves:
  assumes "seq (NewFd n fd TCP opaque True) (\<lambda>made.
      if \<not> made then next_do (msg_data ''reach skynet socket number limit'')
        (next_do (set_type (HASH_ID n) kSocketTypeInvalid) (ret kSocketErr))
      else if status = 0 then connected_socket n printed else connecting_socket n fd) v = Inr (x, t)"
    and cv: "cores v = cores s" and r: "reserved_for n s"
  shows "evolves (cores s) (cores t)"
proof -
  let ?bad = "next_do (msg_data ''reach skynet socket number limit'')
      (next_do (set_type (HASH_ID n) kSocketTypeInvalid) (ret kSocketErr))"
  obtain made w where new: "NewFd n fd TCP opaque True v = Inr (made, w)"
    and f: "(if \<not> made then ?bad else if status = 0 then connected_socket n printed else connecting_socket n fd) w = Inr (x, t)"
    using assms(1) unfolding seq_iff by blast
  consider (none) "\<not> made" | (now) "made" "status = 0" | (soon) "made" "status \<noteq> 0" by blast
  then show ?thesis
  proof cases
    case none
    then have new': "NewFd n fd TCP opaque True v = Inr (False, w)" and f': "?bad w = Inr (x, t)" using new f by simp_all
    from quit_edits [OF keeps_msg(2)] f' show ?thesis by (rule refused [OF r cv new'])
  next
    case now
    then have new': "NewFd n fd TCP opaque True v = Inr (True, w)" and f': "connected_socket n printed w = Inr (x, t)"
      using new f by simp_all
    from connected_socket_edits f' show ?thesis by (rule opened [OF r cv new']) simp_all
  next
    case soon
    then have new': "NewFd n fd TCP opaque True v = Inr (True, w)" and f': "connecting_socket n fd w = Inr (x, t)"
      using new f by simp_all
    obtain ty m where ty: "ty \<noteq> kSocketTypeReserve" and m: "edits (HASH_ID n) (\<lambda>k. k\<lparr>co_type := ty\<rparr>) m" "m w = Inr (x, t)"
      using connecting_socket_edits [OF f'] by auto
    from m show ?thesis by (rule opened [OF r cv new']) (simp_all add: ty)
  qed
qed

lemma OpenSocket_evolves:
  assumes "OpenSocket n port opaque host s = Inr (x, t)" and "reserved_for n s"
  shows "evolves (cores s) (cores t)"
proof -
  let ?quit = "next_do (set_type (HASH_ID n) kSocketTypeInvalid) (ret kSocketErr)"
  let ?rest = "\<lambda>(fd, status, printed, e).
      if fd < 0 then next_do (seq (strerror e) msg_data) ?quit
      else seq (NewFd n fd TCP opaque True) (\<lambda>made.
        if \<not> made then next_do (msg_data ''reach skynet socket number limit'') ?quit
        else if status = 0 then connected_socket n printed else connecting_socket n fd)"
  obtain y1 u1 y2 u2 a u where m: "msg (\<lambda>m. m\<lparr>pm_opaque := opaque, pm_id := n, pm_ud := 0\<rparr>) s = Inr (y1, u1)"
      "msg_null u1 = Inr (y2, u2)" "ask (OsGetaddrinfo host port) u2 = Inr (a, u)"
    and r: "(if an_ret a \<noteq> 0
        then next_do (seq (look (\<lambda>s. pf_gai_strerror (sv_platform s) (an_ret a))) msg_data) ?quit
        else seq (connect_loop (an_families a) 0 (an_errno a)) ?rest) u = Inr (x, t)"
    using assms(1) unfolding OpenSocket_def next_do_def [of "msg _"] next_do_def [of msg_null] seq_iff by blast
  have cu: "cores u = cores s"
    using keepsD [OF keeps_msg(1) m(1)] keepsD [OF keeps_msg(3) m(2)] keepsD [OF core_view.quiet_ask m(3)] by simp
  show ?thesis
  proof (cases "an_ret a \<noteq> 0")
    case True
    then have "next_do (seq (look (\<lambda>s. pf_gai_strerror (sv_platform s) (an_ret a))) msg_data) ?quit u = Inr (x, t)"
      using r by simp
    then show ?thesis using cu assms(2) by (rule quit_evolves [rotated]) (intro keeps_rules)
  next
    case False
    then obtain fd status printed e v where v: "connect_loop (an_families a) 0 (an_errno a) u = Inr ((fd, status, printed, e), v)"
      and f: "?rest (fd, status, printed, e) v = Inr (x, t)"
      using r by (auto simp: seq_iff)
    have cv: "cores v = cores s" using keepsD [OF connect_loop_keeps v] cu by simp
    show ?thesis
    proof (cases "fd < 0")
      case True
      then have "next_do (seq (strerror e) msg_data) ?quit v = Inr (x, t)" using f by simp
      then show ?thesis using cv assms(2) by (rule quit_evolves [rotated]) (intro keeps_rules)
    next
      case False
      then have "seq (NewFd n fd TCP opaque True) (\<lambda>made.
          if \<not> made then next_do (msg_data ''reach skynet socket number limit'') ?quit
          else if status = 0 then connected_socket n printed else connecting_socket n fd) v = Inr (x, t)"
        using f by simp
      then show ?thesis using cv assms(2) by (rule connected_evolves)
    qed
  qed
qed

text \<open>A datagram socket is never made: \<open>std::get\<close> looks for an address where \<open>NewFd\<close> left a size.\<close>

lemma AddUDPSocket_refused:
  assumes "AddUDPSocket n fd v6 opaque s = Inr (x, t)"
  shows "\<exists>u. NewFd n fd (if v6 then UDPv6 else UDP) opaque True s = Inr (False, u) \<and>
    next_do (tell (OsClose fd)) (set_type (HASH_ID n) kSocketTypeInvalid) u = Inr (x, t)"
proof -
  let ?i = "HASH_ID n"
  obtain made u where new: "NewFd n fd (if v6 then UDPv6 else UDP) opaque True s = Inr (made, u)"
    and r: "(if \<not> made then next_do (tell (OsClose fd)) (set_type ?i kSocketTypeInvalid)
        else next_do (set_type ?i kSocketTypeConnected) (seq (get_address ?i) (\<lambda>_.
          upd ?i (\<lambda>k. k\<lparr>sk_p := UdpAddress (replicate kUdpAddressSize 0)\<rparr>)))) u = Inr (x, t)"
    using assms unfolding AddUDPSocket_def Let_def seq_iff by blast
  have "\<not> made"
  proof
    assume made
    then have "sk_p (sv_slot u ?i) = ReadSize MIN_READ_BUFFER" using NewFd_cores [OF new] by auto
    then show False using r \<open>made\<close> by (auto simp: next_do_iff seq_iff set_type_def act_basic_iff get_address_def)
  qed
  then show ?thesis using new r by auto
qed

lemma AddUDPSocket_evolves:
  assumes "AddUDPSocket n fd v6 opaque s = Inr (x, t)" and "reserved_for n s"
  shows "evolves (cores s) (cores t)"
proof -
  obtain u where new: "NewFd n fd (if v6 then UDPv6 else UDP) opaque True s = Inr (False, u)"
    and r: "next_do (tell (OsClose fd)) (set_type (HASH_ID n) kSocketTypeInvalid) u = Inr (x, t)"
    using AddUDPSocket_refused [OF assms(1)] by blast
  have "edits (HASH_ID n) (\<lambda>k. k\<lparr>co_type := kSocketTypeInvalid\<rparr>)
      (next_do (tell (OsClose fd)) (set_type (HASH_ID n) kSocketTypeInvalid))"
    by (intro edits_quiet(1) set_type_edits keeps_rules)
  then show ?thesis using r by (rule refused [OF assms(2) refl new])
qed

section \<open>Ids, resuming and pausing\<close>

lemma reserve_loop_evolves: "reserve_loop k s = Inr (x, t) \<Longrightarrow> evolves (cores s) (cores t)"
proof (induction k arbitrary: s)
  case 0
  then show ?case by (simp add: act_basic_iff)
next
  case (Suc k)
  let ?old = "sv_alloc_id s"
  define n where "n = (if ?old + 1 < 0 then (?old + 1) mod 2 ^ 31 else ?old + 1)"
  let ?u = "s\<lparr>sv_alloc_id := n\<rparr>"
  let ?k = "(sv_slot s (HASH_ID n))\<lparr>sk_type := kSocketTypeReserve, sk_id := n, sk_protocol := UNKNOWN,
      sk_udpconnecting := 0, sk_fd := - 1\<rparr>"
  have u: "evolves (cores s) (cores ?u)"
    by (fastforce simp: evolves_def later_def all_sized_def placed_def cores_def n_def)
  show ?case
  proof (cases "sk_type (sv_slot s (HASH_ID n)) = kSocketTypeInvalid")
    case True
    then have t: "t = ?u\<lparr>sv_slot := (sv_slot s)(HASH_ID n := ?k)\<rparr>"
      using Suc.prems by (auto simp: seq_iff next_do_iff act_basic_iff Let_def n_def [symmetric] split: if_splits)
    show ?thesis unfolding evolves_def
    proof (intro impI)
      assume s: "all_sized (cores s) \<and> 0 \<le> fst (cores s)"
      then have n: "n = ?old + 1" by (simp add: n_def)
      have ct: "cores t = (n, (snd (cores s))(HASH_ID n := core_of ?k))" by (auto simp: t cores_def)
      have "sized (core_of ?k)"
        using s True by (auto simp: all_sized_def sized_def idle_def core_of_def dest: spec [of _ "HASH_ID n"])
      then show "all_sized (cores t) \<and> 0 \<le> fst (cores t) \<and> later (cores s) (cores t)"
        using s n by (fastforce simp: ct all_sized_def placed_def later_def)
    qed
  next
    case False
    then have "reserve_loop k ?u = Inr (x, t)"
      using Suc.prems by (auto simp: seq_iff next_do_iff act_basic_iff Let_def n_def [symmetric] split: if_splits)
    from Suc.IH [OF this] u show ?thesis by (rule evolves_trans [rotated])
  qed
qed

lemma evolving_ReserveId [evolving_rules]: "evolving ReserveId"
  unfolding evolving_def ReserveId_def using reserve_loop_evolves by blast

text \<open>The id that was found belongs to a slot that waits for it.\<close>

lemma reserve_loop_reserved: "reserve_loop k s = Inr (n, t) \<Longrightarrow> 0 \<le> n \<Longrightarrow> reserved_for n t"
  by (induction k arbitrary: s)
    (auto simp: seq_iff next_do_iff act_basic_iff Let_def reserved_for_def split: if_splits)

lemma ReserveId_reserved: "ReserveId s = Inr (n, t) \<Longrightarrow> 0 \<le> n \<Longrightarrow> reserved_for n t"
  unfolding ReserveId_def by (rule reserve_loop_reserved)

lemma retype_evolving:
  assumes "start_socket n opaque s = Inr (x, t)"
  shows "evolves (cores s) (cores t)"
proof -
  let ?k = "sv_slot s (HASH_ID n)"
  have rest: "evolving (next_do (upd (HASH_ID n) (\<lambda>k. k\<lparr>sk_opaque := opaque\<rparr>)) (next_do (msg_data err) (ret out)))" for err out
    by (intro keeps_evolving keeps_rules)
  consider (new) ty u where "sk_type ?k = kSocketTypeIPaccept \<or> sk_type ?k = kSocketTypePlisten"
      "ty \<noteq> kSocketTypeReserve" "ty \<noteq> kSocketTypeInvalid" "set_type (HASH_ID n) ty s = Inr ((), u)"
      "next_do (upd (HASH_ID n) (\<lambda>k. k\<lparr>sk_opaque := opaque\<rparr>)) (next_do (msg_data ''start'') (ret kSocketOpen)) u = Inr (x, t)"
    | (same) "next_do (upd (HASH_ID n) (\<lambda>k. k\<lparr>sk_opaque := opaque\<rparr>)) (next_do (msg_data ''transfer'') (ret kSocketOpen)) s = Inr (x, t)"
    | "t = s"
    using assms unfolding start_socket_def Let_def seq_iff act_basic_iff
    by (auto simp: next_do_iff [of "set_type _ _"] act_basic_iff split: if_splits)
  then show ?thesis
  proof cases
    case new
    then have "evolves (cores s) (cores u)" by (intro retype_open [OF _ _ _ _ new(4)]) (auto simp: shut_def)
    then show ?thesis using evolvingD [OF rest new(5)] by (rule evolves_trans)
  next
    case same
    then show ?thesis by (rule evolvingD [OF rest])
  qed simp
qed

lemma evolving_start_socket [evolving_rules]: "evolving (start_socket n opaque)"
  unfolding evolving_def using retype_evolving by blast

lemma evolving_ResumeSocket: "evolving (ResumeSocket n opaque)"
  unfolding ResumeSocket_def Let_def
  by (intro evolving_rules) (auto intro!: keeps_evolving keeps_rules)

lemma evolving_PauseSocket: "evolving (PauseSocket n)"
  unfolding PauseSocket_def ReportError_def by (intro keeps_evolving keeps_rules)

lemma gives_resume_pause: "gives (\<lambda>r. r \<noteq> kSocketClose) (ResumeSocket n opaque)" "gives (\<lambda>r. r \<noteq> kSocketClose) (PauseSocket n)"
  unfolding ResumeSocket_def start_socket_def PauseSocket_def ReportError_def Let_def by (intro gives_rules; simp)+

end
