(* ===== verification/SocketFlow.thy ===== *)
theory SocketFlow
  imports SocketWork
begin

text \<open>
  Sending in \<open>skynet-src/socket_server.cpp\<close> stays within \<open>evolves\<close>: whatever is taken from the lists of
  a socket, or put there, is taken from or added to \<open>wb_size\<close>.
\<close>

section \<open>Sizes of lists\<close>

definition total :: "write_buffer list \<Rightarrow> u64" where
  "total ws = sum_list (map wb_sz ws)"

lemma total_simps [simp]: "total [] = 0" "total (w # ws) = wb_sz w + total ws" "total (us @ ws) = total us + total ws"
  by (simp_all add: total_def)

lemma queued_total: "queued k = total (co_high k) + total (co_low k)"
  by (simp add: queued_def total_def)

definition core_list :: "bool \<Rightarrow> core \<Rightarrow> write_buffer list" where
  "core_list high k = (if high then co_high k else co_low k)"

text \<open>A list is replaced and \<open>wb_size\<close> corrected by \<open>d\<close>.\<close>

definition relist :: "bool \<Rightarrow> write_buffer list \<Rightarrow> int \<Rightarrow> core \<Rightarrow> core" where
  "relist high ws d k = (if high then k\<lparr>co_high := ws, co_wb_size := signed_take_bit 63 (co_wb_size k + d)\<rparr>
     else k\<lparr>co_low := ws, co_wb_size := signed_take_bit 63 (co_wb_size k + d)\<rparr>)"

lemma sint_add: "signed_take_bit 63 (sint (a :: u64) + d) = sint (a + word_of_int d)"
proof -
  have "sint (word_of_int (sint a + d) :: u64) = signed_take_bit 63 (sint a + d)"
    by (subst sint_sbintrunc') simp
  then show ?thesis by simp
qed

lemma sized_relist:
  assumes "sized k" and "\<not> idle k" and "word_of_int d = total ws - total (core_list high k)"
  shows "sized (relist high ws d k) \<and> lives k (relist high ws d k)"
proof
  have "co_wb_size k = sint (queued k)" using assms(1,2) by (simp add: sized_def)
  then have "signed_take_bit 63 (co_wb_size k + d) = sint (queued k + word_of_int d)" by (simp add: sint_add)
  moreover have "queued k + word_of_int d = queued (relist high ws d k)"
    using assms(3) by (simp add: queued_total relist_def core_list_def)
  ultimately have "co_wb_size (relist high ws d k) = sint (queued (relist high ws d k))" by (simp add: relist_def)
  moreover have "co_type (relist high ws d k) = co_type k" "co_protocol (relist high ws d k) = co_protocol k"
    by (simp_all add: relist_def)
  ultimately show "sized (relist high ws d k)" using assms(1,2) unfolding sized_def idle_def by simp
  show "lives k (relist high ws d k)" by (simp add: lives_def relist_def)
qed

lemma busy_not_idle: "sized k \<Longrightarrow> core_list high k \<noteq> [] \<Longrightarrow> \<not> idle k"
  by (auto simp: sized_def core_list_def split: if_splits)

lemma relist_edits: "edits i (relist high ws d) (next_do (add_size i d) (set_wlist high i ws))"
proof -
  have "edits i (\<lambda>k. k\<lparr>co_wb_size := signed_take_bit 63 (co_wb_size k + d)\<rparr>) (add_size i d)"
    unfolding add_size_def by (rule edits_upd) simp
  moreover have "edits i (\<lambda>k. if high then k\<lparr>co_high := ws\<rparr> else k\<lparr>co_low := ws\<rparr>) (set_wlist high i ws)"
    unfolding set_wlist_def by (rule edits_upd) simp
  ultimately have "edits i (\<lambda>k. if high then k\<lparr>co_wb_size := signed_take_bit 63 (co_wb_size k + d), co_high := ws\<rparr>
      else k\<lparr>co_wb_size := signed_take_bit 63 (co_wb_size k + d), co_low := ws\<rparr>) (next_do (add_size i d) (set_wlist high i ws))"
    by (rule edits_next_do)
  moreover have "(\<lambda>k. if high then k\<lparr>co_wb_size := signed_take_bit 63 (co_wb_size k + d), co_high := ws\<rparr>
      else k\<lparr>co_wb_size := signed_take_bit 63 (co_wb_size k + d), co_low := ws\<rparr>) = relist high ws d"
    by (simp add: relist_def fun_eq_iff)
  ultimately show ?thesis by simp
qed

lemma core_list_wlist: "core_list high (core_of k) = wlist high k"
  by (simp add: core_list_def wlist_def)

text \<open>The step that both loops over a list take.\<close>

lemma relist_evolves:
  assumes "cores t = edit i (relist high ws d) (cores s)" and "wlist high (sv_slot s i) = w # us"
    and "word_of_int d = total ws - total (w # us)"
  shows "evolves (cores s) (cores t)"
  unfolding assms(1)
proof (rule evolves_edit)
  assume "sized (snd (cores s) i)"
  then show "sized (relist high ws d (snd (cores s) i)) \<and> lives (snd (cores s) i) (relist high ws d (snd (cores s) i))"
    using assms(2,3) busy_not_idle [of "core_of (sv_slot s i)" high]
    by (intro sized_relist) (simp_all add: core_list_wlist)
qed

section \<open>Writing the lists\<close>

lemma sent_evolves:
  assumes "wlist high (sv_slot s i) = w # us" and "cores r = cores s" and "add_size i d r = Inr (x, r1)"
    and "set_wlist high i ws r1 = Inr (y, t)" and "word_of_int d = total ws - total (w # us)"
  shows "evolves (cores s) (cores t)"
proof -
  have "next_do (add_size i d) (set_wlist high i ws) r = Inr (y, t)" using assms(3,4) by (auto simp: next_do_iff)
  then have "cores t = edit i (relist high ws d) (cores s)" using editsD [OF relist_edits] assms(2) by metis
  then show ?thesis using assms(1,5) by (rule relist_evolves)
qed

lemma failed_write_evolves:
  assumes "wlist high (sv_slot s i) = w # us" and "CloseWrite i e r = Inr (x, t)" and "cores r = cores s"
    and "sv_slot r = sv_slot s"
  shows "evolves (cores s) (cores t)"
proof (rule evolves_if_sized [where i = i])
  assume "sized (snd (cores s) i)"
  then have "sk_type (sv_slot s i) \<noteq> kSocketTypeInvalid"
    using busy_not_idle [of "core_of (sv_slot s i)" high] assms(1) by (simp add: core_list_wlist idle_def)
  then show "evolves (cores s) (cores t)" using CloseWrite_evolves [OF assms(2)] assms(3,4) by simp
qed

lemma SendListTCP_evolves: "SendListTCP high i s = Inr (x, t) \<Longrightarrow> evolves (cores s) (cores t)"
proof (induction "length (sv_answers s)" arbitrary: s rule: less_induct)
  case less
  let ?k = "sv_slot s i"
  show ?case
  proof (cases "wlist high ?k")
    case Nil
    then show ?thesis using less.prems by (simp add: SendListTCP.simps seq_iff act_basic_iff)
  next
    case (Cons w ws)
    obtain a s1 where a: "ask (OsWrite (sk_fd ?k) (wb_ptr w) (wb_sz w)) s = Inr (a, s1)"
      and rest: "(if an_ret a < 0 then
              if an_errno a = EINTR then SendListTCP high i s1
              else if an_errno a = EAGAIN then ret Ignored s1
              else CloseWrite i (an_errno a) s1
            else
              seq (StatWrite i (an_ret a)) (\<lambda>_.
              seq (add_size i (- an_ret a)) (\<lambda>_ s.
                if word_of_int (an_ret a) \<noteq> wb_sz w then
                  next_do (set_wlist high i (w\<lparr>wb_ptr := (fst (wb_ptr w), snd (wb_ptr w) + an_ret a),
                      wb_sz := wb_sz w - word_of_int (an_ret a)\<rparr> # ws)) (ret Ignored) s
                else seq (set_wlist high i ws) (\<lambda>_. SendListTCP high i) s)) s1) = Inr (x, t)"
      using less.prems Cons unfolding SendListTCP.simps [of high i s] by (auto simp: seq_iff act_basic_iff)
    have c1: "cores s1 = cores s" using keepsD [OF core_view.quiet_ask a] .
    have l1: "length (sv_answers s1) < length (sv_answers s)" using ask_shrinks [OF a] .
    have slot1: "sv_slot s1 = sv_slot s" using a by (auto simp: ask_iff)
    show ?thesis
    proof (cases "an_ret a < 0")
      case True
      show ?thesis
      proof (cases "an_errno a = EINTR \<or> an_errno a = EAGAIN")
        case True
        then show ?thesis using \<open>an_ret a < 0\<close> rest less.hyps [OF l1] c1 by (auto simp: act_basic_iff split: if_splits)
      next
        case False
        then have f: "CloseWrite i (an_errno a) s1 = Inr (x, t)" using \<open>an_ret a < 0\<close> rest by auto
        from Cons this c1 slot1 show ?thesis by (rule failed_write_evolves)
      qed
    next
      case False
      then obtain s2 s3 where s2: "StatWrite i (an_ret a) s1 = Inr ((), s2)" and s3: "add_size i (- an_ret a) s2 = Inr ((), s3)"
        and f: "(if word_of_int (an_ret a) \<noteq> wb_sz w then
                  next_do (set_wlist high i (w\<lparr>wb_ptr := (fst (wb_ptr w), snd (wb_ptr w) + an_ret a),
                      wb_sz := wb_sz w - word_of_int (an_ret a)\<rparr> # ws)) (ret Ignored) s3
                else seq (set_wlist high i ws) (\<lambda>_. SendListTCP high i) s3) = Inr (x, t)"
        using rest by (auto simp: seq_iff)
      have c2: "cores s2 = cores s" using keepsD [OF core_view.quiet_stat(2) s2] c1 by simp
      have l2: "length (sv_answers s3) < length (sv_answers s)"
        using l1 quiet(4) [OF s2] quiet(5) [OF s3] by simp
      show ?thesis
      proof (cases "word_of_int (an_ret a) = wb_sz w")
        case True
        then obtain s4 where s4: "set_wlist high i ws s3 = Inr ((), s4)" and again: "SendListTCP high i s4 = Inr (x, t)"
          using f by (auto simp: seq_iff)
        have "evolves (cores s) (cores s4)" using True by (intro sent_evolves [OF Cons c2 s3 s4]) simp
        moreover have "evolves (cores s4) (cores t)"
          using l2 quiet(6) [OF s4] by (intro less.hyps [OF _ again]) simp
        ultimately show ?thesis by (rule evolves_trans)
      next
        case False
        then have "set_wlist high i (w\<lparr>wb_ptr := (fst (wb_ptr w), snd (wb_ptr w) + an_ret a),
            wb_sz := wb_sz w - word_of_int (an_ret a)\<rparr> # ws) s3 = Inr ((), t)"
          using f by (auto simp: next_do_iff act_basic_iff)
        then show ?thesis by (rule sent_evolves [OF Cons c2 s3]) simp
      qed
    qed
  qed
qed

lemma SendListTCP_result: "SendListTCP high i s = Inr (x, t) \<Longrightarrow> x \<noteq> kSocketClose"
proof (induction "length (sv_answers s)" arbitrary: s rule: less_induct)
  case less
  show ?case
  proof (cases "wlist high (sv_slot s i)")
    case Nil
    then show ?thesis using less.prems by (simp add: SendListTCP.simps seq_iff act_basic_iff)
  next
    case (Cons w ws)
    moreover have "\<forall>u. SendListTCP high i u = Inr (x, t) \<longrightarrow> length (sv_answers u) < length (sv_answers s) \<longrightarrow> x \<noteq> kSocketClose"
      using less.hyps by blast
    ultimately show ?thesis using less.prems unfolding SendListTCP.simps [of high i s]
      by (auto simp: seq_iff next_do_iff act_basic_iff split: if_splits
          dest!: ask_shrinks quiet dest: givesD [OF gives_CloseWrite])
  qed
qed

lemma DropUDP_evolves:
  assumes "DropUDP high i w ws r = Inr (x, t)" and "wlist high (sv_slot s i) = w # ws" and "cores r = cores s"
  shows "evolves (cores s) (cores t)"
proof -
  obtain r1 where "add_size i (- uint (wb_sz w)) r = Inr ((), r1)" "set_wlist high i ws r1 = Inr ((), t)"
    using assms(1) by (auto simp: DropUDP_def next_do_iff act_basic_iff)
  then show ?thesis by (rule sent_evolves [OF assms(2,3)]) simp
qed

lemma SendListUDP_evolves: "SendListUDP high i s = Inr (x, t) \<Longrightarrow> evolves (cores s) (cores t) \<and> x = Ignored"
proof (induction "length (sv_answers s)" arbitrary: s rule: less_induct)
  case less
  let ?k = "sv_slot s i"
  show ?case
  proof (cases "wlist high ?k")
    case Nil
    then show ?thesis using less.prems by (simp add: SendListUDP.simps seq_iff act_basic_iff)
  next
    case (Cons w ws)
    then obtain r where rest: "(case r of
               None \<Rightarrow> DropUDP high i w ws s
             | Some sa \<Rightarrow>
                 seq (ask (OsSendto (sk_fd ?k) (wb_ptr w) (wb_sz w) sa)) (\<lambda>a s.
                   if an_ret a < 0 then
                     if an_errno a = EINTR \<or> an_errno a = EAGAIN then ret Ignored s else DropUDP high i w ws s
                   else
                     seq (StatWrite i (uint (wb_sz w))) (\<lambda>_.
                     seq (add_size i (- uint (wb_sz w))) (\<lambda>_.
                     seq (set_wlist high i ws) (\<lambda>_. SendListUDP high i))) s) s) = Inr (x, t)"
      using less.prems unfolding SendListUDP.simps [of high i s] by (auto simp: seq_iff act_basic_iff lift_res_iff)
    have drop: "evolves (cores s) (cores t) \<and> x = Ignored" if "DropUDP high i w ws u = Inr (x, t)" "cores u = cores s" for u
      using DropUDP_evolves [OF that(1) Cons that(2)] that(1) by (auto simp: DropUDP_def next_do_iff act_basic_iff)
    show ?thesis
    proof (cases r)
      case None
      then show ?thesis using rest drop by simp
    next
      case (Some sa)
      then obtain a s1 where a: "ask (OsSendto (sk_fd ?k) (wb_ptr w) (wb_sz w) sa) s = Inr (a, s1)"
        and f: "(if an_ret a < 0 then
            if an_errno a = EINTR \<or> an_errno a = EAGAIN then ret Ignored s1 else DropUDP high i w ws s1
          else seq (StatWrite i (uint (wb_sz w))) (\<lambda>_. seq (add_size i (- uint (wb_sz w))) (\<lambda>_.
            seq (set_wlist high i ws) (\<lambda>_. SendListUDP high i))) s1) = Inr (x, t)"
        using rest by (auto simp: seq_iff)
      have c1: "cores s1 = cores s" using keepsD [OF core_view.quiet_ask a] .
      show ?thesis
      proof (cases "an_ret a < 0")
        case True
        then show ?thesis using f c1 drop by (auto simp: act_basic_iff split: if_splits)
      next
        case False
        then obtain s2 s3 s4 where s2: "StatWrite i (uint (wb_sz w)) s1 = Inr ((), s2)"
          and s3: "add_size i (- uint (wb_sz w)) s2 = Inr ((), s3)" and s4: "set_wlist high i ws s3 = Inr ((), s4)"
          and again: "SendListUDP high i s4 = Inr (x, t)"
          using f by (auto simp: seq_iff)
        have "cores s2 = cores s" using keepsD [OF core_view.quiet_stat(2) s2] c1 by simp
        then have "evolves (cores s) (cores s4)" by (rule sent_evolves [OF Cons _ s3 s4]) simp
        moreover have "length (sv_answers s4) < length (sv_answers s)"
          using ask_shrinks [OF a] quiet(4) [OF s2] quiet(5) [OF s3] quiet(6) [OF s4] by simp
        ultimately show ?thesis using less.hyps [OF _ again] evolves_trans by blast
      qed
    qed
  qed
qed

lemma evolving_SendList [evolving_rules]: "evolving (SendList high i)"
  unfolding evolving_def SendList_def using SendListTCP_evolves SendListUDP_evolves
  by (auto simp: seq_iff act_basic_iff split: if_splits)

lemma gives_SendList [gives_rules]: "gives (\<lambda>x. x \<noteq> kSocketClose) (SendList high i)"
  unfolding gives_def SendList_def
  by (auto simp: seq_iff act_basic_iff split: if_splits dest: SendListTCP_result SendListUDP_evolves)

lemma RaiseUncomplete_evolves:
  assumes "RaiseUncomplete i s = Inr (x, t)"
  shows "evolves (cores s) (cores t)"
proof -
  let ?k = "sv_slot s i"
  obtain w ws where low: "sk_low ?k = w # ws" "sk_high ?k = []"
    and t: "t = s\<lparr>sv_slot := (sv_slot s)(i := ?k\<lparr>sk_low := ws, sk_high := [w]\<rparr>)\<rparr>"
    using assms unfolding RaiseUncomplete_def
    by (auto simp: seq_iff next_do_iff act_basic_iff set_wlist_def split: list.splits)
  have "cores t = put i ((core_of ?k)\<lparr>co_low := ws, co_high := [w]\<rparr>) (cores s)" by (simp add: t cores_upd)
  moreover have "evolves (cores s) (put i ((core_of ?k)\<lparr>co_low := ws, co_high := [w]\<rparr>) (cores s))"
    using low by (intro evolves_put) (auto simp: sized_def idle_def queued_total lives_def split: if_splits)
  ultimately show ?thesis by simp
qed

lemma evolving_RaiseUncomplete [evolving_rules]: "evolving (RaiseUncomplete i)"
  unfolding evolving_def using RaiseUncomplete_evolves by blast

lemma evolving_lists_empty [evolving_rules]: "evolving (lists_empty i)"
  unfolding lists_empty_def ReportError_def
  by (intro evolving_rules) (auto intro!: keeps_evolving keeps_rules)

lemma gives_lists_empty [gives_rules]: "gives (\<lambda>x. x \<noteq> kSocketClose) (lists_empty i)"
  unfolding lists_empty_def ReportError_def by (intro gives_rules) simp_all

lemma keeps_ListUncomplete [keeps_rules]: "keeps cores (ListUncomplete ws)"
  unfolding ListUncomplete_def by (auto intro!: keeps_rules split: list.splits)

lemma evolving_SendBuffer_step [evolving_rules]: "evolving (SendBuffer_step i)"
  unfolding SendBuffer_step_def
  by (intro evolving_rules) (auto intro!: keeps_evolving keeps_rules)

lemma gives_SendBuffer_step [gives_rules]: "gives (\<lambda>x. x \<noteq> kSocketClose) (SendBuffer_step i)"
  unfolding SendBuffer_step_def by (intro gives_rules) simp_all

section \<open>Adding to the lists\<close>

lemma relist_busy_evolves:
  assumes "cores t = edit i (relist high ws d) (cores s)" and "\<not> idle (core_of (sv_slot s i))"
    and "word_of_int d = total ws - total (wlist high (sv_slot s i))"
  shows "evolves (cores s) (cores t)"
  unfolding assms(1)
proof (rule evolves_edit)
  assume "sized (snd (cores s) i)"
  then show "sized (relist high ws d (snd (cores s) i)) \<and> lives (snd (cores s) i) (relist high ws d (snd (cores s) i))"
    using assms(2,3) by (intro sized_relist) (simp_all add: core_list_wlist)
qed

lemma append_evolves:
  assumes "next_do (AppendSendbuffer_node high i sz b) (add_size i (uint sz)) s = Inr (x, t)"
    and "\<not> idle (core_of (sv_slot s i))"
  shows "evolves (cores s) (cores t)"
proof -
  let ?k = "sv_slot s i" and ?w = "\<lparr>wb_buffer = b, wb_ptr = (b, 0), wb_sz = sz\<rparr>"
  obtain s1 s2 where u: "unset_pointer s = Inr ((), s1)" and s2: "set_wlist high i (wlist high (sv_slot s1 i) @ [?w]) s1 = Inr ((), s2)"
    and t: "add_size i (uint sz) s2 = Inr (x, t)"
    using assms(1) by (auto simp: AppendSendbuffer_node_def next_do_iff seq_iff act_basic_iff)
  have s1: "s1 = s" using u by (auto simp: unset_pointer_def seq_iff act_iff)
  have "cores t = edit i (relist high (wlist high ?k @ [?w]) (uint sz)) (cores s)"
    using s2 t unfolding s1 by (auto simp: set_wlist_def add_size_def act_iff cores_upd edit_def relist_def)
  then show ?thesis using assms(2) by (rule relist_busy_evolves) simp
qed

lemma appended_evolves:
  "AppendSendbuffer i sz b s = Inr (x, t) \<Longrightarrow> \<not> idle (core_of (sv_slot s i)) \<Longrightarrow> evolves (cores s) (cores t)"
  "AppendSendbufferLow i sz b s = Inr (x, t) \<Longrightarrow> \<not> idle (core_of (sv_slot s i)) \<Longrightarrow> evolves (cores s) (cores t)"
  "AppendSendbufferUdp high i sz b s = Inr (x, t) \<Longrightarrow> \<not> idle (core_of (sv_slot s i)) \<Longrightarrow> evolves (cores s) (cores t)"
  unfolding AppendSendbuffer_def AppendSendbufferLow_def AppendSendbufferUdp_def by (erule append_evolves, assumption)+

lemma take_direct_evolves:
  assumes "take_direct i s = Inr (x, t)"
  shows "evolves (cores s) (cores t)"
proof (cases "sk_dw_buffer (sv_slot s i) = 0")
  case True
  then show ?thesis using assms by (simp add: take_direct_def seq_iff act_iff)
next
  case False
  let ?k = "sv_slot s i"
  let ?w = "\<lparr>wb_buffer = sk_dw_buffer ?k, wb_ptr = (sk_dw_buffer ?k, sk_dw_offset ?k),
      wb_sz = sk_dw_size ?k - word_of_int (sk_dw_offset ?k)\<rparr>"
  let ?f = "\<lambda>k. (relist True (?w # sk_high ?k) (uint (wb_sz ?w)) k)\<lparr>co_dw_buffer := 0\<rparr>"
  have t: "cores t = edit i ?f (cores s)"
    using assms False
    by (auto simp: take_direct_def Let_def add_size_def act_iff cores_upd edit_def relist_def
        intro!: arg_cong [where f = "\<lambda>k. put i k (cores s)"] core.equality)
  show ?thesis unfolding t
  proof (rule evolves_edit)
    assume sized: "sized (snd (cores s) i)"
    then have busy: "\<not> idle (core_of ?k)" using False by (auto simp: sized_def)
    then have "sized (relist True (?w # sk_high ?k) (uint (wb_sz ?w)) (core_of ?k)) \<and>
        lives (core_of ?k) (relist True (?w # sk_high ?k) (uint (wb_sz ?w)) (core_of ?k))"
      using sized by (intro sized_relist) (simp_all add: core_list_wlist wlist_def)
    then show "sized (?f (snd (cores s) i)) \<and> lives (snd (cores s) i) (?f (snd (cores s) i))"
      using busy by (auto simp: sized_def idle_def queued_def lives_def relist_def)
  qed
qed

lemma evolving_take_direct [evolving_rules]: "evolving (take_direct i)"
  unfolding evolving_def using take_direct_evolves by blast

lemma evolving_SendBuffer [evolving_rules]: "evolving (SendBuffer i)"
  unfolding SendBuffer_def
  by (intro evolving_rules) (auto intro!: keeps_evolving keeps_rules)

lemma gives_SendBuffer [gives_rules]: "gives (\<lambda>x. x \<noteq> kSocketClose) (SendBuffer i)"
  unfolding gives_def SendBuffer_def
  by (auto simp: seq_iff next_do_iff act_basic_iff split: if_splits dest: givesD [OF gives_SendBuffer_step])

section \<open>The socket thread's side of a send\<close>

lemma UDPSocketAddress_protocol: "UDPSocketAddress k a = Inr (Some sa) \<Longrightarrow> sk_protocol k \<in> {UDP, UDPv6}"
  by (cases "sk_protocol k") (auto simp: UDPSocketAddress_def bindR_Inr_iff split: if_splits)

lemma evolving_enable_report [evolving_rules]:
  "evolving (seq (EnableWrite i True) (\<lambda>failed. if failed then seq (ReportError i err) (\<lambda>r. ret (Some r)) else ret None))"
  unfolding ReportError_def by (intro keeps_evolving keeps_rules)

text \<open>The branch of \<open>send_idle\<close> for datagrams.\<close>

lemma datagram_evolves:
  assumes "seq (case address of Some a \<Rightarrow> ret a | None \<Rightarrow> get_address i) (\<lambda>a.
            seq (lift_res (UDPSocketAddress (sv_slot s i) a)) (\<lambda>sa.
              case sa of
                None \<Rightarrow> next_do (log_error err) (next_do (tell (Delete b)) (ret True))
              | Some sa \<Rightarrow>
                  seq (ask (OsSendto (sk_fd (sv_slot s i)) (b, 0) sz sa)) (\<lambda>r.
                    if word_of_int (an_ret r) \<noteq> sz then next_do (AppendSendbufferUdp high i sz b) (ret False)
                    else next_do (StatWrite i (an_ret r)) (next_do (tell (Delete b)) (ret True))))) s = Inr (x, t)"
    and "sk_type (sv_slot s i) \<noteq> kSocketTypeInvalid"
  shows "evolves (cores s) (cores t)"
proof -
  let ?k = "sv_slot s i"
  obtain a sa u where u: "(case address of Some a \<Rightarrow> ret a | None \<Rightarrow> get_address i) s = Inr (a, u)"
    and sa: "UDPSocketAddress ?k a = Inr sa"
    and f: "(case sa of None \<Rightarrow> next_do (log_error err) (next_do (tell (Delete b)) (ret True))
      | Some sa \<Rightarrow> seq (ask (OsSendto (sk_fd ?k) (b, 0) sz sa)) (\<lambda>r.
          if word_of_int (an_ret r) \<noteq> sz then next_do (AppendSendbufferUdp high i sz b) (ret False)
          else next_do (StatWrite i (an_ret r)) (next_do (tell (Delete b)) (ret True)))) u = Inr (x, t)"
    using assms(1) by (auto simp: seq_iff lift_res_iff)
  have "keeps cores (case address of Some a \<Rightarrow> ret a | None \<Rightarrow> get_address i)" by (intro keeps_rules)
  from keepsD [OF this u] have cu: "cores u = cores s" .
  show ?thesis
  proof (cases sa)
    case None
    then show ?thesis using f cu by (auto simp: log_error_def act_iff)
  next
    case (Some address)
    then obtain v c where ask: "ask (OsSendto (sk_fd ?k) (b, 0) sz address) u = Inr (c, v)"
      and g: "(if word_of_int (an_ret c) \<noteq> sz then next_do (AppendSendbufferUdp high i sz b) (ret False)
          else next_do (StatWrite i (an_ret c)) (next_do (tell (Delete b)) (ret True))) v = Inr (x, t)"
      using f by (auto simp: seq_iff)
    have cv: "cores v = cores s" using keepsD [OF core_view.quiet_ask ask] cu by simp
    have busy: "\<not> idle (core_of (sv_slot v i))"
      using UDPSocketAddress_protocol [of ?k] sa Some assms(2) cores_eqD(1) [OF cv, of i] by (auto simp: idle_def)
    have quiet: "keeps cores (next_do (StatWrite i (an_ret c)) (next_do (tell (Delete b)) (ret True)))" by (intro keeps_rules)
    have "evolves (cores v) (cores t)"
    proof (cases "word_of_int (an_ret c) = sz")
      case True
      then have "next_do (StatWrite i (an_ret c)) (next_do (tell (Delete b)) (ret True)) v = Inr (x, t)" using g by simp
      from keepsD [OF quiet this] show ?thesis by simp
    next
      case False
      then have "AppendSendbufferUdp high i sz b v = Inr ((), t)" using g by (auto simp: next_do_iff act_basic_iff)
      then show ?thesis using busy by (rule appended_evolves)
    qed
    then show ?thesis using cv by simp
  qed
qed

lemma send_idle_evolves:
  assumes "send_idle i sz b high address s = Inr (x, t)" and "sk_type (sv_slot s i) \<noteq> kSocketTypeInvalid"
  shows "evolves (cores s) (cores t)"
proof -
  let ?k = "sv_slot s i"
  let ?udp = "seq (case address of Some a \<Rightarrow> ret a | None \<Rightarrow> get_address i) (\<lambda>a.
            seq (lift_res (UDPSocketAddress ?k a)) (\<lambda>sa.
              case sa of
                None \<Rightarrow>
                  next_do (log_error (''socket-server: udp socket ('' @ to_string (sk_id ?k) @ '') type mismatch.''))
                    (next_do (tell (Delete b)) (ret True))
              | Some sa \<Rightarrow>
                  seq (ask (OsSendto (sk_fd ?k) (b, 0) sz sa)) (\<lambda>r.
                    if word_of_int (an_ret r) \<noteq> sz then next_do (AppendSendbufferUdp high i sz b) (ret False)
                    else next_do (StatWrite i (an_ret r)) (next_do (tell (Delete b)) (ret True)))))"
  let ?finish = "\<lambda>finished. if finished then ret (Some Ignored)
       else seq (EnableWrite i True) (\<lambda>failed.
           if failed then seq (ReportError i ''enable write failed'') (\<lambda>r. ret (Some r)) else ret None)"
  obtain finished r where part: "(if sk_protocol ?k = TCP then next_do (AppendSendbuffer i sz b) (ret False) else ?udp) s = Inr (finished, r)"
    and rest: "?finish finished r = Inr (x, t)"
    using assms(1) unfolding send_idle_def seq_iff [of "sock i"] act_basic_iff seq_iff [of "if _ then _ else _"] by auto
  have "evolves (cores s) (cores r)"
  proof (cases "sk_protocol ?k = TCP")
    case True
    then have "AppendSendbuffer i sz b s = Inr ((), r)" using part by (auto simp: next_do_iff act_basic_iff)
    from appended_evolves(1) [OF this] True assms(2) show ?thesis by (simp add: idle_def)
  next
    case False
    have "?udp s = Inr (finished, r)" using part unfolding if_not_P [OF False] .
    then show ?thesis using assms(2) by (rule datagram_evolves)
  qed
  moreover have e: "evolving (?finish finished)" unfolding ReportError_def by (intro keeps_evolving keeps_rules)
  ultimately show ?thesis using evolvingD [OF e rest] evolves_trans by blast
qed

lemma send_busy_evolves:
  assumes "send_busy i sz b high address s = Inr (x, t)" and "sk_type (sv_slot s i) \<noteq> kSocketTypeInvalid"
    and "\<not> SendBufferEmpty (sv_slot s i)"
  shows "evolves (cores s) (cores t)"
proof (rule evolves_if_sized [where i = i])
  let ?k = "sv_slot s i"
  assume "sized (snd (cores s) i)"
  then have busy: "\<not> idle (core_of ?k)" using assms(3) by (auto simp: sized_def SendBufferEmpty_def)
  show "evolves (cores s) (cores t)"
  proof (cases "sk_protocol ?k = TCP")
    case True
    then show ?thesis using assms(1) appended_evolves [OF _ busy]
      by (auto simp: send_busy_def seq_iff act_basic_iff split: if_splits)
  next
    case False
    then obtain a u where u: "(case address of Some a \<Rightarrow> ret a | None \<Rightarrow> get_address i) s = Inr (a, u)"
      and f: "AppendSendbufferUdp high i sz b u = Inr (x, t)"
      using assms(1) by (auto simp: send_busy_def seq_iff act_basic_iff)
    have "keeps cores (case address of Some a \<Rightarrow> ret a | None \<Rightarrow> get_address i)" by (intro keeps_rules)
    from keepsD [OF this u] have cu: "cores u = cores s" .
    then have "\<not> idle (core_of (sv_slot u i))" using busy cores_eqD(1) [OF cu] by simp
    then show ?thesis using appended_evolves(3) [OF f] cu by simp
  qed
qed

lemma evolving_warn_socket [evolving_rules]: "evolving (warn_socket i)"
  unfolding warn_socket_def by (intro keeps_evolving keeps_rules)

lemma gives_warn_socket [gives_rules]: "gives (\<lambda>x. x \<noteq> kSocketClose) (warn_socket i)"
  unfolding warn_socket_def by (intro gives_rules) simp_all

lemma SendSocket_evolves:
  assumes "SendSocket n sz b high address s = Inr (x, t)"
  shows "evolves (cores s) (cores t)"
proof -
  let ?i = "HASH_ID n"
  let ?k = "sv_slot s ?i"
  have drop: "evolving (next_do (tell (Delete b)) (ret Ignored))"
    "evolving (next_do (log_error err) (next_do (tell (Delete b)) (ret Ignored)))" for err
    by (intro keeps_evolving keeps_rules)+
  have end_ok: "evolving (case r of Some r \<Rightarrow> ret r | None \<Rightarrow> warn_socket ?i)" for r
    by (intro evolving_rules) (auto intro: keeps_evolving keeps_rules)
  consider (gone) err where "next_do (tell (Delete b)) (ret Ignored) s = Inr (x, t) \<or>
      next_do (log_error err) (next_do (tell (Delete b)) (ret Ignored)) s = Inr (x, t)"
    | (empty) r u where "sk_type ?k \<noteq> kSocketTypeInvalid" "send_idle ?i sz b high address s = Inr (r, u)"
        "(case r of Some r \<Rightarrow> ret r | None \<Rightarrow> warn_socket ?i) u = Inr (x, t)"
    | (busy) u where "sk_type ?k \<noteq> kSocketTypeInvalid" "\<not> SendBufferEmpty ?k" "send_busy ?i sz b high address s = Inr ((), u)"
        "warn_socket ?i u = Inr (x, t)"
    using assms unfolding SendSocket_def Let_def seq_iff [of "sock ?i"] act_basic_iff
    by (auto simp: seq_iff [of "send_idle _ _ _ _ _"] next_do_iff [of "send_busy _ _ _ _ _"] split: if_splits)
  then show ?thesis
  proof cases
    case gone
    then show ?thesis using evolvingD [OF drop(1)] evolvingD [OF drop(2)] by blast
  next
    case empty
    then show ?thesis using send_idle_evolves evolvingD [OF end_ok] evolves_trans by blast
  next
    case busy
    then show ?thesis using send_busy_evolves evolvingD [OF evolving_warn_socket] evolves_trans by blast
  qed
qed

lemma gives_SendSocket: "gives (\<lambda>x. x \<noteq> kSocketClose) (SendSocket n sz b high address)"
proof -
  have idle: "x \<noteq> Some kSocketClose" if "send_idle i sz b high address s = Inr (x, t)" for i s x t
    using that unfolding send_idle_def
    by (auto simp: seq_iff act_basic_iff ReportError_def next_do_iff split: if_splits)
  show ?thesis unfolding gives_def SendSocket_def Let_def
    by (auto simp: seq_iff next_do_iff act_basic_iff split: if_splits option.splits
        dest: idle givesD [OF gives_warn_socket])
qed

end
