(* ===== verification/SocketFacts.thy ===== *)
theory SocketFacts
  imports SocketApi
begin

text \<open>
  Properties of \<open>skynet-src/socket_server.cpp\<close>: ids, counts of sends, datagram addresses, and what the
  requests of other threads come to.
\<close>

section \<open>Evaluating actions\<close>

lemma act_steps [act_simps]:
  "sock i s = Inr (sv_slot s i, s)"
  "upd i f s = Inr ((), s\<lparr>sv_slot := (sv_slot s)(i := f (sv_slot s i))\<rparr>)"
  "tell c s = Inr ((), s\<lparr>sv_calls := sv_calls s @ [c]\<rparr>)"
  "msg g s = Inr ((), s\<lparr>sv_msg := g (sv_msg s)\<rparr>)"
  by (simp_all add: sock_def upd_def tell_def msg_def act_eval)

lemma next_do_eval [act_simps]:
  "m s = Inr (x, t) \<Longrightarrow> next_do m m' s = m' t"
  "m s = Inl e \<Longrightarrow> next_do m m' s = Inl e"
  by (simp_all add: next_do_def seq_eval)

lemma only_if_eval [act_simps]: "only_if b m s = (if b then m s else Inr ((), s))"
  by (simp add: only_if_def act_eval)

lemma lift_res_eval [act_simps]: "lift_res r s = (case r of Inl e \<Rightarrow> Inl e | Inr x \<Rightarrow> Inr (x, s))"
  by (cases r) (simp_all add: lift_res_def)

section \<open>Ids\<close>

definition free_id :: "server \<Rightarrow> int \<Rightarrow> bool" where
  "free_id s n \<longleftrightarrow> sk_type (sv_slot s (HASH_ID n)) = kSocketTypeInvalid"

definition reserved :: "int \<Rightarrow> server \<Rightarrow> server" where
  "reserved n s = s\<lparr>sv_alloc_id := n, sv_slot := (sv_slot s)(HASH_ID n := (sv_slot s (HASH_ID n))
     \<lparr>sk_type := kSocketTypeReserve, sk_id := n, sk_protocol := UNKNOWN, sk_udpconnecting := 0, sk_fd := - 1\<rparr>)\<rparr>"

lemma reserve_loop_find:
  assumes "0 \<le> sv_alloc_id s" and "sv_alloc_id s + int k < 2 ^ 31"
  shows "reserve_loop k s = Inr (case find (free_id s) [sv_alloc_id s + 1 .. sv_alloc_id s + int k] of
      None \<Rightarrow> (- 1, s\<lparr>sv_alloc_id := sv_alloc_id s + int k\<rparr>) | Some n \<Rightarrow> (n, reserved n s))"
  using assms
proof (induction k arbitrary: s)
  case 0
  then show ?case by (simp add: act_simps)
next
  case (Suc k)
  let ?n = "sv_alloc_id s + 1"
  let ?s = "s\<lparr>sv_alloc_id := ?n\<rparr>"
  have ids: "[?n .. sv_alloc_id s + int (Suc k)] = ?n # [?n + 1 .. ?n + int k]"
    using upto_rec1 [of ?n "sv_alloc_id s + int (Suc k)"] by (simp add: algebra_simps)
  have ok: "sv_alloc_id s \<noteq> 2 ^ 31 - 1" "\<not> ?n < 0" using Suc.prems by auto
  show ?case
  proof (cases "free_id s ?n")
    case True
    then show ?thesis unfolding ids using ok by (simp add: act_simps free_id_def reserved_def Let_def)
  next
    case False
    have "free_id ?s = free_id s" by (simp add: free_id_def fun_eq_iff)
    moreover have "reserved n ?s = reserved n s" for n by (simp add: reserved_def)
    ultimately have "reserve_loop k ?s = Inr (case find (free_id s) [?n + 1 .. ?n + int k] of
        None \<Rightarrow> (- 1, ?s\<lparr>sv_alloc_id := ?n + int k\<rparr>) | Some n \<Rightarrow> (n, reserved n s))"
      using Suc.IH [of ?s] Suc.prems by (simp cong: option.case_cong)
    moreover have "reserve_loop (Suc k) s = reserve_loop k ?s"
      using False ok by (simp add: act_simps free_id_def Let_def)
    ultimately show ?thesis unfolding ids using False
      by (cases "find (free_id s) [?n + 1 .. ?n + int k]") (simp_all add: algebra_simps)
  qed
qed

lemma find_upto_first: "i \<le> j \<Longrightarrow> P i \<Longrightarrow> find P [i .. j] = Some i"
  by (subst upto_rec1) auto

lemma hash_onto:
  assumes "i < 65536"
  shows "\<exists>n \<in> {a + 1 .. a + 65536}. HASH_ID n = i"
proof -
  let ?d = "(int i - (a + 1)) mod 65536"
  have "(a + 1 + ?d) mod 65536 = int i mod 65536" by (simp add: mod_simps)
  moreover have "0 \<le> ?d" "?d < 65536" by simp_all
  ultimately show ?thesis using assms by (intro bexI [of _ "a + 1 + ?d"]) (auto simp: HASH_ID_def)
qed

lemma hash_less: "HASH_ID n < 65536"
  by (simp add: HASH_ID_def nat_less_iff)

text \<open>C34 \<open>ReserveId\<close> finds a free slot whenever there is one: it takes the first of the next 65536 ids
  whose slot is free, marks that slot as reserved for the id and changes no other, and returns -1
  exactly when all slots are taken. (So far from the end of the 31-bit ids; there, see the next.)\<close>

theorem reserve_finds_slot:
  assumes "0 \<le> sv_alloc_id s" and "sv_alloc_id s + 65536 < 2 ^ 31"
  shows "ReserveId s = Inr (case find (free_id s) [sv_alloc_id s + 1 .. sv_alloc_id s + 65536] of
      None \<Rightarrow> (- 1, s\<lparr>sv_alloc_id := sv_alloc_id s + 65536\<rparr>) | Some n \<Rightarrow> (n, reserved n s)) \<and>
    (find (free_id s) [sv_alloc_id s + 1 .. sv_alloc_id s + 65536] = None \<longleftrightarrow>
      (\<forall>i < 65536. sk_type (sv_slot s i) \<noteq> kSocketTypeInvalid))"
proof
  show "ReserveId s = Inr (case find (free_id s) [sv_alloc_id s + 1 .. sv_alloc_id s + 65536] of
      None \<Rightarrow> (- 1, s\<lparr>sv_alloc_id := sv_alloc_id s + 65536\<rparr>) | Some n \<Rightarrow> (n, reserved n s))"
    using reserve_loop_find [of s MAX_SOCKET] assms by (simp add: ReserveId_def MAX_SOCKET_def cong: option.case_cong)
  show "find (free_id s) [sv_alloc_id s + 1 .. sv_alloc_id s + 65536] = None \<longleftrightarrow>
      (\<forall>i < 65536. sk_type (sv_slot s i) \<noteq> kSocketTypeInvalid)"
    unfolding find_None_iff free_id_def using hash_onto [of _ "sv_alloc_id s"] hash_less by (metis set_upto)
qed

text \<open>A server as it is created.\<close>

definition sample_platform :: "(request \<Rightarrow> request res) \<Rightarrow> string res \<Rightarrow> platform" where
  "sample_platform write nil = \<lparr>pf_null = nil, pf_pointer = Inr (), pf_memory = Inl UninitialisedRead,
     pf_request = write, pf_c_str = (\<lambda>b. (b, 16)), pf_strerror = (\<lambda>_. ''error''),
     pf_gai_strerror = (\<lambda>_. ''error'')\<rparr>"

definition sample_socket :: socket where
  "sample_socket = \<lparr>sk_opaque = 0, sk_high = [], sk_low = [], sk_wb_size = 0, sk_rtime = 0, sk_wtime = 0,
     sk_read = 0, sk_write = 0, sk_sending = 0, sk_fd = 0, sk_id = 0, sk_type = kSocketTypeInvalid,
     sk_protocol = TCP, sk_reading = False, sk_writing = False, sk_closing = False, sk_udpconnecting = 0,
     sk_warn_size = 0, sk_p = ReadSize 0, sk_dw_lock = False, sk_dw_offset = 0, sk_dw_buffer = 0,
     sk_dw_size = 0\<rparr>"

definition sample_server :: "platform \<Rightarrow> answer list \<Rightarrow> server" where
  "sample_server pf answers = SocketServer_new (\<lambda>_. sample_socket) [] pf 0 3 4 5 answers []"

definition sample_answer :: "int \<Rightarrow> answer" where
  "sample_answer r = \<lparr>an_ret = r, an_errno = 0, an_value = 0, an_bytes = [], an_addr = V4 [] [], an_name = None,
     an_families = [], an_request = ReqExit, an_events = []\<rparr>"

text \<open>Evaluation on such a server.\<close>

lemma ask_eval: "sv_answers s = a # as \<Longrightarrow> ask c s = Inr (a, s\<lparr>sv_answers := as, sv_calls := sv_calls s @ [c]\<rparr>)"
  by (simp add: ask_def)

lemma seq_case: "seq m f s = (case m s of Inl e \<Rightarrow> Inl e | Inr (x, t) \<Rightarrow> f x t)"
  "next_do m m' s = (case m s of Inl e \<Rightarrow> Inl e | Inr (x, t) \<Rightarrow> m' t)"
  by (simp_all add: next_do_def seq_def bindR_def split: sum.split)

lemmas run_eval = act_eval check_eval act_steps only_if_eval lift_res_eval seq_case log_error_def msg_data_def msg_null_def strerror_def unset_pointer_def ask_eval ClearWriteBufferList_def


theorem reserve_finds_slot_witness:
  "\<exists>s'. ReserveId (sample_server (sample_platform Inr (Inr [])) []) = Inr (1, s') \<and>
    sk_type (sv_slot s' 1) = kSocketTypeReserve"
proof -
  let ?s = "sample_server (sample_platform Inr (Inr [])) []"
  have s: "sv_alloc_id ?s = 0" "sk_type (sv_slot ?s i) = kSocketTypeInvalid" for i
    by (simp_all add: sample_server_def SocketServer_new_def)
  have "find (free_id ?s) [sv_alloc_id ?s + 1 .. sv_alloc_id ?s + 65536] = Some (sv_alloc_id ?s + 1)"
    by (rule find_upto_first) (simp_all add: free_id_def s(2))
  then have "ReserveId ?s = Inr (sv_alloc_id ?s + 1, reserved (sv_alloc_id ?s + 1) ?s)"
    using reserve_finds_slot [of ?s] s(1) by (simp only: option.case) simp
  then show ?thesis using s(1) by (simp add: reserved_def HASH_ID_def)
qed

section \<open>Counting sends\<close>

text \<open>The word \<open>sending\<close>: 16 bits of the id, and the number of sends that are under way.\<close>

definition sending_word :: "int \<Rightarrow> nat \<Rightarrow> u64" where
  "sending_word tag c = word_of_nat (nat tag * 65536 + c)"

lemma tag_range: "0 \<le> ID_TAG16 n" "ID_TAG16 n < 65536"
  by (simp_all add: ID_TAG16_def)

lemma nat_tag_less: "nat (ID_TAG16 n) * 65536 + c < 2 ^ 64" if "c < 65536"
proof -
  have "nat (ID_TAG16 n) < 65536" using tag_range(2) [of n] by simp
  then show ?thesis using that by simp
qed

lemma u64_nat: "x < 2 ^ 64 \<Longrightarrow> unat (word_of_nat x :: u64) = x"
  by (simp add: unsigned_of_nat take_bit_nat_eq_self)

lemma sending_unat: "c < 65536 \<Longrightarrow> unat (sending_word (ID_TAG16 n) c) = nat (ID_TAG16 n) * 65536 + c"
  unfolding sending_word_def by (rule u64_nat [OF nat_tag_less])

lemma sending_parts:
  assumes "c < 65536"
  shows "drop_bit 16 (sending_word (ID_TAG16 n) c) = word_of_int (ID_TAG16 n)"
    and "sending_word (ID_TAG16 n) c AND 0xffff = word_of_nat c"
proof -
  note u = sending_unat [OF assms, of n]
  have "unat (drop_bit 16 (sending_word (ID_TAG16 n) c)) = (nat (ID_TAG16 n) * 65536 + c) div 2 ^ 16"
    unfolding unat_drop_bit_eq u by (rule drop_bit_eq_div)
  also have "\<dots> = nat (ID_TAG16 n)" using assms by simp
  also have "\<dots> = unat (word_of_nat (nat (ID_TAG16 n)) :: u64)"
    using nat_tag_less [of 0 n] by (intro u64_nat [symmetric]) simp
  also have "(word_of_nat (nat (ID_TAG16 n)) :: u64) = word_of_int (ID_TAG16 n)"
    using tag_range(1) [of n] by simp
  finally show "drop_bit 16 (sending_word (ID_TAG16 n) c) = word_of_int (ID_TAG16 n)"
    by (simp only: word_unat_eq_iff)
  have "sending_word (ID_TAG16 n) c AND 0xffff = take_bit 16 (sending_word (ID_TAG16 n) c)"
    by (simp add: take_bit_eq_mask mask_eq_exp_minus_1)
  moreover have "unat (take_bit 16 (sending_word (ID_TAG16 n) c)) = (nat (ID_TAG16 n) * 65536 + c) mod 2 ^ 16"
    unfolding unsigned_take_bit_eq u by (rule take_bit_eq_mod)
  moreover have "(nat (ID_TAG16 n) * 65536 + c) mod 2 ^ 16 = c" using assms by simp
  moreover have "unat (word_of_nat c :: u64) = c" using assms by (intro u64_nat) simp
  ultimately show "sending_word (ID_TAG16 n) c AND 0xffff = word_of_nat c" by (simp only: word_unat_eq_iff)
qed

lemma sending_Suc: "sending_word tag c + 1 = sending_word tag (Suc c)" "sending_word tag (Suc c) - 1 = sending_word tag c"
  by (simp_all add: sending_word_def)

lemma count_zero: "c < 65536 \<Longrightarrow> (word_of_nat c :: u64) = 0 \<longleftrightarrow> c = 0"
  "c < 65536 \<Longrightarrow> (word_of_nat c :: u64) = 0xffff \<longleftrightarrow> c = 65535"
proof -
  assume "c < 65536"
  then have u: "unat (word_of_nat c :: u64) = c" by (intro u64_nat) simp
  show "(word_of_nat c :: u64) = 0 \<longleftrightarrow> c = 0" using u by (metis unat_0 unat_eq_zero)
  show "(word_of_nat c :: u64) = 0xffff \<longleftrightarrow> c = 65535" unfolding word_unat_eq_iff u by simp
qed

definition set_sending :: "nat \<Rightarrow> u64 \<Rightarrow> server \<Rightarrow> server" where
  "set_sending i v s = s\<lparr>sv_slot := (sv_slot s)(i := (sv_slot s i)\<lparr>sk_sending := v\<rparr>)\<rparr>"

lemma set_sending_simps [simp]:
  "sv_slot (set_sending i v s) i = (sv_slot s i)\<lparr>sk_sending := v\<rparr>"
  "set_sending i v (set_sending i u s) = set_sending i v s"
  "sk_sending (sv_slot s i) = v \<Longrightarrow> set_sending i v s = s"
  by (simp_all add: set_sending_def fun_upd_idem)

lemma Inc_one:
  assumes "sk_protocol (sv_slot s i) = TCP" and "sk_sending (sv_slot s i) = sending_word (ID_TAG16 n) c" and "c < 65536"
  shows "IncSendingRef i n s =
    (if c = 65535 then Inl Deadlock else Inr ((), set_sending i (sending_word (ID_TAG16 n) (Suc c)) s))"
  using assms sending_parts [OF assms(3), of n] count_zero(2) [OF assms(3)] sending_Suc(1) [of "ID_TAG16 n" c]
  by (simp add: IncSendingRef_def act_simps set_sending_def)

lemma Dec_one:
  assumes "sk_protocol (sv_slot s (HASH_ID n)) = TCP" and "sk_id (sv_slot s (HASH_ID n)) = n"
    and "sk_sending (sv_slot s (HASH_ID n)) = sending_word (ID_TAG16 n) c" and "c < 65536"
  shows "DecSendingRef n s =
    (if c = 0 then Inl AssertionFailed else Inr ((), set_sending (HASH_ID n) (sending_word (ID_TAG16 n) (c - 1)) s))"
  using assms sending_parts [OF assms(4), of n] count_zero(1) [OF assms(4)] sending_Suc(2) [of "ID_TAG16 n" "c - 1"]
  by (cases c) (simp_all add: DecSendingRef_def act_simps set_sending_def Let_def)

lemma steps_Suc: "steps (replicate (Suc k) m) s = seq m (\<lambda>_. steps (replicate k m)) s"
  by (simp add: steps_def next_do_def)

lemma steps_0: "steps [] s = Inr ((), s)"
  by (simp add: steps_def act_simps)

lemma Inc_many:
  assumes "sk_protocol (sv_slot s i) = TCP" and "sk_sending (sv_slot s i) = sending_word (ID_TAG16 n) c" and "c + k < 65536"
  shows "steps (replicate k (IncSendingRef i n)) s = Inr ((), set_sending i (sending_word (ID_TAG16 n) (c + k)) s)"
  using assms
proof (induction k arbitrary: c s)
  case (Suc k)
  let ?s = "set_sending i (sending_word (ID_TAG16 n) (Suc c)) s"
  have "IncSendingRef i n s = Inr ((), ?s)" using Inc_one [OF Suc.prems(1,2)] Suc.prems(3) by simp
  moreover have "steps (replicate k (IncSendingRef i n)) ?s = Inr ((), set_sending i (sending_word (ID_TAG16 n) (Suc c + k)) ?s)"
    using Suc.prems by (intro Suc.IH) simp_all
  ultimately show ?case unfolding steps_Suc by (simp add: act_simps)
qed (simp add: steps_0)

lemma Dec_many:
  assumes "sk_protocol (sv_slot s (HASH_ID n)) = TCP" and "sk_id (sv_slot s (HASH_ID n)) = n"
    and "sk_sending (sv_slot s (HASH_ID n)) = sending_word (ID_TAG16 n) (c + k)" and "c + k < 65536"
  shows "steps (replicate k (DecSendingRef n)) s = Inr ((), set_sending (HASH_ID n) (sending_word (ID_TAG16 n) c) s)"
  using assms
proof (induction k arbitrary: s)
  case (Suc k)
  let ?s = "set_sending (HASH_ID n) (sending_word (ID_TAG16 n) (c + k)) s"
  have "DecSendingRef n s = Inr ((), ?s)" using Dec_one [OF Suc.prems(1,2,3)] Suc.prems(4) by simp
  moreover have "steps (replicate k (DecSendingRef n)) ?s = Inr ((), set_sending (HASH_ID n) (sending_word (ID_TAG16 n) c) ?s)"
    using Suc.prems by (intro Suc.IH) simp_all
  ultimately show ?case unfolding steps_Suc by (simp add: act_simps)
qed (simp add: steps_0)

text \<open>C35 The count of sends never runs into the 16 bits of the id that it shares a word with. From a new
  socket, up to 65535 sends are counted, during which the socket is not idle; the next one waits; when
  all are done the word is as before, and one more is caught by an assertion.\<close>

theorem sending_counts:
  assumes "sk_protocol (sv_slot s (HASH_ID n)) = TCP" and "sk_id (sv_slot s (HASH_ID n)) = n"
    and "sk_type (sv_slot s (HASH_ID n)) \<noteq> kSocketTypeHalfCloseWrite"
    and "sk_sending (sv_slot s (HASH_ID n)) = word_of_int (ID_TAG16 n * 65536)" and "k < 65536"
  shows "\<exists>s'. steps (replicate k (IncSendingRef (HASH_ID n) n)) s = Inr ((), s') \<and>
    drop_bit 16 (sk_sending (sv_slot s' (HASH_ID n))) = word_of_int (ID_TAG16 n) \<and>
    sk_sending (sv_slot s' (HASH_ID n)) AND 0xffff = word_of_nat k \<and>
    (k \<noteq> 0 \<longrightarrow> NomoreSendingData (HASH_ID n) s' = Inr (False, s')) \<and>
    (k = 65535 \<longrightarrow> IncSendingRef (HASH_ID n) n s' = Inl Deadlock) \<and>
    steps (replicate k (DecSendingRef n)) s' = Inr ((), s) \<and> DecSendingRef n s = Inl AssertionFailed"
proof -
  let ?i = "HASH_ID n" and ?t = "ID_TAG16 n"
  have start: "sk_sending (sv_slot s ?i) = sending_word ?t 0"
    using assms(4) tag_range(1) [of n] by (simp add: sending_word_def)
  let ?s = "set_sending ?i (sending_word ?t k) s"
  note parts = sending_parts [OF assms(5), of n]
  have inc: "steps (replicate k (IncSendingRef ?i n)) s = Inr ((), ?s)" using Inc_many [OF assms(1) start] assms(5) by simp
  have "steps (replicate k (DecSendingRef n)) ?s = Inr ((), set_sending ?i (sending_word ?t 0) ?s)"
    using assms(1,2,5) by (intro Dec_many) simp_all
  then have dec: "steps (replicate k (DecSendingRef n)) ?s = Inr ((), s)" using start by simp
  have full: "k = 65535 \<longrightarrow> IncSendingRef ?i n ?s = Inl Deadlock"
  proof
    assume "k = 65535"
    then show "IncSendingRef ?i n ?s = Inl Deadlock" using Inc_one [of ?s ?i n k] assms(1,5) by (simp only:) simp
  qed
  have "k \<noteq> 0 \<longrightarrow> NomoreSendingData ?i ?s = Inr (False, ?s)"
    using parts(2) count_zero(1) [OF assms(5)] assms(3) by (simp add: NomoreSendingData_def act_simps)
  moreover have "DecSendingRef n s = Inl AssertionFailed" using Dec_one [OF assms(1,2) start] by simp
  ultimately show ?thesis using inc dec full parts by (intro exI [of _ ?s] conjI) simp_all
qed

theorem sending_counts_witness:
  "\<exists>s'. steps (replicate 2 (IncSendingRef 0 0)) (sample_server (sample_platform Inr (Inr [])) []) = Inr ((), s') \<and>
    sk_sending (sv_slot s' 0) AND 0xffff = 2 \<and> NomoreSendingData 0 s' = Inr (False, s')"
proof -
  let ?s = "sample_server (sample_platform Inr (Inr [])) []"
  have k: "sk_protocol (sv_slot ?s (HASH_ID 0)) = TCP" "sk_id (sv_slot ?s (HASH_ID 0)) = 0"
    "sk_type (sv_slot ?s (HASH_ID 0)) \<noteq> kSocketTypeHalfCloseWrite"
    "sk_sending (sv_slot ?s (HASH_ID 0)) = word_of_int (ID_TAG16 0 * 65536)" "2 < (65536 :: nat)"
    by (simp_all add: sample_server_def SocketServer_new_def sample_socket_def ID_TAG16_def)
  have i: "HASH_ID 0 = 0" by (simp add: HASH_ID_def)
  from sending_counts [OF k, unfolded i] obtain s' where
    "steps (replicate 2 (IncSendingRef 0 0)) ?s = Inr ((), s')" "sk_sending (sv_slot s' 0) AND 0xffff = word_of_nat 2"
    "NomoreSendingData 0 s' = Inr (False, s')"
    by auto
  then show ?thesis by (intro exI [of _ s']) simp
qed

section \<open>Datagrams\<close>

text \<open>Ports have 2 bytes, addresses 4 or 16.\<close>

definition address_ok :: "sockaddr \<Rightarrow> bool" where
  "address_ok sa = (case sa of V4 port addr \<Rightarrow> length port = 2 \<and> length addr = 4
     | V6 port addr \<Rightarrow> length port = 2 \<and> length addr = 16)"

text \<open>The address of a datagram that \<open>GenUDPAddress\<close> has made is read back by \<open>UDPSocketAddress\<close>.\<close>

theorem udp_address_roundtrip:
  assumes "GenUDPAddress (sk_protocol k) sa = Inr bytes" and "sk_protocol k \<in> {UDP, UDPv6}" and "address_ok sa"
  shows "UDPSocketAddress k (bytes @ rest) = Inr (Some sa)"
  using assms
  by (cases sa; cases "sk_protocol k")
    (auto simp: GenUDPAddress_def UDPSocketAddress_def address_ok_def memcpy_from_def nthR_def bindR_def)

theorem udp_address_roundtrip_witness:
  "UDPSocketAddress (sample_socket\<lparr>sk_protocol := UDP\<rparr>) ([1, 0, 80, 127, 0, 0, 1] @ replicate 12 0) =
     Inr (Some (V4 [0, 80] [127, 0, 0, 1]))"
  by (rule udp_address_roundtrip) (simp_all add: GenUDPAddress_def address_ok_def protocol_number_def)

text \<open>A socket for datagrams is never made: on the slot that was reserved for it, \<open>AddUDPSocket\<close> closes
  the descriptor and frees the slot when it cannot be polled, and otherwise looks for an address in
  the variant \<open>p\<close>, where \<open>NewFd\<close> has just put a size: \<open>std::get\<close> throws.\<close>

theorem no_datagram_socket:
  assumes "sk_type (sv_slot s (HASH_ID n)) = kSocketTypeReserve" and "SendBufferEmpty (sv_slot s (HASH_ID n))"
    and "sv_answers s = a # as"
  shows "if an_ret a = - 1 then \<exists>t. AddUDPSocket n fd v6 opaque s = Inr ((), t) \<and>
      sk_type (sv_slot t (HASH_ID n)) = kSocketTypeInvalid \<and>
      sv_calls t = sv_calls s @ [OsEpollAdd (sv_event_fd s) fd (Some (HASH_ID n)), OsClose fd]
    else AddUDPSocket n fd v6 opaque s = Inl Exception"
  using assms
  by (simp add: Let_def AddUDPSocket_def NewFd_def run_eval SendBufferEmpty_def EpollAdd_def EnableRead_def
      set_type_def get_address_def)

theorem no_datagram_socket_witness:
  "\<exists>s. AddUDPSocket 1 9 False 0 (s :: server) = Inl Exception \<and> sk_type (sv_slot s 1) = kSocketTypeReserve"
proof -
  let ?s = "reserved 1 (sample_server (sample_platform Inr (Inr [])) [sample_answer 0])"
  have s: "sk_type (sv_slot ?s (HASH_ID 1)) = kSocketTypeReserve" "SendBufferEmpty (sv_slot ?s (HASH_ID 1))"
    "sv_answers ?s = sample_answer 0 # []"
    by (simp_all add: reserved_def SendBufferEmpty_def sample_server_def SocketServer_new_def ClearWriteBufferList_def)
  have "AddUDPSocket 1 9 False 0 ?s = Inl Exception"
    using no_datagram_socket [OF s] by (simp add: sample_answer_def)
  then show ?thesis using s(1) by (auto simp: HASH_ID_def)
qed

end
