(* ===== verification/SocketStream.thy ===== *)
theory SocketStream
  imports SocketFlow SocketFacts
begin

text \<open>
  What a stream socket of \<open>skynet-src/socket_server.cpp\<close> sends: the bytes that are waiting for it,
  from what \<open>Send\<close> has left behind over the list of high to the list of low priority, go to the
  operating system in this order, each once. A byte is the object and the offset of its place.
\<close>

section \<open>Bytes\<close>

definition bytes_at :: "pointer \<Rightarrow> nat \<Rightarrow> pointer list" where
  "bytes_at p n = map (\<lambda>j. (fst p, snd p + int j)) [0 ..< n]"

definition span :: "write_buffer \<Rightarrow> pointer list" where
  "span w = bytes_at (wb_ptr w) (unat (wb_sz w))"

text \<open>What is left of a buffer that \<open>Send\<close> has written directly.\<close>

definition direct_rest :: "socket \<Rightarrow> write_buffer" where
  "direct_rest k = \<lparr>wb_buffer = sk_dw_buffer k, wb_ptr = (sk_dw_buffer k, sk_dw_offset k),
     wb_sz = sk_dw_size k - word_of_int (sk_dw_offset k)\<rparr>"

definition waiting :: "socket \<Rightarrow> write_buffer list" where
  "waiting k = (if sk_dw_buffer k = 0 then [] else [direct_rest k]) @ sk_high k @ sk_low k"

definition pending :: "socket \<Rightarrow> pointer list" where
  "pending k = concat (map span (waiting k))"

text \<open>The calls between two states with their answers, and the bytes that they took.\<close>

definition exchange :: "(oscall \<times> answer) list \<Rightarrow> server \<Rightarrow> server \<Rightarrow> bool" where
  "exchange xs s t \<longleftrightarrow> sv_answers s = map snd xs @ sv_answers t \<and> sv_calls t = sv_calls s @ map fst xs"

fun went_out :: "oscall \<times> answer \<Rightarrow> pointer list" where
  "went_out (OsWrite fd p sz, a) = bytes_at p (nat (an_ret a))"
| "went_out _ = []"

text \<open>\<open>write\<close> takes at most the bytes that it is given.\<close>

fun within_size :: "oscall \<times> answer \<Rightarrow> bool" where
  "within_size (OsWrite fd p sz, a) \<longleftrightarrow> an_ret a \<le> uint sz"
| "within_size _ \<longleftrightarrow> True"

lemma bytes_at_split:
  assumes "m \<le> n"
  shows "bytes_at p n = bytes_at p m @ bytes_at (fst p, snd p + int m) (n - m)"
proof -
  have "[0 ..< n] = [0 ..< m] @ map (\<lambda>j. j + m) [0 ..< n - m]"
    using assms map_add_upt [of m "n - m"] upt_add_eq_append [of 0 m "n - m"] by simp
  then show ?thesis by (simp add: bytes_at_def add.assoc add.commute)
qed

lemma written_rest:
  fixes sz :: u64
  assumes "0 \<le> r" and "r \<le> uint sz"
  shows "unat (sz - word_of_int r) = unat sz - nat r"
proof -
  have "uint (word_of_int r :: u64) = r" using assms uint_bounded [of sz] by (intro word_of_int_inverse) auto
  then have "unat (word_of_int r :: u64) = nat r" by (simp add: unat_eq_nat_uint)
  moreover have "(word_of_int r :: u64) \<le> sz" using assms \<open>uint (word_of_int r :: u64) = r\<close> by (simp add: word_le_def)
  ultimately show ?thesis by (simp add: unat_sub)
qed

lemma span_written:
  assumes "0 \<le> r" and "r \<le> uint (wb_sz w)"
  shows "span w = bytes_at (wb_ptr w) (nat r) @
    span (w\<lparr>wb_ptr := (fst (wb_ptr w), snd (wb_ptr w) + r), wb_sz := wb_sz w - word_of_int r\<rparr>)"
proof -
  have "nat r \<le> unat (wb_sz w)" unfolding unat_eq_nat_uint using assms(2) by (rule nat_mono)
  from bytes_at_split [OF this, of "wb_ptr w"] show ?thesis using assms(1) by (simp add: span_def written_rest [OF assms])
qed

lemma span_done:
  assumes "0 \<le> r" and "r \<le> uint (wb_sz w)" and "word_of_int r = wb_sz w"
  shows "span w = bytes_at (wb_ptr w) (nat r)"
proof -
  have "uint (word_of_int r :: u64) = r" using assms(1,2) uint_bounded [of "wb_sz w"] by (intro word_of_int_inverse) auto
  then have "unat (wb_sz w) = nat r" unfolding assms(3) by (simp add: unat_eq_nat_uint)
  then show ?thesis by (simp add: span_def)
qed

section \<open>Steps of the stream\<close>

definition streams :: "nat \<Rightarrow> server \<Rightarrow> server \<Rightarrow> bool" where
  "streams i s t \<longleftrightarrow> sk_protocol (sv_slot t i) = sk_protocol (sv_slot s i) \<and>
     (\<exists>xs. exchange xs s t \<and> (list_all within_size xs \<longrightarrow>
        pending (sv_slot s i) = concat (map went_out xs) @ pending (sv_slot t i)))"

lemma streams_trans: 
  assumes "streams i s t" and "streams i t u"
  shows "streams i s u"
proof -
  obtain xs where xs: "exchange xs s t" "list_all within_size xs \<longrightarrow>
      pending (sv_slot s i) = concat (map went_out xs) @ pending (sv_slot t i)"
    using assms(1) by (auto simp: streams_def)
  obtain ys where ys: "exchange ys t u" "list_all within_size ys \<longrightarrow>
      pending (sv_slot t i) = concat (map went_out ys) @ pending (sv_slot u i)"
    using assms(2) by (auto simp: streams_def)
  have "exchange (xs @ ys) s u" using xs(1) ys(1) by (auto simp: exchange_def)
  then show ?thesis using assms xs(2) ys(2) unfolding streams_def by (intro conjI exI [of _ "xs @ ys"]) auto
qed

lemma streams_quiet:
  assumes "sv_answers t = sv_answers s" and "sv_calls t = sv_calls s"
    and "pending (sv_slot t i) = pending (sv_slot s i)" and "sk_protocol (sv_slot t i) = sk_protocol (sv_slot s i)"
  shows "streams i s t"
  unfolding streams_def using assms by (intro conjI exI [of _ "[]"]) (auto simp: exchange_def)

lemma streams_refl [simp]: "streams i s s"
  by (rule streams_quiet) simp_all

lemma streams_call:
  assumes "sv_answers s = a # sv_answers t" and "sv_calls t = sv_calls s @ [c]"
    and "sk_protocol (sv_slot t i) = sk_protocol (sv_slot s i)"
    and "within_size (c, a) \<Longrightarrow> pending (sv_slot s i) = went_out (c, a) @ pending (sv_slot t i)"
  shows "streams i s t"
  unfolding streams_def using assms by (intro conjI exI [of _ "[(c, a)]"]) (auto simp: exchange_def)

text \<open>A list is sent from when nothing stands before it.\<close>

definition at_front :: "bool \<Rightarrow> socket \<Rightarrow> bool" where
  "at_front high k \<longleftrightarrow> sk_dw_buffer k = 0 \<and> (high \<or> sk_high k = [])"

lemma waiting_front: "at_front high k \<Longrightarrow> waiting k = wlist high k @ (if high then sk_low k else [])"
  by (auto simp: at_front_def waiting_def wlist_def)

section \<open>Sending a list\<close>

text \<open>One turn of the loop of \<open>SendListTCP\<close>.\<close>

lemma SendListTCP_cases:
  assumes "SendListTCP high i s = Inr (x, t)"
  obtains (empty) "wlist high (sv_slot s i) = []" "x = Ignored" "t = s"
    | (failed) w ws a r where "wlist high (sv_slot s i) = w # ws" "ask (OsWrite (sk_fd (sv_slot s i)) (wb_ptr w) (wb_sz w)) s = Inr (a, r)"
        "an_ret a < 0" "SendListTCP high i r = Inr (x, t) \<or> x = Ignored \<and> t = r \<or> CloseWrite i (an_errno a) r = Inr (x, t)"
    | (written) w ws a r u v where "wlist high (sv_slot s i) = w # ws"
        "ask (OsWrite (sk_fd (sv_slot s i)) (wb_ptr w) (wb_sz w)) s = Inr (a, r)"
        "0 \<le> an_ret a" "next_do (StatWrite i (an_ret a)) (add_size i (- an_ret a)) r = Inr ((), u)"
        "if word_of_int (an_ret a) = wb_sz w
         then set_wlist high i ws u = Inr ((), v) \<and> SendListTCP high i v = Inr (x, t)
         else set_wlist high i (w\<lparr>wb_ptr := (fst (wb_ptr w), snd (wb_ptr w) + an_ret a),
                wb_sz := wb_sz w - word_of_int (an_ret a)\<rparr> # ws) u = Inr ((), t) \<and> x = Ignored"
proof (cases "wlist high (sv_slot s i)")
  case Nil
  then show thesis using assms empty by (simp add: SendListTCP.simps seq_iff act_basic_iff)
next
  case (Cons w ws)
  obtain a r where a: "ask (OsWrite (sk_fd (sv_slot s i)) (wb_ptr w) (wb_sz w)) s = Inr (a, r)"
    and rest: "(if an_ret a < 0 then
            if an_errno a = EINTR then SendListTCP high i r
            else if an_errno a = EAGAIN then ret Ignored r
            else CloseWrite i (an_errno a) r
          else
            seq (StatWrite i (an_ret a)) (\<lambda>_.
            seq (add_size i (- an_ret a)) (\<lambda>_ s.
              if word_of_int (an_ret a) \<noteq> wb_sz w then
                next_do (set_wlist high i (w\<lparr>wb_ptr := (fst (wb_ptr w), snd (wb_ptr w) + an_ret a),
                    wb_sz := wb_sz w - word_of_int (an_ret a)\<rparr> # ws)) (ret Ignored) s
              else seq (set_wlist high i ws) (\<lambda>_. SendListTCP high i) s)) r) = Inr (x, t)"
    using assms Cons unfolding SendListTCP.simps [of high i s] by (auto simp: seq_iff act_basic_iff)
  show thesis
  proof (cases "an_ret a < 0")
    case True
    then show thesis using failed [OF Cons a] rest by (auto simp: act_basic_iff split: if_splits)
  next
    case False
    then obtain r1 u where "StatWrite i (an_ret a) r = Inr ((), r1)" "add_size i (- an_ret a) r1 = Inr ((), u)"
      and f: "(if word_of_int (an_ret a) \<noteq> wb_sz w then
                next_do (set_wlist high i (w\<lparr>wb_ptr := (fst (wb_ptr w), snd (wb_ptr w) + an_ret a),
                    wb_sz := wb_sz w - word_of_int (an_ret a)\<rparr> # ws)) (ret Ignored) u
              else seq (set_wlist high i ws) (\<lambda>_. SendListTCP high i) u) = Inr (x, t)"
      using rest by (auto simp: seq_iff)
    then have u: "next_do (StatWrite i (an_ret a)) (add_size i (- an_ret a)) r = Inr ((), u)" by (auto simp: next_do_iff)
    show thesis using written [OF Cons a _ u] f False by (auto simp: seq_iff next_do_iff act_basic_iff split: if_splits)
  qed
qed

lemma wlist_set:
  assumes "set_wlist high i ws s = Inr (x, t)"
  shows "wlist high (sv_slot t i) = ws" and "at_front high (sv_slot t i) = at_front high (sv_slot s i)"
    and "sk_low (sv_slot t i) = (if high then sk_low (sv_slot s i) else ws)"
    and "sv_answers t = sv_answers s" and "sv_calls t = sv_calls s"
    and "sk_protocol (sv_slot t i) = sk_protocol (sv_slot s i)"
  using assms by (auto simp: set_wlist_def wlist_def at_front_def act_basic_iff)

lemma stat_size:
  assumes "next_do (StatWrite i m) (add_size i d) s = Inr (x, t)"
  shows "at_front high (sv_slot t i) = at_front high (sv_slot s i)" and "sk_low (sv_slot t i) = sk_low (sv_slot s i)"
    and "sv_answers t = sv_answers s" and "sv_calls t = sv_calls s"
    and "sk_protocol (sv_slot t i) = sk_protocol (sv_slot s i)"
  using assms by (auto simp: StatWrite_def add_size_def at_front_def next_do_iff seq_iff act_basic_iff)

text \<open>One successful \<open>write\<close>.\<close>

lemma written_streams:
  assumes "wlist high (sv_slot s i) = w # ws" and "at_front high (sv_slot s i)"
    and a: "ask (OsWrite fd (wb_ptr w) (wb_sz w)) s = Inr (a, r)"
    and u: "next_do (StatWrite i (an_ret a)) (add_size i (- an_ret a)) r = Inr ((), u)"
    and v: "set_wlist high i ws' u = Inr ((), v)"
    and spans: "an_ret a \<le> uint (wb_sz w) \<Longrightarrow> span w @ concat (map span ws) = bytes_at (wb_ptr w) (nat (an_ret a)) @ concat (map span ws')"
  shows "streams i s v \<and> at_front high (sv_slot v i)"
proof -
  have slot: "sv_slot r = sv_slot s" using a by (auto simp: ask_iff)
  have front: "at_front high (sv_slot v i)"
    using assms(2) unfolding wlist_set(2) [OF v] stat_size(1) [OF u] slot .
  have low: "sk_low (sv_slot u i) = sk_low (sv_slot s i)" unfolding stat_size(2) [OF u] slot ..
  have quiet: "sv_answers v = sv_answers r" "sv_calls v = sv_calls r" "sk_protocol (sv_slot v i) = sk_protocol (sv_slot r i)"
    unfolding wlist_set(4-6) [OF v] stat_size(3-5) [OF u] by simp_all
  have "pending (sv_slot s i) = span w @ concat (map span ws) @ (if high then concat (map span (sk_low (sv_slot s i))) else [])"
    using assms(1) by (simp add: pending_def waiting_front [OF assms(2)])
  moreover have "pending (sv_slot v i) = concat (map span ws') @ (if high then concat (map span (sk_low (sv_slot s i))) else [])"
    using wlist_set(1,3) [OF v] low by (simp add: pending_def waiting_front [OF front])
  ultimately have "within_size (OsWrite fd (wb_ptr w) (wb_sz w), a) \<Longrightarrow>
      pending (sv_slot s i) = went_out (OsWrite fd (wb_ptr w) (wb_sz w), a) @ pending (sv_slot v i)"
    using spans by simp
  then have "streams i s v" using a quiet slot by (intro streams_call) (auto simp: ask_iff)
  then show ?thesis using front by simp
qed

lemma pending_slot: "sv_slot t = sv_slot s \<Longrightarrow> pending (sv_slot t i) = pending (sv_slot s i)"
  by simp

text \<open>A failed \<open>write\<close> takes nothing.\<close>

lemma failed_streams:
  assumes "ask (OsWrite fd p sz) s = Inr (a, r)" and "an_ret a < 0"
  shows "sv_slot r = sv_slot s" and "streams i s r"
  using assms by (auto simp: ask_iff bytes_at_def intro!: streams_call)

definition shut_down :: "nat \<Rightarrow> outcome \<Rightarrow> server \<Rightarrow> bool" where
  "shut_down i x t \<longleftrightarrow> x = kSocketErr \<or> sk_type (sv_slot t i) = kSocketTypeInvalid"

lemma ForceClose_invalid:
  assumes "ForceClose i s = Inr (u, t)"
  shows "sk_type (sv_slot t i) = kSocketTypeInvalid"
proof -
  have "co_type (snd (cores t) i) = kSocketTypeInvalid"
    unfolding ForceClose_cores(1) [OF assms] by (simp add: edit_def snd_put closed_core_def cores_def core_of_def)
  then show ?thesis by (simp add: cores_def core_of_def)
qed

lemma CloseWrite_ends:
  assumes "CloseWrite i e s = Inr (x, t)"
  shows "x \<noteq> Ignored" and "t = s \<or> shut_down i x t"
proof -
  show "x \<noteq> Ignored"
    using assms unfolding CloseWrite_def ReportError_def by (auto simp: act_iff split: if_splits)
  show "t = s \<or> shut_down i x t"
    using assms unfolding CloseWrite_def ReportError_def
    by (auto simp: seq_iff next_do_iff act_basic_iff shut_down_def dest: ForceClose_invalid split: if_splits)
qed

lemma SendListTCP_streams:
  assumes "SendListTCP high i s = Inr (x, t)" and "at_front high (sv_slot s i)"
  shows "if x = Ignored then streams i s t \<and> at_front high (sv_slot t i) else streams i s t \<or> shut_down i x t"
  using assms
proof (induction "length (sv_answers s)" arbitrary: s rule: less_induct)
  case less
  from less.prems(1) show ?case
  proof (cases rule: SendListTCP_cases)
    case empty
    then show ?thesis using less.prems(2) by simp
  next
    case (failed w ws a r)
    note r = failed_streams [OF failed(2,3)]
    have front: "at_front high (sv_slot r i)" using less.prems(2) r(1) by simp
    from failed(4) consider "SendListTCP high i r = Inr (x, t)" | "x = Ignored" "t = r" | "CloseWrite i (an_errno a) r = Inr (x, t)"
      by blast
    then show ?thesis
    proof cases
      case 1
      from less.hyps [OF ask_shrinks [OF failed(2)] 1 front] show ?thesis
        using streams_trans [OF r(2)] by (auto split: if_splits)
    next
      case 2
      then show ?thesis using r(2) front by simp
    next
      case 3
      then show ?thesis using CloseWrite_ends [OF 3] r(2) by auto
    qed
  next
    case (written w ws a r u v)
    note one = written_streams [OF written(1) less.prems(2) written(2,4)]
    show ?thesis
    proof (cases "word_of_int (an_ret a) = wb_sz w")
      case True
      then have v: "set_wlist high i ws u = Inr ((), v)" and again: "SendListTCP high i v = Inr (x, t)"
        using written(5) by simp_all
      have sv: "streams i s v \<and> at_front high (sv_slot v i)"
        using one [OF v] span_done [OF written(3) _ True] by simp
      have "length (sv_answers v) < length (sv_answers s)"
        using ask_shrinks [OF written(2)] wlist_set(4) [OF v] stat_size(3) [OF written(4)] by simp
      from less.hyps [OF this again] sv show ?thesis
        using streams_trans [of i s v t] by (auto split: if_splits)
    next
      case False
      then have "set_wlist high i (w\<lparr>wb_ptr := (fst (wb_ptr w), snd (wb_ptr w) + an_ret a),
          wb_sz := wb_sz w - word_of_int (an_ret a)\<rparr> # ws) u = Inr ((), t)" and "x = Ignored"
        using written(5) by simp_all
      then show ?thesis using one [of _ t] span_written [OF written(3)] by simp
    qed
  qed
qed

section \<open>Sending both lists\<close>

lemma EnableWrite_streams:
  assumes "EnableWrite i enable s = Inr (failed, t)"
  shows "streams i s t"
proof (cases "sk_writing (sv_slot s i) = enable")
  case True
  then show ?thesis using assms by (auto simp: EnableWrite_def seq_iff act_basic_iff)
next
  case False
  let ?k = "(sv_slot s i)\<lparr>sk_writing := enable\<rparr>"
  obtain a as where a: "sv_answers s = a # as" and t: "t = s\<lparr>sv_slot := (sv_slot s)(i := ?k), sv_answers := as,
      sv_calls := sv_calls s @ [OsEpollMod (sv_event_fd s) (sk_fd (sv_slot s i)) i (sk_reading (sv_slot s i)) enable]\<rparr>"
    using assms False by (auto simp: EnableWrite_def EpollEnable_def seq_iff next_do_iff act_basic_iff ask_iff)
  have "pending ?k = pending (sv_slot s i)" by (simp add: pending_def waiting_def direct_rest_def)
  then show ?thesis unfolding t using a by (intro streams_call) auto
qed

lemma lists_empty_streams:
  assumes "lists_empty i s = Inr (x, t)"
  shows "streams i s t \<or> shut_down i x t"
proof (cases "sk_closing (sv_slot s i)")
  case True
  then show ?thesis
    using assms by (auto simp: lists_empty_def seq_iff next_do_iff act_basic_iff shut_down_def dest: ForceClose_invalid)
next
  case False
  then obtain failed u where u: "EnableWrite i False s = Inr (failed, u)"
    and rest: "(if failed then ReportError i ''disable write failed''
        else if sk_warn_size (sv_slot s i) > 0 then
          next_do (upd i (\<lambda>k. k\<lparr>sk_warn_size := 0\<rparr>))
            (next_do (msg (\<lambda>m. m\<lparr>pm_opaque := sk_opaque (sv_slot s i), pm_id := sk_id (sv_slot s i), pm_ud := 0\<rparr>))
              (next_do msg_null (ret kSocketWarning)))
        else ret Ignored) u = Inr (x, t)"
    using assms unfolding lists_empty_def by (auto simp: seq_iff next_do_iff act_basic_iff)
  have "x = kSocketErr \<or> streams i u t"
  proof (cases failed)
    case True
    then show ?thesis using rest by (auto simp: ReportError_def act_iff)
  next
    case False
    have "pending (k\<lparr>sk_warn_size := 0\<rparr>) = pending k" for k by (simp add: pending_def waiting_def direct_rest_def)
    then show ?thesis using rest False by (auto simp: act_iff intro!: streams_quiet split: if_splits)
  qed
  then show ?thesis using EnableWrite_streams [OF u] streams_trans by (auto simp: shut_down_def)
qed

lemma RaiseUncomplete_streams:
  assumes "RaiseUncomplete i s = Inr (x, t)" and "at_front False (sv_slot s i)"
  shows "streams i s t"
proof -
  let ?k = "sv_slot s i"
  obtain w ws where w: "sk_low ?k = w # ws"
    using assms(1) by (auto simp: RaiseUncomplete_def seq_iff act_basic_iff split: list.splits)
  then have t: "t = s\<lparr>sv_slot := (sv_slot s)(i := ?k\<lparr>sk_low := ws, sk_high := [w]\<rparr>)\<rparr>"
    using assms by (auto simp: RaiseUncomplete_def set_wlist_def seq_iff next_do_iff act_basic_iff)
  have "pending (?k\<lparr>sk_low := ws, sk_high := [w]\<rparr>) = pending ?k"
    using w assms(2) by (simp add: pending_def waiting_def at_front_def)
  then show ?thesis unfolding t by (intro streams_quiet) simp_all
qed

lemma low_list_streams:
  assumes "seq (SendList False i) (\<lambda>r.
      if r \<noteq> Ignored then ret (if r = kSocketErr then kSocketErr else Ignored)
      else
        seq (sock i) (\<lambda>k. seq (ListUncomplete (sk_low k)) (\<lambda>uncomplete.
          if uncomplete then next_do (RaiseUncomplete i) (ret Ignored)
          else if sk_low k \<noteq> [] then ret Ignored
          else lists_empty i))) s = Inr (x, t)"
    and "at_front False (sv_slot s i)" and "sk_protocol (sv_slot s i) = TCP"
  shows "streams i s t \<or> shut_down i x t"
proof -
  obtain r u where u: "SendListTCP False i s = Inr (r, u)" and rest: "(if r \<noteq> Ignored then ret (if r = kSocketErr then kSocketErr else Ignored)
      else
        seq (sock i) (\<lambda>k. seq (ListUncomplete (sk_low k)) (\<lambda>uncomplete.
          if uncomplete then next_do (RaiseUncomplete i) (ret Ignored)
          else if sk_low k \<noteq> [] then ret Ignored
          else lists_empty i))) u = Inr (x, t)"
    using assms(1,3) by (auto simp: SendList_def seq_iff act_basic_iff)
  note low = SendListTCP_streams [OF u assms(2)]
  show ?thesis
  proof (cases "r = Ignored")
    case False
    then show ?thesis using low rest by (auto simp: act_basic_iff shut_down_def)
  next
    case True
    then have su: "streams i s u" and front: "at_front False (sv_slot u i)" using low by simp_all
    have "streams i u t \<or> shut_down i x t"
      using rest True RaiseUncomplete_streams [OF _ front]
      by (auto simp: seq_iff next_do_iff act_basic_iff ListUncomplete_def split: list.splits if_splits
          dest: lists_empty_streams)
    then show ?thesis using streams_trans [OF su] by blast
  qed
qed

lemma ListUncomplete_quiet: "ListUncomplete ws s = Inr (b, t) \<Longrightarrow> t = s"
  by (auto simp: ListUncomplete_def act_basic_iff split: list.splits if_splits)

lemma SendBuffer_step_streams:
  assumes "SendBuffer_step i s = Inr (x, t)" and "at_front True (sv_slot s i)" and "sk_protocol (sv_slot s i) = TCP"
  shows "streams i s t \<or> shut_down i x t"
proof -
  let ?low = "seq (SendList False i) (\<lambda>r.
      if r \<noteq> Ignored then ret (if r = kSocketErr then kSocketErr else Ignored)
      else
        seq (sock i) (\<lambda>k. seq (ListUncomplete (sk_low k)) (\<lambda>uncomplete.
          if uncomplete then next_do (RaiseUncomplete i) (ret Ignored)
          else if sk_low k \<noteq> [] then ret Ignored
          else lists_empty i)))"
  obtain r u where u: "SendListTCP True i s = Inr (r, u)" and rest: "(if r \<noteq> Ignored then ret (if r = kSocketErr then kSocketErr else Ignored)
      else
        seq (sock i) (\<lambda>k. if sk_high k \<noteq> [] then ret Ignored else if sk_low k = [] then lists_empty i else ?low)) u = Inr (x, t)"
    using assms(1,3) unfolding SendBuffer_step_def SendList_def
    by (auto simp: seq_iff next_do_iff act_basic_iff dest!: ListUncomplete_quiet)
  note high = SendListTCP_streams [OF u assms(2)]
  show ?thesis
  proof (cases "r = Ignored")
    case False
    then show ?thesis using high rest by (auto simp: act_basic_iff shut_down_def)
  next
    case True
    then have su: "streams i s u" and front: "at_front True (sv_slot u i)" using high by simp_all
    have p: "sk_protocol (sv_slot u i) = TCP" using su assms(3) by (simp add: streams_def)
    have f: "(if sk_high (sv_slot u i) \<noteq> [] then ret Ignored else if sk_low (sv_slot u i) = [] then lists_empty i else ?low) u = Inr (x, t)"
      using rest True by (simp add: seq_iff [of "sock i"] act_basic_iff)
    consider "t = u" | "lists_empty i u = Inr (x, t)" | "sk_high (sv_slot u i) = []" "?low u = Inr (x, t)"
      using f by (simp only: act_basic_iff split: if_splits)
    then have "streams i u t \<or> shut_down i x t"
    proof cases
      case 1
      then show ?thesis by simp
    next
      case 2
      then show ?thesis by (rule lists_empty_streams)
    next
      case 3
      have "at_front False (sv_slot u i)" using front 3(1) by (simp add: at_front_def)
      from low_list_streams [OF 3(2) this p] show ?thesis .
    qed
    then show ?thesis using streams_trans [OF su] by blast
  qed
qed

lemma take_direct_streams:
  assumes "take_direct i s = Inr (x, t)"
  shows "streams i s t \<and> at_front True (sv_slot t i)"
  using assms unfolding take_direct_def
  by (auto simp: add_size_def seq_iff next_do_iff only_if_iff act_basic_iff at_front_def pending_def waiting_def direct_rest_def
      Let_def intro!: streams_quiet split: if_splits)

lemma unlocked_streams:
  assumes "SocketUnlock s = Inr (x, t)"
  shows "streams i s t" and "sk_type (sv_slot t i) = sk_type (sv_slot s i)"
proof -
  have "pending (k\<lparr>sk_dw_lock := b\<rparr>) = pending k" for k b by (simp add: pending_def waiting_def direct_rest_def)
  then show "streams i s t" using assms unfolding SocketUnlock_def
    by (auto simp: seq_iff next_do_iff only_if_iff act_basic_iff intro!: streams_quiet split: if_splits)
  show "sk_type (sv_slot t i) = sk_type (sv_slot s i)" using assms unfolding SocketUnlock_def
    by (auto simp: seq_iff next_do_iff only_if_iff act_basic_iff split: if_splits)
qed

lemma locked_streams:
  assumes "SocketTrylock s = Inr (ok, t)"
  shows "streams i s t"
proof -
  let ?j = "sv_lock_slot s"
  have "t = s \<or> t = s\<lparr>sv_lock_count := sv_lock_count s + 1\<rparr> \<or>
      t = s\<lparr>sv_slot := (sv_slot s)(?j := (sv_slot s ?j)\<lparr>sk_dw_lock := True\<rparr>), sv_lock_count := sv_lock_count s + 1\<rparr>"
    using assms unfolding SocketTrylock_def seq_iff act_basic_iff
    by (auto simp: seq_iff next_do_iff only_if_iff act_basic_iff split: if_splits)
  moreover have "pending (k\<lparr>sk_dw_lock := True\<rparr>) = pending k" for k
    by (simp add: pending_def waiting_def direct_rest_def)
  ultimately show ?thesis by (elim disjE) (rule streams_quiet; simp)+
qed

text \<open>C3 \<open>SendBuffer\<close> sends a stream in order: whatever the writes accept, the bytes that they take are
  the first of those that were waiting (the rest of a direct write, the list of high priority, the
  list of low priority), and the others still wait in the same order; unless the socket fails or is
  closed by it. \<open>within_size\<close> is what \<open>write\<close> promises: never more than it was given.\<close>

theorem stream_sent_in_order:
  assumes "SendBuffer i s = Inr (x, t)" and "sk_protocol (sv_slot s i) = TCP"
    and "x \<noteq> kSocketErr" and "sk_type (sv_slot t i) \<noteq> kSocketTypeInvalid"
  shows "\<exists>xs. exchange xs s t \<and>
    (list_all within_size xs \<longrightarrow> pending (sv_slot s i) = concat (map went_out xs) @ pending (sv_slot t i))"
proof -
  obtain ok r where r: "SocketTrylock s = Inr (ok, r)" and rest: "(if \<not> ok then ret Ignored
      else next_do (take_direct i) (seq (SendBuffer_step i) (\<lambda>r. next_do SocketUnlock (ret r)))) r = Inr (x, t)"
    using assms(1) unfolding SendBuffer_def seq_iff by blast
  have "streams i r t"
  proof (cases ok)
    case False
    then show ?thesis using rest by (simp add: act_basic_iff)
  next
    case True
    then obtain u v where u: "take_direct i r = Inr ((), u)" and v: "SendBuffer_step i u = Inr (x, v)"
      and t: "SocketUnlock v = Inr ((), t)"
      using rest by (auto simp: seq_iff next_do_iff act_basic_iff)
    have ru: "streams i r u" "at_front True (sv_slot u i)" using take_direct_streams [OF u] by simp_all
    have "sk_protocol (sv_slot u i) = TCP" using locked_streams [OF r, of i] ru(1) assms(2) by (simp add: streams_def)
    with SendBuffer_step_streams [OF v ru(2)] have "streams i u v"
      using assms(3,4) unlocked_streams(2) [OF t, of i] by (simp add: shut_down_def)
    then show ?thesis using ru(1) unlocked_streams(1) [OF t] streams_trans by blast
  qed
  then have "streams i s t" using locked_streams [OF r] streams_trans by blast
  then show ?thesis by (simp add: streams_def)
qed

text \<open>Two buffers wait; the first goes out whole, the second in part.\<close>

definition two_buffers :: server where
  "two_buffers = (sample_server (sample_platform Inr (Inr [])) (map sample_answer [2, 1]))
     \<lparr>sv_slot := (\<lambda>_. sample_socket\<lparr>sk_type := kSocketTypeConnected, sk_wb_size := 5,
        sk_high := [\<lparr>wb_buffer = 7, wb_ptr = (7, 0), wb_sz = 2\<rparr>],
        sk_low := [\<lparr>wb_buffer = 8, wb_ptr = (8, 16), wb_sz = 3\<rparr>]\<rparr>)\<rparr>"

lemma two_buffers_sent:
  "\<exists>t. SendBuffer 0 two_buffers = Inr (Ignored, t) \<and> sk_type (sv_slot t 0) = kSocketTypeConnected \<and>
    pending (sv_slot t 0) = [(8, 17), (8, 18)]"
  apply (simp add: SendBuffer_def run_eval SocketTrylock_def two_buffers_def sample_server_def SocketServer_new_def
     sample_socket_def take_direct_def SendBuffer_step_def ListUncomplete_def SendList_def sample_platform_def)
  apply (simp add: SendList_def SendListTCP.simps run_eval wlist_def set_wlist_def StatWrite_def add_size_def sample_answer_def
     ListUncomplete_def RaiseUncomplete_def SocketUnlock_def)
  by (simp add: pending_def waiting_def span_def bytes_at_def upt_conv_Cons)

theorem stream_sent_in_order_witness:
  "\<exists>xs t. exchange xs two_buffers t \<and> (list_all within_size xs \<longrightarrow>
    pending (sv_slot two_buffers 0) = concat (map went_out xs) @ [(8, 17), (8, 18)])"
proof -
  obtain t where t: "SendBuffer 0 two_buffers = Inr (Ignored, t)" "sk_type (sv_slot t 0) = kSocketTypeConnected"
    "pending (sv_slot t 0) = [(8, 17), (8, 18)]"
    using two_buffers_sent by blast
  have "sk_protocol (sv_slot two_buffers 0) = TCP" by (simp add: two_buffers_def sample_socket_def)
  from stream_sent_in_order [OF t(1) this] t(2,3) show ?thesis by auto
qed

end
