(* ===== verification/SocketTurns.thy ===== *)
theory SocketTurns
  imports SocketFlow SocketFacts
begin

text \<open>
  Runs of the socket server of \<open>skynet-src/socket_server.cpp\<close>: requests from the pipe, events, and
  calls by other threads, in any order. Every turn stays within \<open>evolves\<close>; so what a socket has queued
  is counted correctly, and a socket is reported closed at most once.
\<close>

section \<open>Incoming data\<close>

lemma tcp_closed_proper:
  assumes "tcp_closed i s = Inr (out, t)" and "sk_type (sv_slot s i) \<noteq> kSocketTypeInvalid"
  shows "proper s out t"
proof -
  let ?k = "sv_slot s i"
  consider (quiet) "out = Ignored" "t = s"
    | (force) "out = Ignored" "ForceClose i s = Inr ((), t)"
    | (half) "out = kSocketClose" "sk_type ?k \<noteq> kSocketTypeHalfCloseRead"
        "ForceClose i s = Inr ((), t) \<or> CloseRead i s = Inr ((), t)"
    using assms(1) unfolding tcp_closed_def
    by (auto simp: next_do_iff seq_iff act_basic_iff only_if_iff unset_pointer_def lift_res_iff NomoreSendingData_def split: if_splits)
  then show ?thesis
  proof cases
    case force
    then show ?thesis using ForceClose_proper by blast
  next
    case half
    have "\<not> shut (core_of ?k)" using half(2) assms(2) by (simp add: shut_def)
    then show ?thesis using half(3) ForceClose_proper CloseRead_proper by blast
  qed (simp add: proper_silent)
qed

text \<open>An action that evolves and never reports a closed socket.\<close>

lemma evolving_proper:
  assumes "evolving m" and "gives (\<lambda>r. r \<noteq> kSocketClose) m" and "m s = Inr (out, t)"
  shows "proper s out t"
proof (rule proper_silent)
  show "evolves (cores s) (cores t)" using assms(1,3) by (rule evolvingD)
  show "out \<noteq> kSocketClose" using assms(2,3) unfolding gives_def by blast
qed

lemma tcp_data_proper: "tcp_data i sz n bytes s = Inr (out, t) \<Longrightarrow> proper s out t"
proof (rule evolving_proper)
  show "evolving (tcp_data i sz n bytes)" unfolding tcp_data_def msg_bytes_def by (intro keeps_evolving keeps_rules)
  show "gives (\<lambda>r. r \<noteq> kSocketClose) (tcp_data i sz n bytes)" unfolding tcp_data_def by (intro gives_rules) simp_all
qed

lemma ForwardMessageTCP_proper:
  assumes "ForwardMessageTCP i s = Inr (out, t)" and "sk_type (sv_slot s i) \<noteq> kSocketTypeInvalid"
  shows "proper s out t"
proof -
  let ?k = "sv_slot s i"
  obtain sz a u where a: "ask (OsRead (sk_fd ?k) sz) s = Inr (a, u)"
    and rest: "(if an_ret a < 0 then
          if an_errno a = EINTR \<or> an_errno a = EAGAIN then ret Ignored
          else seq (strerror (an_errno a)) (ReportError i)
        else if an_ret a = 0 then tcp_closed i
        else seq (HalfcloseRead i) (\<lambda>halfclose.
            if halfclose then ret Ignored else tcp_data i sz (an_ret a) (an_bytes a))) u = Inr (out, t)"
    using assms(1) unfolding ForwardMessageTCP_def Let_def
    by (auto simp: seq_iff next_do_iff act_basic_iff unset_pointer_def lift_res_iff get_size_def split: param.splits)
  have u: "cores u = cores s" "sv_slot u = sv_slot s" using a by (auto simp: ask_iff)
  have "proper u out t"
  proof (cases "an_ret a \<noteq> 0 \<and> (an_ret a < 0 \<or> sk_type ?k = kSocketTypeHalfCloseRead)")
    case True
    then show ?thesis using rest u
      by (auto simp: seq_iff act_basic_iff HalfcloseRead_def ReportError_def next_do_iff split: if_splits intro!: proper_silent)
  next
    case False
    then have "tcp_closed i u = Inr (out, t) \<or> tcp_data i sz (an_ret a) (an_bytes a) u = Inr (out, t)"
      using rest u by (auto simp: seq_iff act_basic_iff HalfcloseRead_def split: if_splits)
    then show ?thesis using tcp_closed_proper [of i u] tcp_data_proper assms(2) u(2) by auto
  qed
  with u(1) show ?thesis by (rule proper_before)
qed

lemma ForwardMessageUDP_evolving: "evolving (ForwardMessageUDP i)"
  unfolding ForwardMessageUDP_def Let_def msg_bytes_def
  by (intro evolving_rules) (auto intro!: keeps_evolving keeps_rules)

lemma ForwardMessageUDP_result: "gives (\<lambda>r. r \<noteq> kSocketClose) (ForwardMessageUDP i)"
  unfolding ForwardMessageUDP_def Let_def by (intro gives_rules) simp_all

section \<open>Connections\<close>

lemma report_connected_evolves:
  assumes "report_connected i s = Inr (out, t)" and "sk_type (sv_slot s i) = kSocketTypeConnecting"
  shows "evolves (cores s) (cores t)"
proof -
  let ?rest = "seq (sock i) (\<lambda>k.
        next_do (msg (\<lambda>m. m\<lparr>pm_opaque := sk_opaque k, pm_id := sk_id k, pm_ud := 0\<rparr>))
          (seq (NomoreSendingData i) (\<lambda>nomore.
           seq (if nomore then EnableWrite i False else ret False) (\<lambda>failed.
             if failed then
               next_do (ForceClose i) (next_do (msg_data ''disable write failed'') (ret kSocketErr))
             else
               seq (ask (OsGetpeername (sk_fd k))) (\<lambda>a.
                 case (an_ret a = 0, an_name a) of
                   (True, Some text) \<Rightarrow> next_do (msg_data text) (ret kSocketOpen)
                 | _ \<Rightarrow> next_do msg_null (ret kSocketOpen))))))"
  obtain u where u: "set_type i kSocketTypeConnected s = Inr ((), u)" and rest: "?rest u = Inr (out, t)"
    using assms(1) unfolding report_connected_def next_do_iff [of "set_type _ _"] by auto
  have "evolves (cores s) (cores u)"
    using assms(2) by (intro retype_open [OF _ _ _ _ u]) (simp_all add: shut_def)
  moreover have "evolving ?rest"
    by (intro evolving_rules) (auto intro!: keeps_evolving keeps_rules split: bool.splits option.splits)
  then have "evolves (cores u) (cores t)" using rest by (rule evolvingD)
  ultimately show ?thesis by (rule evolves_trans)
qed

lemma ReportConnect_proper:
  assumes "ReportConnect i s = Inr (out, t)" and "sk_type (sv_slot s i) = kSocketTypeConnecting"
  shows "proper s out t"
proof -
  let ?k = "sv_slot s i"
  obtain a u where a: "ask (OsGetError (sk_fd ?k)) s = Inr (a, u)"
    and rest: "(if an_ret a < 0 \<or> an_value a \<noteq> 0 then
         next_do (ForceClose i)
           (next_do (seq (strerror (if an_ret a < 0 then an_errno a else an_value a)) msg_data) (ret kSocketErr))
       else report_connected i) u = Inr (out, t)"
    using assms(1) unfolding ReportConnect_def by (auto simp: seq_iff act_basic_iff)
  have u: "cores u = cores s" "sv_slot u = sv_slot s" using a by (auto simp: ask_iff)
  have bad: "evolving (next_do (ForceClose i) (next_do (seq (strerror e) msg_data) (ret kSocketErr)))" for e
    by (intro evolving_rules) (auto intro!: keeps_evolving keeps_rules)
  have "evolves (cores u) (cores t)"
    using rest u(2) assms(2) evolvingD [OF bad] report_connected_evolves by (auto split: if_splits)
  moreover have g: "gives (\<lambda>r. r \<noteq> kSocketClose) (ReportConnect i)"
    unfolding ReportConnect_def report_connected_def
    by (intro gives_rules) (auto intro!: gives_rules split: bool.splits option.splits)
  ultimately show ?thesis using u(1) givesD [OF g assms(1)] by (auto intro: proper_silent)
qed

lemma accepted_evolves:
  assumes "accepted i n client_fd name s = Inr (x, t)" and "reserved_for n s"
  shows "evolves (cores s) (cores t)"
proof -
  let ?good = "\<lambda>k. next_do (StatRead i 1)
          (next_do (set_type (HASH_ID n) kSocketTypeIPaccept)
          (next_do (msg (\<lambda>m. m\<lparr>pm_opaque := sk_opaque k, pm_id := sk_id k, pm_ud := n\<rparr>))
          (next_do msg_null
          (next_do (case name of None \<Rightarrow> ret () | Some text \<Rightarrow> msg_data text) (ret (1 :: int))))))"
  let ?bad = "next_do (tell (OsClose client_fd)) (ret 0)"
  obtain s1 s2 made v where s1: "SocketKeepalive client_fd s = Inr ((), s1)" and s2: "EpollNonblocking client_fd s1 = Inr ((), s2)"
    and new: "NewFd n client_fd TCP (sk_opaque (sv_slot s2 i)) False s2 = Inr (made, v)"
    and rest: "(if \<not> made then ?bad else ?good (sv_slot s2 i)) v = Inr (x, t)"
    using assms(1) unfolding accepted_def next_do_iff [of "SocketKeepalive _"] next_do_iff [of "EpollNonblocking _"] seq_iff
      act_basic_iff by auto
  have c2: "cores s2 = cores s" using keepsD [OF core_view.quiet_poll(5) s1] keepsD [OF core_view.quiet_poll(4) s2] by simp
  show ?thesis
  proof (cases made)
    case True
    then have new': "NewFd n client_fd TCP (sk_opaque (sv_slot s2 i)) False s2 = Inr (True, v)"
      and rest': "?good (sv_slot s2 i) v = Inr (x, t)" using new rest by simp_all
    have "edits (HASH_ID n) (\<lambda>k. k\<lparr>co_type := kSocketTypeIPaccept\<rparr>) (?good (sv_slot s2 i))"
      by (intro edits_quiet(1) edits_quiet(2) [OF set_type_edits] keeps_rules)
    then show ?thesis using rest' by (rule opened [OF assms(2) c2 new']) simp_all
  next
    case False
    then have new': "NewFd n client_fd TCP (sk_opaque (sv_slot s2 i)) False s2 = Inr (False, v)"
      and rest': "?bad v = Inr (x, t)" using new rest by simp_all
    have "keeps cores ?bad" by (intro keeps_rules)
    then show ?thesis using rest' by (rule refused_quiet [OF assms(2) c2 new'])
  qed
qed

lemma ReportAccept_evolves:
  assumes "ReportAccept i s = Inr (x, t)"
  shows "evolves (cores s) (cores t)"
proof -
  have change: "keeps cores (change (\<lambda>s. s\<lparr>sv_reserve_fd := r\<rparr>))" for r by (auto simp: keeps_def act_iff)
  have limit: "evolving (if b then accept_limit i e else ret 0)" for b e
    unfolding accept_limit_def by (intro keeps_evolving keeps_rules change)
  have close: "evolving (next_do (tell c) (ret (0 :: int)))" for c by (intro keeps_evolving keeps_rules)
  obtain a u where a: "ask (OsAccept (sk_fd (sv_slot s i))) s = Inr (a, u)"
    and rest: "(if an_ret a < 0 then
         if an_errno a = EMFILE \<or> an_errno a = ENFILE then accept_limit i (an_errno a) else ret 0
       else seq ReserveId (\<lambda>n.
           if n < 0 then next_do (tell (OsClose (an_ret a))) (ret 0)
           else accepted i n (an_ret a) (GetName a))) u = Inr (x, t)"
    using assms unfolding ReportAccept_def by (auto simp: seq_iff act_basic_iff)
  have "evolves (cores u) (cores t)"
  proof (cases "an_ret a < 0")
    case True
    have "(if an_errno a = EMFILE \<or> an_errno a = ENFILE then accept_limit i (an_errno a) else ret 0) u = Inr (x, t)"
      using rest unfolding if_P [OF True] .
    then show ?thesis by (rule evolvingD [OF limit])
  next
    case False
    then obtain n v where v: "ReserveId u = Inr (n, v)"
      and f: "(if n < 0 then next_do (tell (OsClose (an_ret a))) (ret 0) else accepted i n (an_ret a) (GetName a)) v = Inr (x, t)"
      using rest by (auto simp: seq_iff)
    have "evolves (cores v) (cores t)"
      using f evolvingD [OF close] accepted_evolves ReserveId_reserved [OF v] by (auto split: if_splits)
    then show ?thesis using evolvingD [OF evolving_ReserveId v] evolves_trans by blast
  qed
  then show ?thesis using keepsD [OF core_view.quiet_ask a] by simp
qed

section \<open>Events and requests\<close>

definition step_outcome :: "step \<Rightarrow> outcome" where
  "step_outcome st = (case st of Return out \<Rightarrow> out | _ \<Rightarrow> Ignored)"

lemma step_outcome_simps [simp]:
  "step_outcome (Return out) = out" "step_outcome Continue = Ignored" "step_outcome Through = Ignored"
  by (simp_all add: step_outcome_def)

lemma proper_after: "proper s out u \<Longrightarrow> cores t = cores u \<Longrightarrow> sv_msg t = sv_msg u \<Longrightarrow> proper s out t"
  by (simp add: proper_def)

lemma proper_quieter: "proper s out u \<Longrightarrow> cores t = cores u \<Longrightarrow> out' \<noteq> kSocketClose \<Longrightarrow> proper s out' t"
  by (simp add: proper_def)

lemma poll_read_proper:
  assumes "poll_read at j e s = Inr (st, t)" and "sk_type (sv_slot s j) \<noteq> kSocketTypeInvalid"
  shows "proper s (step_outcome st) t"
proof -
  let ?k = "sv_slot s j"
  obtain type u where r: "(if sk_protocol ?k = TCP then ForwardMessageTCP j else ForwardMessageUDP j) s = Inr (type, u)"
    and rest: "(if sk_protocol ?k = TCP \<and> type = kSocketMore then next_do step_back (ret (Return kSocketData))
       else if sk_protocol ?k \<noteq> TCP \<and> type = kSocketUDP then next_do step_back (ret (Return kSocketUDP))
       else
         next_do (only_if (ev_write e \<and> type \<noteq> kSocketClose \<and> type \<noteq> kSocketErr)
             (next_do (change (\<lambda>s. s\<lparr>sv_ev := (sv_ev s)[at := e\<lparr>ev_read := False\<rparr>]\<rparr>)) step_back))
           (ret (if type = Ignored then Continue else Return type))) u = Inr (st, t)"
    using assms(1) unfolding poll_read_def by (auto simp: seq_iff act_basic_iff)
  have "proper s type u"
    using r assms(2) ForwardMessageTCP_proper evolving_proper [OF ForwardMessageUDP_evolving ForwardMessageUDP_result]
    by (auto split: if_splits)
  moreover have "cores t = cores u" "sv_msg t = sv_msg u"
    using rest by (auto simp: next_do_iff only_if_iff act_basic_iff step_back_def split: if_splits)
  moreover have "step_outcome st = type \<or> step_outcome st \<noteq> kSocketClose"
    using rest by (auto simp: next_do_iff act_basic_iff split: if_splits)
  ultimately show ?thesis using proper_after proper_quieter by metis
qed

lemma poll_error_proper: "poll_error j s = Inr (st, t) \<Longrightarrow> proper s (step_outcome st) t"
proof -
  assume r: "poll_error j s = Inr (st, t)"
  have "keeps cores (poll_error j)" unfolding poll_error_def ReportError_def by (intro keeps_rules)
  from keepsD [OF this r] show ?thesis
    using r by (auto simp: poll_error_def ReportError_def seq_iff next_do_iff act_basic_iff intro!: proper_silent)
qed

lemma poll_eof_proper:
  assumes "poll_eof j s = Inr (st, t)" and "sk_type (sv_slot s j) \<noteq> kSocketTypeInvalid"
  shows "proper s (step_outcome st) t"
proof -
  have f: "ForceClose j s = Inr ((), t)" and st: "st = (if sk_type (sv_slot s j) = kSocketTypeHalfCloseRead then Continue else Return kSocketClose)"
    using assms(1) by (auto simp: poll_eof_def HalfcloseRead_def seq_iff next_do_iff act_basic_iff)
  show ?thesis using assms(2) st by (intro ForceClose_proper [OF f]) (auto simp: shut_def split: if_splits)
qed

lemma poll_socket_proper:
  assumes "poll_socket at j e s = Inr (st, t)"
  shows "proper s (step_outcome st) t"
proof -
  define u where "u = s\<lparr>sv_lock_slot := j, sv_lock_count := 0\<rparr>"
  have u: "cores u = cores s" by (simp add: u_def cores_def)
  have ready: "(if ev_read e then poll_read at j e
      else if ev_write e then seq (SendBuffer j) (\<lambda>r. ret (if r = Ignored then Continue else Return r))
      else if ev_error e then poll_error j else if ev_eof e then poll_eof j else ret Continue) u = Inr (st, t)
      \<Longrightarrow> sk_type (sv_slot u j) \<noteq> kSocketTypeInvalid \<Longrightarrow> proper u (step_outcome st) t"
    using poll_read_proper poll_error_proper poll_eof_proper evolving_proper [OF evolving_SendBuffer gives_SendBuffer]
    by (auto simp: seq_iff act_basic_iff proper_silent split: if_splits)
  have "poll_socket at j e s = (case sk_type (sv_slot u j) of
            kSocketTypeConnecting \<Rightarrow> seq (ReportConnect j) (\<lambda>r. ret (Return r))
          | kSocketTypeListen \<Rightarrow>
              seq (ReportAccept j) (\<lambda>ok.
                ret (if ok > 0 then Return kSocketAccept else if ok < 0 then Return kSocketErr else Continue))
          | kSocketTypeInvalid \<Rightarrow> next_do (log_error ''socket-server: invalid socket'') (ret Continue)
          | _ \<Rightarrow>
              if ev_read e then poll_read at j e
              else if ev_write e then
                seq (SendBuffer j) (\<lambda>r. ret (if r = Ignored then Continue else Return r))
              else if ev_error e then poll_error j
              else if ev_eof e then poll_eof j
              else ret Continue) u"
    by (simp add: poll_socket_def SocketLockInit_def next_do_def act_simps sock_def u_def)
  note run = trans [OF this [symmetric] assms]
  then have "proper u (step_outcome st) t"
    using ready ReportConnect_proper [of j u] ReportAccept_evolves [of j u]
    by (cases "sk_type (sv_slot u j)")
      (auto simp: seq_iff next_do_iff act_basic_iff log_error_def intro: proper_silent split: if_splits)
  with u show ?thesis by (rule proper_before)
qed

text \<open>The id of the new socket that a request is about.\<close>

definition creates :: "request \<Rightarrow> int option" where
  "creates r = (case r of ReqBind n fd opaque \<Rightarrow> Some n | ReqListen n fd opaque \<Rightarrow> Some n
     | ReqOpen n port opaque host \<Rightarrow> Some n | ReqUdp n fd v6 opaque \<Rightarrow> Some n | _ \<Rightarrow> None)"

lemma gives_new_sockets:
  "gives (\<lambda>r. r \<noteq> kSocketClose) (BindSocket n fd opaque)" "gives (\<lambda>r. r \<noteq> kSocketClose) (ListenSocket n fd opaque)"
  "gives (\<lambda>r. r \<noteq> kSocketClose) (OpenSocket n port opaque host)"
  unfolding BindSocket_def ListenSocket_def OpenSocket_def connected_socket_def connecting_socket_def
  by (intro gives_rules; auto intro!: gives_rules split: bool.splits option.splits)+

lemma new_sockets_proper:
  "BindSocket n fd opaque s = Inr (out, t) \<Longrightarrow> reserved_for n s \<Longrightarrow> proper s out t"
  "ListenSocket n fd opaque s = Inr (out, t) \<Longrightarrow> reserved_for n s \<Longrightarrow> proper s out t"
  "OpenSocket n port opaque host s = Inr (out, t) \<Longrightarrow> reserved_for n s \<Longrightarrow> proper s out t"
  by (blast intro: proper_silent BindSocket_evolves ListenSocket_evolves OpenSocket_evolves
      dest: givesD [OF gives_new_sockets(1)] givesD [OF gives_new_sockets(2)] givesD [OF gives_new_sockets(3)])+

lemma gives_trigger: "gives (\<lambda>r. r \<noteq> kSocketClose) (TriggerWrite n)" "gives (\<lambda>r. r \<noteq> kSocketClose) (SetUDPAddress n a)"
  unfolding TriggerWrite_def SetUDPAddress_def ReportError_def Let_def by (intro gives_rules; simp)+

lemma evolving_trigger: "evolving (TriggerWrite n)" "evolving (SetOptSocket n what v)"
  unfolding TriggerWrite_def SetOptSocket_def ReportError_def by (intro keeps_evolving keeps_rules)+

lemma evolving_SetUDPAddress: "evolving (SetUDPAddress n a)"
proof -
  have "keeps cores (upd i (\<lambda>k. k\<lparr>sk_p := p, sk_udpconnecting := sk_udpconnecting k - 1\<rparr>))" for i p
    by (auto simp: keeps_def act_iff cores_def core_of_def fun_eq_iff)
  then show ?thesis unfolding SetUDPAddress_def ReportError_def Let_def by (intro keeps_evolving keeps_rules)
qed

lemma send_request_proper:
  assumes "seq (SendSocket n sz b high address) (\<lambda>r. next_do (DecSendingRef n) (ret r)) s = Inr (out, t)"
  shows "proper s out t"
proof -
  obtain u where u: "SendSocket n sz b high address s = Inr (out, u)" and d: "DecSendingRef n u = Inr ((), t)"
    using assms by (auto simp: seq_iff next_do_iff act_basic_iff)
  have "evolves (cores s) (cores t)"
    using SendSocket_evolves [OF u] keepsD [OF core_view.quiet_counts(2) d] by simp
  then show ?thesis using givesD [OF gives_SendSocket u] by (rule proper_silent)
qed

lemma fill_address_proper:
  assumes "seq (fill_address a) m s = Inr (out, t)" and "\<And>a u. m a u = Inr (out, t) \<Longrightarrow> proper u out t"
  shows "proper s out t"
proof -
  obtain b u where "fill_address a s = Inr (b, u)" and m: "m b u = Inr (out, t)" using assms(1) by (auto simp: seq_iff)
  then have "cores u = cores s" using keepsD [OF core_view.quiet_queries(8)] by blast
  then show ?thesis using assms(2) [OF m] by (rule proper_before)
qed

lemma ctrl_case_proper:
  assumes "ctrl_case r s = Inr (out, t)" and "\<And>n. creates r = Some n \<Longrightarrow> reserved_for n s"
  shows "proper s out t"
proof (cases r)
  case (ReqSendUdp n sz b a)
  have "proper u out t" if "SendSocket n sz b True (Some a) u = Inr (out, t)" for a u
    using SendSocket_evolves [OF that] givesD [OF gives_SendSocket that] by (rule proper_silent)
  then show ?thesis using assms(1) unfolding ReqSendUdp ctrl_case.simps by (rule fill_address_proper [rotated])
next
  case (ReqSetUdp n a)
  then show ?thesis using assms(1) evolving_proper [OF evolving_SetUDPAddress gives_trigger(2)]
    by (auto intro: fill_address_proper)
next
  case (ReqSend high n sz b)
  then show ?thesis using assms(1) send_request_proper by simp
qed (use assms CloseSocket_proper evolving_proper [OF evolving_ResumeSocket gives_resume_pause(1)]
    evolving_proper [OF evolving_PauseSocket gives_resume_pause(2)] evolving_proper [OF evolving_trigger(1) gives_trigger(1)]
    new_sockets_proper AddUDPSocket_evolves
    evolvingD [OF evolving_trigger(2)] in
  \<open>auto simp: creates_def next_do_iff act_iff log_error_def intro: proper_silent\<close>)

section \<open>Calls by other threads\<close>

lemma CanDirectWrite_iff: "CanDirectWrite n s = Inr (can, t) \<Longrightarrow>
    t = s \<and> (can \<longrightarrow> sk_type (sv_slot s (HASH_ID n)) = kSocketTypeConnected)"
  by (auto simp: CanDirectWrite_def NomoreSendingData_def seq_iff act_basic_iff)

lemma direct_write_protocol:
  assumes "direct_write i b s = Inr (Some written, t)"
  shows "cores t = cores s" and "sk_protocol (sv_slot s i) \<noteq> UNKNOWN"
  using assms unfolding direct_write_def
  by (auto simp: seq_iff act_iff ask_iff get_address_def split: if_splits option.splits param.splits prod.splits
      dest: UDPSocketAddress_protocol)

lemma direct_buffer_evolves:
  assumes "upd i (\<lambda>k. k\<lparr>sk_dw_buffer := x, sk_dw_size := y, sk_dw_offset := z\<rparr>) s = Inr (u, t)"
    and "\<not> idle (core_of (sv_slot s i))"
  shows "evolves (cores s) (cores t)"
proof -
  have "cores t = put i ((core_of (sv_slot s i))\<lparr>co_dw_buffer := x\<rparr>) (cores s)"
    using assms(1) by (auto simp: act_iff cores_upd core_of_def)
  moreover have "evolves (cores s) (put i ((core_of (sv_slot s i))\<lparr>co_dw_buffer := x\<rparr>) (cores s))"
    using assms(2) by (intro evolves_put) (auto simp: sized_def idle_def queued_def lives_def)
  ultimately show ?thesis by simp
qed

lemma send_direct_evolves:
  assumes "send_direct n b s = Inr (r, t)" and "sk_type (sv_slot s (HASH_ID n)) = kSocketTypeConnected"
  shows "evolves (cores s) (cores t)"
proof -
  let ?i = "HASH_ID n"
  let ?done = "next_do SocketUnlock (next_do (tell (Delete (sb_buffer b))) (ret 0))"
  let ?later = "next_do SocketUnlock (next_do (SendRequest (ReqTrigger n)) (ret 0))"
  have quiet: "keeps cores ?done" "keeps cores ?later" by (intro keeps_rules)+
  obtain w u where w: "direct_write ?i b s = Inr (w, u)" and rest: "(case w of
          None \<Rightarrow>
            next_do (log_error (''socket-server : set udp ('' @ to_string n @ '') address first.''))
              (next_do SocketUnlock (next_do (tell (Delete (sb_buffer b))) (ret (- 1))))
        | Some written \<Rightarrow>
            let m = (if written < 0 then 0 else written) in
            next_do (StatWrite ?i m)
              (if word_of_int m = snd (SendObjectInitFromSendbuffer b) then ?done
               else
                 next_do (upd ?i (\<lambda>k. k\<lparr>sk_dw_buffer := fst (CloneBuffer b), sk_dw_size := snd (CloneBuffer b),
                     sk_dw_offset := m\<rparr>)) ?later)) u = Inr (r, t)"
    using assms(1) unfolding send_direct_def Let_def case_prod_beta seq_iff by blast
  show ?thesis
  proof (cases w)
    case None
    have "keeps cores (direct_write ?i b)"
      unfolding direct_write_def case_prod_beta Let_def by (intro keeps_rules)
    then have "cores u = cores s" using w by (rule keepsD)
    moreover have "keeps cores (next_do (log_error err)
        (next_do SocketUnlock (next_do (tell (Delete (sb_buffer b))) (ret (- 1 :: int)))))" for err by (intro keeps_rules)
    then have "cores t = cores u" using rest unfolding None option.case by (rule keepsD)
    ultimately show ?thesis by simp
  next
    case (Some written)
    note wr = direct_write_protocol [OF w [unfolded Some]]
    define m where "m = (if written < 0 then 0 else written)"
    obtain y v where v: "StatWrite ?i m u = Inr (y, v)" and f: "(if word_of_int m = snd (SendObjectInitFromSendbuffer b) then ?done
        else next_do (upd ?i (\<lambda>k. k\<lparr>sk_dw_buffer := fst (CloneBuffer b), sk_dw_size := snd (CloneBuffer b),
            sk_dw_offset := m\<rparr>)) ?later) v = Inr (r, t)"
      using rest unfolding Some option.case Let_def m_def next_do_iff [of "StatWrite _ _"] by blast
    have cv: "cores v = cores s" using keepsD [OF core_view.quiet_stat(2) v] wr(1) by simp
    have busy: "\<not> idle (core_of (sv_slot v ?i))"
      using cores_eqD(1) [OF cv, of ?i] wr(2) assms(2) by (simp add: idle_def)
    have "evolves (cores v) (cores t)"
    proof (cases "word_of_int m = snd (SendObjectInitFromSendbuffer b)")
      case True
      have "?done v = Inr (r, t)" using f unfolding if_P [OF True] .
      from keepsD [OF quiet(1) this] show ?thesis by simp
    next
      case False
      have "next_do (upd ?i (\<lambda>k. k\<lparr>sk_dw_buffer := fst (CloneBuffer b), sk_dw_size := snd (CloneBuffer b),
            sk_dw_offset := m\<rparr>)) ?later v = Inr (r, t)" using f unfolding if_not_P [OF False] .
      then obtain x v' where v': "upd ?i (\<lambda>k. k\<lparr>sk_dw_buffer := fst (CloneBuffer b), sk_dw_size := snd (CloneBuffer b),
            sk_dw_offset := m\<rparr>) v = Inr (x, v')" and l: "?later v' = Inr (r, t)"
        unfolding next_do_iff [of "upd _ _"] by blast
      from direct_buffer_evolves [OF v' busy] keepsD [OF quiet(2) l] show ?thesis by simp
    qed
    then show ?thesis using cv by simp
  qed
qed

lemma send_queued_quiet: "keeps cores (send_queued n high b)"
  unfolding send_queued_def by (intro keeps_rules)

lemma Server_Send_cases:
  assumes "Server_Send b s = Inr (r, t)"
  obtains (freed) "next_do (FreeBuffer b) (ret (- 1)) s = Inr (r, t)"
    | (direct) u where "cores u = cores s" "CanDirectWrite (sb_id b) u = Inr (True, u)" "send_direct (sb_id b) b u = Inr (r, t)"
    | (queued) u where "cores u = cores s" "send_queued (sb_id b) True b u = Inr (r, t)"
proof (cases "next_do (FreeBuffer b) (ret (- 1)) s = Inr (r, t)")
  case False
  let ?n = "sb_id b" and ?queue = "send_queued (sb_id b) True b"
  define s1 where "s1 = s\<lparr>sv_lock_slot := HASH_ID ?n, sv_lock_count := 0\<rparr>"
  have s1: "cores s1 = cores s" by (simp add: s1_def cores_def)
  let ?send = "seq (CanDirectWrite ?n) (\<lambda>can. seq (if can then SocketTrylock else ret False) (\<lambda>locked.
      if locked then seq (CanDirectWrite ?n) (\<lambda>can. if can then send_direct ?n b else next_do SocketUnlock ?queue)
      else ?queue))"
  have "Server_Send b s = (if sk_id (sv_slot s (HASH_ID ?n)) \<noteq> ?n \<or> sk_type (sv_slot s (HASH_ID ?n)) = kSocketTypeInvalid \<or>
      sk_closing (sv_slot s (HASH_ID ?n)) then next_do (FreeBuffer b) (ret (- 1)) s else ?send s1)"
    unfolding Server_Send_def Let_def
    by (simp add: act_simps sock_def SocketInvalid_def SocketLockInit_def s1_def next_do_def)
  then have "?send s1 = Inr (r, t)" using assms False by (simp split: if_splits)
  then obtain can u1 locked u where can: "CanDirectWrite ?n s1 = Inr (can, u1)"
    and locked: "(if can then SocketTrylock else ret False) u1 = Inr (locked, u)"
    and rest: "(if locked then seq (CanDirectWrite ?n) (\<lambda>can.
        if can then send_direct ?n b else next_do SocketUnlock ?queue) else ?queue) u = Inr (r, t)"
    unfolding seq_iff by blast
  have k: "keeps cores (if can then SocketTrylock else ret False)" by (intro keeps_rules)
  have cu: "cores u = cores s" using keepsD [OF k locked] CanDirectWrite_iff [OF can] s1 by simp
  show thesis
  proof (cases locked)
    case True
    then obtain can' v where v: "CanDirectWrite ?n u = Inr (can', v)"
      and f: "(if can' then send_direct ?n b else next_do SocketUnlock ?queue) v = Inr (r, t)"
      using rest by (auto simp: seq_iff)
    have vu: "v = u" using CanDirectWrite_iff [OF v] by simp
    show thesis
    proof (cases can')
      case True
      then show thesis using direct [OF cu] v f vu by simp
    next
      case False
      then obtain w where w: "SocketUnlock u = Inr ((), w)" and q: "?queue w = Inr (r, t)"
        using f vu by (auto simp: next_do_iff)
      have "cores w = cores s" using keepsD [OF core_view.quiet_lock(2) w] cu by simp
      then show thesis using q by (rule queued)
    qed
  next
    case False
    then show thesis using queued [OF cu] rest by simp
  qed
qed (rule freed)

lemma Server_Send_evolves:
  assumes "Server_Send b s = Inr (r, t)"
  shows "evolves (cores s) (cores t)"
  using assms
proof (cases rule: Server_Send_cases)
  case freed
  have "keeps cores (next_do (FreeBuffer b) (ret (- 1 :: int)))" by (intro keeps_rules)
  from keepsD [OF this freed] show ?thesis by simp
next
  case direct
  then show ?thesis using send_direct_evolves [OF direct(3)] CanDirectWrite_iff [OF direct(2)] by simp
next
  case queued
  then show ?thesis using keepsD [OF send_queued_quiet queued(2)] by simp
qed

lemma evolving_sends:
  "evolving (Server_Send b)" "evolving (Server_SendLowpriority b)" "evolving (UDPSend a b)" "evolving (UDPConnect n addr port)"
proof -
  show "evolving (Server_Send b)" using Server_Send_evolves by (auto simp: evolving_def)
  show "evolving (Server_SendLowpriority b)"
    unfolding Server_SendLowpriority_def by (intro keeps_evolving keeps_rules send_queued_quiet)
  show "evolving (UDPSend a b)"
    unfolding UDPSend_def udp_direct_def udp_queued_def Let_def case_prod_beta by (intro keeps_evolving keeps_rules)
  show "evolving (UDPConnect n addr port)" unfolding UDPConnect_def Let_def by (intro keeps_evolving keeps_rules)
qed

lemma quiet_bind: "keeps cores (DoBind host port)" "keeps cores (DoListen host port backlog)"
proof -
  show bind: "keeps cores (DoBind host port)" unfolding DoBind_def Let_def by (intro keeps_rules)
  show "keeps cores (DoListen host port backlog)" unfolding DoListen_def by (intro keeps_rules bind)
qed

lemma evolving_openings:
  "evolving (Server_Connect opaque addr port)" "evolving (Server_Listen opaque host port backlog)"
  "evolving (Server_Bind opaque fd)" "evolving (Server_UDP opaque host port)"
  unfolding Server_Connect_def OpenRequest_def Server_Listen_def Server_Bind_def Server_UDP_def
  by (intro evolving_rules; auto intro!: keeps_evolving keeps_rules quiet_bind evolving_rules)+

section \<open>Runs\<close>

definition reported :: "outcome \<Rightarrow> server \<Rightarrow> int list" where
  "reported out t = (if out = kSocketClose then [pm_id (sv_msg t)] else [])"

text \<open>
  One turn, with the ids that it reports closed: a request that the socket thread has read from the
  pipe, an event of a socket, a call by another thread, or anything that leaves the sockets and the
  counter of ids as they are (waiting, reading from the pipe, the time, what \<open>Poll\<close> keeps about its
  events). A request for a new socket meets its slot as it was reserved.
\<close>

inductive turn :: "server \<Rightarrow> int list \<Rightarrow> server \<Rightarrow> bool" where
  turn_quiet: "cores t = cores s \<Longrightarrow> turn s [] t"
| turn_request: "ctrl_case r s = Inr (out, t) \<Longrightarrow> (\<And>n. creates r = Some n \<Longrightarrow> reserved_for n s) \<Longrightarrow> turn s (reported out t) t"
| turn_event: "poll_socket at j e s = Inr (st, t) \<Longrightarrow> turn s (reported (step_outcome st) t) t"
| turn_send: "Server_Send b s = Inr (x, t) \<Longrightarrow> turn s [] t"
| turn_send_low: "Server_SendLowpriority b s = Inr (x, t) \<Longrightarrow> turn s [] t"
| turn_udp_send: "UDPSend a b s = Inr (x, t) \<Longrightarrow> turn s [] t"
| turn_udp_connect: "UDPConnect n addr port s = Inr (x, t) \<Longrightarrow> turn s [] t"
| turn_connect: "Server_Connect opaque addr port s = Inr (x, t) \<Longrightarrow> turn s [] t"
| turn_listen: "Server_Listen opaque host port backlog s = Inr (x, t) \<Longrightarrow> turn s [] t"
| turn_bind: "Server_Bind opaque fd s = Inr (x, t) \<Longrightarrow> turn s [] t"
| turn_udp: "Server_UDP opaque host port s = Inr (x, t) \<Longrightarrow> turn s [] t"

inductive run :: "server \<Rightarrow> int list \<Rightarrow> server \<Rightarrow> bool" where
  run_start: "run s [] s"
| run_turn: "run s cs t \<Longrightarrow> turn t new u \<Longrightarrow> run s (cs @ new) u"

lemma proper_report:
  "proper s out t \<Longrightarrow> evolves (cores s) (cores t) \<and> (reported out t = [] \<or> (\<exists>n. reported out t = [n] \<and> reports_close n (cores s) (cores t)))"
  by (auto simp: proper_def reported_def)

lemma turn_evolves:
  "turn s new t \<Longrightarrow> evolves (cores s) (cores t) \<and> (new = [] \<or> (\<exists>n. new = [n] \<and> reports_close n (cores s) (cores t)))"
proof (induction rule: turn.induct)
  case turn_request
  then show ?case using proper_report [OF ctrl_case_proper] by blast
next
  case turn_event
  then show ?case using proper_report [OF poll_socket_proper] by blast
qed (auto dest: evolvingD [OF evolving_sends(1)] evolvingD [OF evolving_sends(2)] evolvingD [OF evolving_sends(3)]
    evolvingD [OF evolving_sends(4)] evolvingD [OF evolving_openings(1)] evolvingD [OF evolving_openings(2)]
    evolvingD [OF evolving_openings(3)] evolvingD [OF evolving_openings(4)])

text \<open>What holds of the ledger after a run, and of the ids that were reported.\<close>

definition settled :: "int list \<Rightarrow> ledger \<Rightarrow> bool" where
  "settled cs c \<longleftrightarrow> all_sized c \<and> 0 \<le> fst c \<and> distinct cs \<and>
     (\<forall>n \<in> set cs. n \<le> fst c \<and> (co_id (snd c (HASH_ID n)) = n \<longrightarrow> shut (snd c (HASH_ID n))))"

lemma settled_evolves:
  assumes "settled cs c" and "evolves c d"
  shows "settled cs d"
proof -
  have d: "all_sized d" "0 \<le> fst d" "later c d" using assms by (auto simp: settled_def evolves_def)
  have "n \<le> fst d \<and> (co_id (snd d (HASH_ID n)) = n \<longrightarrow> shut (snd d (HASH_ID n)))" if "n \<in> set cs" for n
  proof -
    have "n \<le> fst c" "co_id (snd c (HASH_ID n)) = n \<longrightarrow> shut (snd c (HASH_ID n))"
      using assms(1) that by (auto simp: settled_def)
    moreover have "fst c \<le> fst d" and "lives (snd c (HASH_ID n)) (snd d (HASH_ID n)) \<or> fst c < co_id (snd d (HASH_ID n))"
      using d(3) by (auto simp: later_def)
    ultimately show ?thesis by (auto simp: lives_def shut_def)
  qed
  then show ?thesis using d assms(1) by (simp add: settled_def)
qed

lemma settled_report:
  assumes "settled cs c" and "evolves c d" and "reports_close n c d"
  shows "settled (cs @ [n]) d"
proof -
  have d: "settled cs d" using assms(1,2) by (rule settled_evolves)
  obtain i where i: "co_id (snd c i) = n" "\<not> shut (snd c i)" "co_id (snd d i) = n" "shut (snd d i)"
    using assms(3) by (auto simp: reports_close_def)
  then have "HASH_ID n = i" "n \<le> fst c"
    using assms(1) by (auto simp: settled_def all_sized_def placed_def shut_def)
  moreover have "fst c \<le> fst d" using assms(1,2) by (auto simp: settled_def evolves_def later_def)
  moreover have "n \<notin> set cs" using assms(1) i(1,2) \<open>HASH_ID n = i\<close> by (auto simp: settled_def)
  ultimately show ?thesis using d i by (auto simp: settled_def)
qed

lemma run_settled: "run s cs t \<Longrightarrow> settled [] (cores s) \<Longrightarrow> settled cs (cores t)"
proof (induction rule: run.induct)
  case (run_turn s cs t new u)
  then have c: "settled cs (cores t)" by simp
  have e: "evolves (cores t) (cores u)" and "new = [] \<or> (\<exists>n. new = [n] \<and> reports_close n (cores t) (cores u))"
    using turn_evolves [OF run_turn.hyps(2)] by blast+
  then consider "new = []" | n where "new = [n]" "reports_close n (cores t) (cores u)" by blast
  then show ?case
  proof cases
    case 1
    then show ?thesis using settled_evolves [OF c e] by simp
  next
    case 2
    show ?thesis unfolding 2(1) using c e 2(2) by (rule settled_report)
  qed
qed

lemma new_server_settled:
  assumes "\<And>i. sk_dw_buffer (mem i) = 0"
  shows "settled [] (cores (SocketServer_new mem evs pf time efd fd0 fd1 answers calls))"
  using assms
  by (auto simp: settled_def cores_def SocketServer_new_def all_sized_def sized_def placed_def idle_def
      ClearWriteBufferList_def)

section \<open>A run\<close>

text \<open>A socket is bound, 5 bytes are queued for it, and it is closed: the run that the two witnesses use.\<close>

definition sample_start :: "answer list \<Rightarrow> server" where
  "sample_start answers = sample_server (sample_platform Inr (Inr [])) answers"

lemma first_id:
  assumes "sv_alloc_id s = 0" and "sk_type (sv_slot s 1) = kSocketTypeInvalid"
  shows "ReserveId s = Inr (1, reserved 1 s)"
proof -
  have "find (free_id s) [sv_alloc_id s + 1 .. sv_alloc_id s + 65536] = Some (sv_alloc_id s + 1)"
    by (rule find_upto_first) (simp_all add: free_id_def HASH_ID_def assms(1) assms(2) [simplified])
  then have "ReserveId s = Inr (sv_alloc_id s + 1, reserved (sv_alloc_id s + 1) s)"
    using reserve_finds_slot [of s] assms(1) by (simp only: option.case) simp
  then show ?thesis using assms(1) by simp
qed

lemmas sample_eval = run_eval SendRequest_def write_request.simps reserved_def sample_start_def sample_server_def
  SocketServer_new_def sample_platform_def sample_answer_def sample_socket_def HASH_ID_def ID_TAG16_def set_type_def
  EpollAdd_def EpollEnable_def EpollNonblocking_def EnableRead_def EnableWrite_def SocketLockInit_def SocketLock_def SocketUnlock_def


definition sample_data :: sendbuffer where
  "sample_data = \<lparr>sb_id = 1, sb_type = BufferMemory, sb_buffer = 7, sb_sz = 5\<rparr>"

definition holds_sample :: "server \<Rightarrow> bool" where
  "holds_sample t \<longleftrightarrow> sk_type (sv_slot t 1) = kSocketTypeBind \<and> sk_protocol (sv_slot t 1) = TCP \<and>
     sk_low (sv_slot t 1) = [] \<and> sk_high (sv_slot t 1) = [\<lparr>wb_buffer = 7, wb_ptr = (7, 0), wb_sz = 5\<rparr>] \<and>
     (\<exists>u. ctrl_case (ReqClose 1 True 0) t = Inr (kSocketClose, u) \<and> pm_id (sv_msg u) = 1)"

lemma sample_turns:
  "\<exists>x t. Server_Bind 0 9 (sample_start (map sample_answer [18, 0, 26, 0])) = Inr (x, t) \<and> reserved_for 1 t \<and>
    (\<exists>u. ctrl_case (ReqBind 1 9 0) t = Inr (kSocketOpen, u) \<and>
    (\<exists>y v. Server_SendLowpriority sample_data u = Inr (y, v) \<and>
    (\<exists>w. ctrl_case (ReqSend False 1 5 7) v = Inr (Ignored, w) \<and> holds_sample w)))"
  apply (simp add: Server_Bind_def first_id sample_eval BindSocket_def NewFd_def reserved_for_def
      Server_SendLowpriority_def sample_data_def SocketInvalid_def send_queued_def IncSendingRef_def CloneBuffer_def)
  apply (simp add: SendSocket_def SendBufferEmpty_def send_idle_def AppendSendbuffer_def AppendSendbuffer_node_def
      add_size_def wlist_def set_wlist_def DecSendingRef_def warn_socket_def sample_eval WARNING_SIZE_def)
  apply (simp add: holds_sample_def CloseSocket_def SocketInvalid_def HalfcloseRead_def NomoreSendingData_def
      ForceClose_def steps_def FreeWriteBufferList_def EpollDel_def free_direct_def sample_eval)
  done

lemma sample_run: "\<exists>t. run (sample_start (map sample_answer [18, 0, 26, 0])) [] t \<and> holds_sample t"
proof -
  let ?s = "sample_start (map sample_answer [18, 0, 26, 0])"
  obtain x t u y v w where a: "Server_Bind 0 9 ?s = Inr (x, t)" and r: "reserved_for 1 t"
    and b: "ctrl_case (ReqBind 1 9 0) t = Inr (kSocketOpen, u)" and c: "Server_SendLowpriority sample_data u = Inr (y, v)"
    and d: "ctrl_case (ReqSend False 1 5 7) v = Inr (Ignored, w)" and w: "holds_sample w"
    using sample_turns by blast
  have "run ?s ([] @ []) t" by (rule run_turn [OF run_start turn_bind [OF a]])
  then have "run ?s (([] @ []) @ reported kSocketOpen u) u" by (rule run_turn [OF _ turn_request [OF b]]) (simp add: creates_def r)
  then have "run ?s ((([] @ []) @ reported kSocketOpen u) @ []) v" by (rule run_turn [OF _ turn_send_low [OF c]])
  then have "run ?s (((([] @ []) @ reported kSocketOpen u) @ []) @ reported Ignored w) w"
    by (rule run_turn [OF _ turn_request [OF d]]) (simp add: creates_def)
  then show ?thesis using w by (auto simp: reported_def)
qed

section \<open>What runs keep\<close>

text \<open>C4 Whatever requests, events and calls a new server goes through, in any order, the close of a
  socket is reported at most once for each id. (The memory of the server is taken as 0 where the
  code does not set it.)\<close>

theorem close_reported_once:
  assumes "run (SocketServer_new mem evs pf time efd fd0 fd1 answers calls) cs t" and "\<And>i. sk_dw_buffer (mem i) = 0"
  shows "distinct cs"
  using run_settled [OF assms(1) new_server_settled [of mem]] assms(2) by (simp add: settled_def)

theorem close_reported_once_witness:
  "\<exists>t. run (sample_start (map sample_answer [18, 0, 26, 0])) [1] t \<and> distinct [1 :: int]"
proof -
  obtain s where s: "run (sample_start (map sample_answer [18, 0, 26, 0])) [] s" and "holds_sample s"
    using sample_run by blast
  then obtain t where t: "ctrl_case (ReqClose 1 True 0) s = Inr (kSocketClose, t)" "pm_id (sv_msg t) = 1"
    by (auto simp: holds_sample_def)
  have "run (sample_start (map sample_answer [18, 0, 26, 0])) ([] @ reported kSocketClose t) t"
    by (rule run_turn [OF s turn_request [OF t(1)]]) (simp add: creates_def)
  then have r: "run (sample_start (map sample_answer [18, 0, 26, 0])) [1] t" using t(2) by (simp add: reported_def)
  from close_reported_once [OF r [unfolded sample_start_def sample_server_def]] have "distinct [1 :: int]"
    by (simp add: sample_socket_def)
  then show ?thesis using r by blast
qed

lemma run_slot:
  assumes "run (SocketServer_new mem evs pf time efd fd0 fd1 answers calls) cs t" and "\<And>i. sk_dw_buffer (mem i) = 0"
  shows "sized (core_of (sv_slot t i))" and "placed (sv_alloc_id t) i (core_of (sv_slot t i))"
  using run_settled [OF assms(1) new_server_settled [of mem]] assms(2) by (simp_all add: settled_def all_sized_def cores_def)

text \<open>C6 The sockets of a running server are well formed: a slot in use is the one that its id leads to,
  its id has been given, a reserved slot has no protocol yet, and a slot without an open socket holds
  nothing that waits to be sent. So two slots in use never have the same id.\<close>

theorem slots_well_formed:
  assumes "run (SocketServer_new mem evs pf time efd fd0 fd1 answers calls) cs t" and "\<And>i. sk_dw_buffer (mem i) = 0"
  shows "(sk_type (sv_slot t i) = kSocketTypeInvalid \<or>
      HASH_ID (sk_id (sv_slot t i)) = i \<and> sk_id (sv_slot t i) \<le> sv_alloc_id t) \<and>
    (sk_type (sv_slot t i) = kSocketTypeReserve \<longrightarrow> sk_protocol (sv_slot t i) = UNKNOWN) \<and>
    (sk_type (sv_slot t i) = kSocketTypeInvalid \<or> sk_protocol (sv_slot t i) = UNKNOWN \<longrightarrow>
      SendBufferEmpty (sv_slot t i) \<and> sk_dw_buffer (sv_slot t i) = 0)"
  using run_slot [OF assms, of i] by (auto simp: sized_def placed_def idle_def SendBufferEmpty_def split: if_splits)

theorem slots_well_formed_witness:
  "\<exists>t. run (sample_start (map sample_answer [18, 0, 26, 0])) [] t \<and> sk_id (sv_slot t 1) \<le> sv_alloc_id t"
proof -
  obtain t where t: "run (sample_start (map sample_answer [18, 0, 26, 0])) [] t" and h: "holds_sample t"
    using sample_run by blast
  from slots_well_formed [OF t [unfolded sample_start_def sample_server_def], of 1] h
  have "sk_id (sv_slot t 1) \<le> sv_alloc_id t" by (simp add: holds_sample_def sample_socket_def)
  then show ?thesis using t by blast
qed

text \<open>C5 In such a run \<open>wb_size\<close> of an open socket is always the number of bytes in its two lists, as a
  64-bit integer; so the assertion that it is 0 when they are empty cannot fail.\<close>

theorem queued_bytes_counted:
  assumes "run (SocketServer_new mem evs pf time efd fd0 fd1 answers calls) cs t" and "\<And>i. sk_dw_buffer (mem i) = 0"
    and "sk_type (sv_slot t i) \<noteq> kSocketTypeInvalid" and "sk_protocol (sv_slot t i) \<noteq> UNKNOWN"
  shows "sk_wb_size (sv_slot t i) = sint (sum_list (map wb_sz (sk_high (sv_slot t i) @ sk_low (sv_slot t i)))) \<and>
    (SendBufferEmpty (sv_slot t i) \<longrightarrow> sk_wb_size (sv_slot t i) = 0)"
proof -
  have "sized (core_of (sv_slot t i))" using assms(1,2) by (rule run_slot(1))
  then show ?thesis using assms(3,4) by (auto simp: sized_def idle_def queued_def SendBufferEmpty_def)
qed

theorem queued_bytes_counted_witness:
  "\<exists>t. run (sample_start (map sample_answer [18, 0, 26, 0])) [] t \<and> sk_wb_size (sv_slot t 1) = 5"
proof -
  obtain t where t: "run (sample_start (map sample_answer [18, 0, 26, 0])) [] t" and h: "holds_sample t"
    using sample_run by blast
  from queued_bytes_counted [OF t [unfolded sample_start_def sample_server_def], of 1] h have "sk_wb_size (sv_slot t 1) = 5"
    by (simp add: holds_sample_def sample_socket_def)
  then show ?thesis using t by blast
qed

end
