(* ===== verification/Command.thy ===== *)
theory Command
  imports Dispatch Timer
begin

text \<open>
  \<open>skynet-src/command.cpp\<close>: the text commands of a service, with \<open>env.cpp\<close> (a stub: every variable is
  empty) and the part of \<open>log.cpp\<close> that opens files. Views of strings are strings; reading \<open>param[0]\<close> of
  an empty one is \<open>OutOfBounds\<close>.
\<close>

section \<open>Text\<close>

text \<open>\<open>find_first_of (' ')\<close>, \<open>substr\<close>: positions are 64 bits wide, \<open>npos\<close> is \<open>-1\<close>.\<close>

definition find_space :: "string \<Rightarrow> u64" where
  "find_space s = (if CHR '' '' \<in> set s then of_nat (length (takeWhile (\<lambda>c. c \<noteq> CHR '' '') s)) else - 1)"

definition substr :: "string \<Rightarrow> u64 \<Rightarrow> u64 \<Rightarrow> string res" where
  "substr s pos n = (if unat pos > length s then Inl Exception else Inr (take (unat n) (drop (unat pos) s)))"

text \<open>\<open>std::stol (s, ..., 10)\<close> and \<open>std::stoi (s, nullptr, 0)\<close> throw without a digit and out of range.\<close>

definition signed_value :: "bool \<times> nat \<times> nat \<Rightarrow> nat \<Rightarrow> int res" where
  "signed_value r bits =
     (let (neg, v, n) = r; w = (if neg then - int v else int v) in
      if n = 0 \<or> w < - (2 ^ (bits - 1)) \<or> w \<ge> 2 ^ (bits - 1) then Inl Exception else Inr w)"

definition stol10 :: "string \<Rightarrow> int res" where
  "stol10 s = signed_value (scan_number 10 s) 64"

definition auto_base :: "string \<Rightarrow> nat" where
  "auto_base s =
     (let s1 = dropWhile is_space s;
          s2 = (if s1 \<noteq> [] \<and> (hd s1 = CHR ''-'' \<or> hd s1 = CHR ''+'') then tl s1 else s1)
      in if strip_prefix16 16 s2 \<noteq> s2 then 16 else if s2 \<noteq> [] \<and> hd s2 = CHR ''0'' then 8 else 10)"

definition stoi0 :: "string \<Rightarrow> int res" where
  "stoi0 s = signed_value (scan_number (auto_base s) s) 32"

text \<open>Eight digits in base 16, upper or lower case.\<close>

definition hex_digit :: "bool \<Rightarrow> u32 \<Rightarrow> char" where
  "hex_digit upper d =
     (let n = unat d in char_of (if n < 10 then 48 + n else if upper then 55 + n else 87 + n :: nat))"

definition hex_nibble :: "bool \<Rightarrow> u32 \<Rightarrow> nat \<Rightarrow> char" where
  "hex_nibble upper h i = hex_digit upper (drop_bit ((7 - i) * 4) h AND 0xf)"

text \<open>
  The pointer is to a \<open>std::string\<close>: \<open>str[i]\<close> is the \<open>i\<close>-th of the strings that begin there, and
  assigning a character to it makes it a string of that character.
\<close>

definition ID2Hex :: "string list \<Rightarrow> u32 \<Rightarrow> string list res" where
  "ID2Hex str h =
     bindR (updR str 0 '':'') (\<lambda>str.
     bindR (fold (\<lambda>i r. bindR r (\<lambda>str. updR str (int i + 1) [hex_nibble True h i])) [0 ..< 8] (Inr str)) (\<lambda>str.
       updR str 9 [CHR 0x00]))"

section \<open>The environment\<close>

definition GetEnv :: "string \<Rightarrow> string" where
  "GetEnv key = []"

definition SetEnv :: "string \<Rightarrow> string \<Rightarrow> 's \<Rightarrow> 's" where
  "SetEnv key v s = s"

section \<open>State\<close>

record node =
  nd_timer :: timer
  nd_world :: world

text \<open>
  What the commands take from outside: the code of modules, the pointer of \<open>mq_Release\<close>, the string
  after \<open>= nullptr\<close>, the text of a \<open>double\<close> number of seconds given in microseconds, the clock of the
  thread, which files can be opened, and the address of the node of \<open>Timeout\<close>.
\<close>

record outside =
  ou_code :: module_code
  ou_unset :: bool
  ou_null :: "string res"
  ou_seconds :: "u64 \<Rightarrow> string"
  ou_thread_time :: u64
  ou_fopen :: "string \<Rightarrow> bool"
  ou_node :: nat

definition on_world :: "(world \<Rightarrow> ('a \<times> world) res) \<Rightarrow> node \<Rightarrow> ('a \<times> node) res" where
  "on_world f s = bindR (f (nd_world s)) (\<lambda>(x, w). Inr (x, s\<lparr>nd_world := w\<rparr>))"

text \<open>\<open>ctx.result_ = text; return ctx.result_;\<close>\<close>

definition result :: "ctx \<Rightarrow> string \<Rightarrow> world \<Rightarrow> (string \<times> world) res" where
  "result c text w = bindR (ctx_at w c) (\<lambda>x. Inr (text, ctx_set c (x\<lparr>cx_result := text\<rparr>) w))"

text \<open>\<open>SkynetError (ctx.GetHandle (), text)\<close>\<close>

definition complain :: "ctx \<Rightarrow> string \<Rightarrow> world \<Rightarrow> world res" where
  "complain c text w = bindR (ctx_at w c) (\<lambda>x. SkynetError_op (cx_handle x) text w)"

section \<open>Names\<close>

definition name_context :: "ctx \<Rightarrow> string \<Rightarrow> world \<Rightarrow> (string \<times> world) res" where
  "name_context c name w =
     bindR (ctx_at w c) (\<lambda>x.
     bindR (HandleNamehandle (w_storage w) (cx_handle x) name) (\<lambda>(r, st). Inr (r, w\<lparr>w_storage := st\<rparr>)))"

definition CmdRegister :: "ctx \<Rightarrow> string \<Rightarrow> world \<Rightarrow> (string \<times> world) res" where
  "CmdRegister c param w =
     (if param = [] then bindR (ctx_at w c) (\<lambda>x. result c (to_string (uint (cx_handle x))) w)
      else if hd param = CHR ''.'' then name_context c param w
      else
        bindR (complain c (''Can'' @ [CHR 0x27] @ ''t register global name '' @ param @ '' in C'') w) (\<lambda>w'.
          Inr ([], w')))"

definition CmdQuery :: "ctx \<Rightarrow> string \<Rightarrow> world \<Rightarrow> (string \<times> world) res" where
  "CmdQuery c param w =
     bindR (nthR param 0) (\<lambda>first.
       if first = CHR ''.'' then
         bindR (HandleFindname (w_storage w) param) (\<lambda>handle.
           if handle \<noteq> 0 then result c (to_string (uint handle)) w else Inr ([], w))
       else Inr ([], w))"

text \<open>\<open>pos - 1\<close> and \<open>pos + 1\<close> wrap around.\<close>

definition CmdName :: "ctx \<Rightarrow> string \<Rightarrow> world \<Rightarrow> (string \<times> world) res" where
  "CmdName c param w =
     (let pos = find_space param in
      bindR (substr param 0 (pos - 1)) (\<lambda>name.
      bindR (substr param (pos + 1) (- 1)) (\<lambda>handle.
      bindR (nthR handle 0) (\<lambda>first.
        if first \<noteq> CHR '':'' then Inr ([], w)
        else
          bindR (stoul16 (tl handle)) (\<lambda>handle_id.
            if handle_id = 0 then Inr ([], w)
            else
              bindR (nthR name 0) (\<lambda>first.
                if first = CHR ''.'' then name_context c name w
                else
                  bindR (complain c (''Can'' @ [CHR 0x27] @ ''t set global name '' @ name @ '' in C'') w) (\<lambda>w'.
                    Inr ([], w'))))))))"

definition ToHandle :: "ctx \<Rightarrow> string \<Rightarrow> world \<Rightarrow> (u32 \<times> world) res" where
  "ToHandle c param w =
     bindR (nthR param 0) (\<lambda>first.
       if first = CHR '':'' then bindR (stoul16 (tl param)) (\<lambda>h. Inr (h, w))
       else if first = CHR ''.'' then bindR (HandleFindname (w_storage w) (tl param)) (\<lambda>h. Inr (h, w))
       else bindR (complain c param w) (\<lambda>w'. Inr (0, w')))"

section \<open>Time\<close>

text \<open>\<open>long\<close> becomes \<open>int\<close> in the call of \<open>Timeout\<close>.\<close>

definition CmdTimeout :: "outside \<Rightarrow> ctx \<Rightarrow> string \<Rightarrow> node \<Rightarrow> (string \<times> node) res" where
  "CmdTimeout env c param s =
     bindR (stol10 param) (\<lambda>time.
     bindR (Newsession c (nd_world s)) (\<lambda>(session, w).
     bindR (ctx_at w c) (\<lambda>x.
     bindR (Timeout (ou_node env) (cx_handle x) (signed_take_bit 31 time) session (nd_timer s) w) (\<lambda>(_, t, w).
       on_world (result c (to_string session)) (s\<lparr>nd_timer := t, nd_world := w\<rparr>)))))"

definition CmdStarttime :: "ctx \<Rightarrow> string \<Rightarrow> node \<Rightarrow> (string \<times> node) res" where
  "CmdStarttime c param s = on_world (result c (to_string (uint (Starttime (nd_timer s))))) s"

section \<open>Ending services\<close>

definition CmdExit :: "ctx \<Rightarrow> string \<Rightarrow> world \<Rightarrow> (string \<times> world) res" where
  "CmdExit c param w = bindR (HandleExit_op c 0 w) (\<lambda>w'. Inr ([], w'))"

definition CmdKill :: "ctx \<Rightarrow> string \<Rightarrow> world \<Rightarrow> (string \<times> world) res" where
  "CmdKill c param w =
     bindR (ToHandle c param w) (\<lambda>(handle, w).
     bindR (if handle \<noteq> 0 then HandleExit_op c handle w else Inr w) (\<lambda>w'. Inr ([], w')))"

text \<open>
  \<open>HandleRetireall\<close> of \<open>handle.cpp\<close> on the contexts: one pass over the slots with the number of
  contexts that it met, and passes until one meets none.
\<close>

fun retireall_pass :: "nat list \<Rightarrow> world \<Rightarrow> (nat \<times> world) res" where
  "retireall_pass [] w = Inr (0, w)"
| "retireall_pass (i # is) w =
     bindR (rlock (w_storage w)) (\<lambda>_.
     bindR (nthR (hs_slot (w_storage w)) (int i)) (\<lambda>slot.
       case slot of
         None \<Rightarrow> retireall_pass is w
       | Some c \<Rightarrow>
           bindR (ctx_at w c) (\<lambda>x.
           bindR (if cx_handle x \<noteq> 0 then retire_handle (cx_handle x) w else Inr (0, w)) (\<lambda>(_, w').
           bindR (retireall_pass is w') (\<lambda>(n, w'). Inr (n + 1, w'))))))"

partial_function (option) retireall :: "world \<Rightarrow> world res option" where
  "retireall w =
     (case retireall_pass [0 ..< length (hs_slot (w_storage w))] w of
        Inl e \<Rightarrow> Some (Inl e)
      | Inr r \<Rightarrow> (case r of (n, w') \<Rightarrow> if n = 0 then Some (Inr w') else retireall w'))"

definition CmdAbort :: "ctx \<Rightarrow> string \<Rightarrow> world \<Rightarrow> (string \<times> world) res option" where
  "CmdAbort c param w = bindO (retireall w) (\<lambda>w'. Some (Inr ([], w')))"

definition CmdMonitor :: "ctx \<Rightarrow> string \<Rightarrow> world \<Rightarrow> (string \<times> world) res" where
  "CmdMonitor c param w =
     (if param = [] \<or> hd param = CHR 0x00 then
        if GetMoniterExit w \<noteq> 0 then result c (to_string (uint (GetMoniterExit w))) w else Inr ([], w)
      else bindR (ToHandle c param w) (\<lambda>(handle, w'). Inr ([], SetMonitorExit handle w')))"

section \<open>Launching\<close>

definition CmdLaunch :: "outside \<Rightarrow> ctx \<Rightarrow> string \<Rightarrow> world \<Rightarrow> (string \<times> world) res option" where
  "CmdLaunch env c param w =
     (let pos = find_space param in
      bindO (Some (substr param 0 (pos - 1))) (\<lambda>name.
      bindO (Some (substr param (pos + 1) (- 1))) (\<lambda>args.
      bindO (NewContext (ou_code env) (ou_unset env) name args w) (\<lambda>(inst, w).
        case inst of
          None \<Rightarrow> Some (Inr ([], w))
        | Some i \<Rightarrow>
            Some (bindR (ctx_at w i) (\<lambda>y.
                  bindR (ctx_at w c) (\<lambda>x.
                  bindR (ID2Hex [cx_result x] (cx_handle y)) (\<lambda>str.
                    result c (str ! 0) w))))))))"

definition CmdGetEnv :: "ctx \<Rightarrow> string \<Rightarrow> world \<Rightarrow> (string \<times> world) res" where
  "CmdGetEnv c param w = Inr (GetEnv param, w)"

definition CmdSetEnv :: "ctx \<Rightarrow> string \<Rightarrow> world \<Rightarrow> (string \<times> world) res" where
  "CmdSetEnv c param w =
     (let pos = find_space param in
      if pos = - 1 then Inr ([], w)
      else bindR (substr param 0 (pos - 1)) (\<lambda>key.
           bindR (substr param (pos + 1) (- 1)) (\<lambda>param. Inr ([], SetEnv key param w))))"

section \<open>Looking at services\<close>

definition CmdStat :: "outside \<Rightarrow> ctx \<Rightarrow> string \<Rightarrow> world \<Rightarrow> (string \<times> world) res" where
  "CmdStat env c param w =
     bindR (ctx_at w c) (\<lambda>x.
       if param = ''mqlen'' then bindR (mq_Length (cx_queue x) (w_queues w)) (\<lambda>len. result c (to_string len) w)
       else if param = ''endless'' then
         (if cx_endless x then result c ''1'' (ctx_set c (x\<lparr>cx_endless := False\<rparr>) w) else result c ''0'' w)
       else if param = ''cpu'' then result c (ou_seconds env (cx_cpu_cost x)) w
       else if param = ''time'' then
         result c (if cx_profile x then ou_seconds env (ou_thread_time env - cx_cpu_start x) else ''0'') w
       else if param = ''message'' then result c (to_string (cx_message_count x)) w
       else bindR (ou_null env) (\<lambda>text. result c text w))"

text \<open>\<open>LogOpen\<close> of \<open>log.cpp\<close>: whether a file was opened.\<close>

definition LogOpen :: "outside \<Rightarrow> ctx \<Rightarrow> u32 \<Rightarrow> world \<Rightarrow> (bool \<times> world) res" where
  "LogOpen env c handle w =
     (let logpath = GetEnv ''logpath'' in
      if logpath = [] then Inr (False, w)
      else
        let tmp = logpath @ ''/'' @ map (hex_nibble False handle) [0 ..< 8] @ ''.log'' @ ''.log'' in
        if ou_fopen env tmp then bindR (complain c (''Open log file '' @ tmp) w) (\<lambda>w'. Inr (True, w'))
        else bindR (complain c (''Open log file '' @ tmp @ '' fail'') w) (\<lambda>w'. Inr (False, w')))"

text \<open>A command on another service: find it, take a reference, do something, release it.\<close>

definition with_service ::
  "ctx \<Rightarrow> string \<Rightarrow> (u32 \<Rightarrow> ctx \<Rightarrow> world \<Rightarrow> world res) \<Rightarrow> world \<Rightarrow> (string \<times> world) res" where
  "with_service c param f w =
     bindR (ToHandle c param w) (\<lambda>(handle, w).
       if handle = 0 then Inr ([], w)
       else
         bindR (grab_handle handle w) (\<lambda>(r, w).
           case r of
             None \<Rightarrow> Inr ([], w)
           | Some d \<Rightarrow>
               bindR (f handle d w) (\<lambda>w. bindR (Release d w) (\<lambda>(_, w). Inr ([], w)))))"

text \<open>The value to compare with is \<open>*(FILE **) 0\<close> in one command, \<open>*(FILE **) file\<close> in the other.\<close>

definition CmdLogon :: "outside \<Rightarrow> ctx \<Rightarrow> string \<Rightarrow> world \<Rightarrow> (string \<times> world) res" where
  "CmdLogon env c param w =
     with_service c param (\<lambda>handle d w.
       bindR (ctx_at w d) (\<lambda>x.
         if cx_logfile x then Inr w
         else bindR (LogOpen env c handle w) (\<lambda>(f, w'). if f then Inl NullDereference else Inr w'))) w"

definition CmdLogoff :: "ctx \<Rightarrow> string \<Rightarrow> world \<Rightarrow> (string \<times> world) res" where
  "CmdLogoff c param w =
     with_service c param (\<lambda>handle d w.
       bindR (ctx_at w d) (\<lambda>x. if cx_logfile x then Inl TypeConfusion else Inr w)) w"

definition CmdSignal :: "ctx \<Rightarrow> string \<Rightarrow> world \<Rightarrow> (string \<times> world) res" where
  "CmdSignal c param w =
     with_service c param (\<lambda>handle d w.
       bindR (substr param (find_space param + 1) (- 1)) (\<lambda>param.
       bindR (if param \<noteq> [] then stoi0 param else Inr 0) (\<lambda>sig.
       bindR (ctx_at w d) (\<lambda>x.
       bindR (ModuleSignal (cx_mod x)) (\<lambda>_. Inr (log_event (Signalled (cx_instance x) sig) w)))))) w"

section \<open>All commands\<close>

text \<open>\<open>cmd_funcs_\<close>; a name that is not in the table is answered with the empty string.\<close>

definition plain :: "(world \<Rightarrow> (string \<times> world) res) \<Rightarrow> node \<Rightarrow> (string \<times> node) res option" where
  "plain f s = Some (on_world f s)"

definition looping :: "(world \<Rightarrow> (string \<times> world) res option) \<Rightarrow> node \<Rightarrow> (string \<times> node) res option" where
  "looping f s = map_option (\<lambda>r. bindR r (\<lambda>(x, w). Inr (x, s\<lparr>nd_world := w\<rparr>))) (f (nd_world s))"

definition cmd_funcs :: "outside \<Rightarrow> ctx \<Rightarrow> string \<Rightarrow> string \<rightharpoonup> (node \<Rightarrow> (string \<times> node) res option)" where
  "cmd_funcs env c param = map_of
     [(''TIMEOUT'', \<lambda>s. Some (CmdTimeout env c param s)), (''REG'', plain (CmdRegister c param)),
      (''QUERY'', plain (CmdQuery c param)), (''NAME'', plain (CmdName c param)),
      (''EXIT'', plain (CmdExit c param)), (''KILL'', plain (CmdKill c param)),
      (''LAUNCH'', looping (CmdLaunch env c param)), (''GETENV'', plain (CmdGetEnv c param)),
      (''SETENV'', plain (CmdSetEnv c param)), (''STARTTIME'', \<lambda>s. Some (CmdStarttime c param s)),
      (''ABORT'', looping (CmdAbort c param)), (''MONITOR'', plain (CmdMonitor c param)),
      (''STAT'', plain (CmdStat env c param)), (''LOGON'', plain (CmdLogon env c param)),
      (''LOGOFF'', plain (CmdLogoff c param)), (''SIGNAL'', plain (CmdSignal c param))]"

definition Command_op :: "outside \<Rightarrow> ctx \<Rightarrow> string \<Rightarrow> string \<Rightarrow> node \<Rightarrow> (string \<times> node) res option" where
  "Command_op env c cmd param s =
     (case cmd_funcs env c param cmd of Some f \<Rightarrow> f s | None \<Rightarrow> Some (Inr ([], s)))"

end
