(* ===== verification/Logger.thy ===== *)
theory Logger
  imports Command
begin

text \<open>
  The text that logs are made of: \<open>skynet-src/log.cpp\<close>, which records the messages of one service, and
  \<open>service-src/service_logger.cpp\<close>, the service that writes what the others report. What a function
  prints is its result, a string.
\<close>

section \<open>Messages of a service\<close>

definition hex_byte :: "u8 \<Rightarrow> string" where
  "hex_byte b = [hex_digit False (ucast (drop_bit 4 b)), hex_digit False (ucast (b AND 0xf))]"

text \<open>\<open>sz\<close> bytes from the buffer.\<close>

definition LogBlob :: "u8 list \<Rightarrow> u64 \<Rightarrow> string res" where
  "LogBlob buffer sz =
     (if unat sz \<le> length buffer then Inr (concat (map hex_byte (take (unat sz) buffer))) else Inl OutOfBounds)"

text \<open>The \<open>sz\<close> bytes that a message points to.\<close>

definition payload_bytes :: "payload \<Rightarrow> u64 \<Rightarrow> u8 list res" where
  "payload_bytes data sz =
     (if sz = 0 then Inr []
      else case data of
          Bytes bs \<Rightarrow> if unat sz \<le> length bs then Inr (take (unat sz) bs) else Inl OutOfBounds
        | NoData \<Rightarrow> Inl NullDereference
        | Freed \<Rightarrow> Inl DanglingPointer
        | _ \<Rightarrow> Inl TypeConfusion)"

text \<open>
  \<open>memchr\<close> and then \<open>%*s\<close> look for the end of the text that lies behind the structure; the width is never
  larger than the text. The data of a \<open>std::string\<close> has a NUL behind it.
\<close>

definition LogSocket :: "socket_message \<Rightarrow> u64 \<Rightarrow> string res" where
  "LogSocket m sz =
     bindR (if sm_buffer m = [] then
              if CHR 0x00 \<in> set (sm_tail m) then Inr (''['' @ c_str (sm_tail m) @ '']'') else Inl OutOfBounds
            else LogBlob (sm_buffer m @ [0]) (word_of_int (sm_ud m))) (\<lambda>text.
       Inr (''[socket] '' @ to_string (sm_type m) @ '' '' @ to_string (sm_id m) @ '' '' @ to_string (sm_ud m) @ '' ''
         @ text @ [CHR 0x0A]))"

definition LogOutput_text ::
  "u64 \<Rightarrow> u32 \<Rightarrow> int \<Rightarrow> int \<Rightarrow> payload \<Rightarrow> u64 \<Rightarrow> string res" where
  "LogOutput_text now source type session data sz =
     (if type = kPtypeSocket then
        case data of SocketMsg m \<Rightarrow> LogSocket m sz | NoData \<Rightarrow> Inl NullDereference | Freed \<Rightarrow> Inl DanglingPointer
        | _ \<Rightarrow> Inl TypeConfusion
      else
        bindR (bindR (payload_bytes data sz) (\<lambda>bs. LogBlob bs sz)) (\<lambda>text.
          Inr ('':'' @ map (hex_nibble False source) [0 ..< 8] @ '' '' @ to_string type @ '' '' @ to_string session
            @ '' '' @ to_string (uint (ucast now :: u32)) @ '' '' @ text @ [CHR 0x0A])))"

text \<open>What \<open>LogClose\<close> prints; the file is closed then.\<close>

definition LogClose_text :: "u64 \<Rightarrow> string" where
  "LogClose_text now = ''close time: '' @ to_string (uint (ucast now :: u32)) @ [CHR 0x0A]"

section \<open>The logger\<close>

text \<open>\<open>lo_handle\<close> is what was written to the file, or nothing for \<open>nullptr\<close>.\<close>

record logger =
  lo_handle :: "string option"
  lo_filename :: string
  lo_starttime :: u32
  lo_close :: int

definition logger_create :: logger where
  "logger_create = \<lparr>lo_handle = None, lo_filename = [], lo_starttime = 0, lo_close = 0\<rparr>"

definition logger_release :: "logger \<Rightarrow> unit res" where
  "logger_release l = (if lo_close l \<noteq> 0 \<and> lo_handle l = None then Inl NullDereference else Inr ())"

text \<open>\<open>stamp\<close> is the text of a time in seconds; the hundredths are printed behind it.\<close>

definition timestring :: "(u64 \<Rightarrow> string) \<Rightarrow> u64 \<Rightarrow> logger \<Rightarrow> string \<times> int" where
  "timestring stamp now l = (stamp (now div 100 + ucast (lo_starttime l)), uint (now mod 100))"

text \<open>\<open>%02d\<close>\<close>

definition two_digits :: "int \<Rightarrow> string" where
  "two_digits n = (if 0 \<le> n \<and> n < 10 then ''0'' @ to_string n else to_string n)"

definition print_to :: "string \<Rightarrow> logger \<Rightarrow> logger res" where
  "print_to text l =
     (case lo_handle l of None \<Rightarrow> Inl NullDereference | Some out \<Rightarrow> Inr (l\<lparr>lo_handle := Some (out @ text)\<rparr>))"

text \<open>\<open>reopened\<close> says whether \<open>freopen\<close> succeeds; what was written so far stays in the file.\<close>

definition logger_cb ::
  "(u64 \<Rightarrow> string) \<Rightarrow> u64 \<Rightarrow> bool \<Rightarrow> int \<Rightarrow> u32 \<Rightarrow> payload \<Rightarrow> u64 \<Rightarrow> logger \<Rightarrow> (int \<times> logger) res" where
  "logger_cb stamp now reopened type source msg sz l =
     (if type = kPtypeSystem then
        Inr (0, if lo_filename l \<noteq> [] \<and> \<not> reopened then l\<lparr>lo_handle := None\<rparr> else l)
      else if type = kPtypeText then
        let (text, csec) = timestring stamp now l in
        bindR (if lo_filename l \<noteq> [] then print_to (text @ ''.'' @ two_digits csec @ '' '') l else Inr l) (\<lambda>l.
        bindR (print_to (''[:'' @ map (hex_nibble False source) [0 ..< 8] @ ''] '') l) (\<lambda>l.
        bindR (payload_bytes msg sz) (\<lambda>bs.
        bindR (print_to (string_of bs) l) (\<lambda>l.
        bindR (print_to [CHR 0x0A] l) (\<lambda>l. Inr (0, l))))))
      else Inr (0, l))"

text \<open>\<open>std::stoul\<close> of the answer to the command \<open>STARTTIME\<close>; \<open>opened\<close> says whether \<open>fopen\<close> succeeds.\<close>

definition stoul10 :: "string \<Rightarrow> u32 res" where
  "stoul10 s =
     (let (neg, v, n) = scan_number 10 s in
      if n = 0 \<or> v > 2 ^ 64 - 1 then Inl Exception else Inr (word_of_int (if neg then - int v else int v)))"

definition logger_init ::
  "outside \<Rightarrow> bool \<Rightarrow> ctx \<Rightarrow> nat \<Rightarrow> nat \<Rightarrow> string option \<Rightarrow> logger \<Rightarrow> node \<Rightarrow> (int \<times> logger \<times> node) res option" where
  "logger_init env opened c ud cb parm l s =
     bindO (Command_op env c ''STARTTIME'' [] s) (\<lambda>(answer, s).
     bindO (Some (stoul10 answer)) (\<lambda>time.
       let l1 = l\<lparr>lo_starttime := time\<rparr> in
       case parm of
         Some name \<Rightarrow>
           if \<not> opened then Some (Inr (1, l1\<lparr>lo_handle := None\<rparr>, s))
           else
             Some (bindR (ServiceCallback_op c ud (Some cb) (nd_world s)) (\<lambda>w.
               Inr (0, l1\<lparr>lo_handle := Some [], lo_filename := name, lo_close := 1\<rparr>, s\<lparr>nd_world := w\<rparr>)))
       | None \<Rightarrow>
           Some (bindR (ServiceCallback_op c ud (Some cb) (nd_world s)) (\<lambda>w.
             Inr (0, l1\<lparr>lo_handle := Some []\<rparr>, s\<lparr>nd_world := w\<rparr>)))))"

end
