(* ===== verification/CommandFacts.thy ===== *)
theory CommandFacts
  imports Command Logger HandleFacts ServiceFacts
begin

text \<open>
  Properties of the text commands of \<open>skynet-src/command.cpp\<close>: what becomes of names, timeouts and
  signals.
\<close>

section \<open>Registering names\<close>

lemma name_context_new:
  assumes "w_ctx w c = Some x" and "storage_inv (w_storage w)" and "name_room (Suc n) (w_storage w)"
    and "find_name (w_storage w) name = None"
  shows "name_context c name w = Inr (name, w\<lparr>w_storage := enter_name name (cx_handle x) (w_storage w)\<rparr>)"
proof -
  have "names_inv (w_storage w)" "capacity_ok (w_storage w)" "hs_name_count (w_storage w) < int kMaxSlotSize"
    using assms(2,3) by (auto simp: storage_inv_def name_room_def)
  from enter_name_ok [OF this assms(4)] obtain s' where
    s': "HandleNamehandle (w_storage w) (cx_handle x) name = Inr (name, s')" by blast
  then show ?thesis using assms(1) by (simp add: name_context_def ctx_at_def enter_name_def)
qed

text \<open>C39 A service that registers a name (with the leading dot that the commands ask for) is found under
  it by QUERY, but by nothing else: KILL, MONITOR, LOGON, LOGOFF and SIGNAL, and messages that are sent
  to the name, look for the name without its dot, which nobody has.\<close>

theorem registered_name_found_by_query_only:
  assumes "w_ctx w c = Some x" and "cx_handle x \<noteq> 0" and "\<not> hs_write (w_storage w)" and "storage_inv (w_storage w)"
    and "name_room (Suc n) (w_storage w)" and "find_name (w_storage w) (CHR ''.'' # name) = None"
    and "find_name (w_storage w) name = None" and "source \<noteq> 0"
  shows "\<exists>w'. CmdRegister c (CHR ''.'' # name) w = Inr (CHR ''.'' # name, w') \<and>
    CmdQuery c (CHR ''.'' # name) w' = result c (to_string (uint (cx_handle x))) w' \<and>
    ToHandle c (CHR ''.'' # name) w' = Inr (0, w') \<and>
    ServiceSendname_op c source (CHR ''.'' # name) type session data sz w' = Inr (- 1, w')"
proof -
  let ?n = "CHR ''.'' # name"
  let ?w = "w\<lparr>w_storage := enter_name ?n (cx_handle x) (w_storage w)\<rparr>"
  have new: "name_context c ?n w = Inr (?n, ?w)" using assms(1,4,5,6) by (rule name_context_new)
  have st: "storage_inv (w_storage ?w)" "\<not> hs_write (w_storage ?w)"
    using enter_name_map(1) [OF assms(4-6)] enter_name_unlocks [OF assms(3-6)] by simp_all
  have find: "find_name (w_storage ?w) y = (if y = ?n then Some (cx_handle x) else find_name (w_storage w) y)" for y
    using enter_name_map(3) [OF assms(4-6)] by simp
  have "HandleFindname (w_storage ?w) ?n = Inr (cx_handle x)" "HandleFindname (w_storage ?w) name = Inr 0"
    using Findname_find [OF st(2,1)] find assms(7) by simp_all
  then show ?thesis using new assms(2,8)
    by (intro exI [of _ ?w]) (simp add: CmdRegister_def CmdQuery_def ToHandle_def nthR_def ServiceSendname_op_def)
qed

lemma sample_storage:
  "storage_inv (w_storage (sample_world ms))" "name_room (Suc 0) (w_storage (sample_world ms))"
  "find_name (w_storage (sample_world ms)) name = None"
proof -
  show "storage_inv (w_storage (sample_world ms))"
    using HandleInit_ok(1) [of 1]
    by (simp add: sample_world_def storage_inv_def names_inv_def capacity_ok_def names_def)
  show "name_room (Suc 0) (w_storage (sample_world ms))"
    by (simp add: sample_world_def name_room_def HandleInit_def kMaxSlotSize_def)
  show "find_name (w_storage (sample_world ms)) name = None"
    using HandleInit_ok(2) [of 1 name] by (simp add: sample_world_def find_name_def)
qed

theorem registered_name_found_by_query_only_witness:
  "\<exists>w. CmdRegister 7 ''.gate'' (sample_world []) = Inr (''.gate'', w) \<and>
    ServiceSendname_op 7 5 ''.gate'' kPtypeClient 9 NoData 0 w = Inr (- 1, w)"
proof -
  have "cx_handle sample_context \<noteq> 0" by (simp add: sample_context_def)
  note found = registered_name_found_by_query_only [where name = "''gate''" and source = 5 and type = kPtypeClient
      and session = 9 and data = NoData and sz = 0, OF sample_world_fields(1) this sample_world_fields(3)
      sample_storage(1) sample_storage(2) sample_storage(3) sample_storage(3)]
  from found [of "[]"]
  show ?thesis by auto
qed

section \<open>The command NAME\<close>

lemma find_space_at:
  assumes "CHR '' '' \<notin> set name"
  shows "find_space (name @ CHR '' '' # rest) = of_nat (length name)"
proof -
  have "takeWhile (\<lambda>c. c \<noteq> CHR '' '') (name @ CHR '' '' # rest) = name"
    using assms by (subst takeWhile_append2) auto
  then show ?thesis by (simp add: find_space_def)
qed

text \<open>NAME registers another name for another service than it was asked to: for \<open>.abc :h\<close> it registers
  \<open>.ab\<close>, the name without its last character, and not for the handle that was given but for the
  service that sent the command.\<close>

theorem name_command_registers_wrongly:
  assumes "w_ctx w c = Some x" and "storage_inv (w_storage w)" and "name_room (Suc n) (w_storage w)"
    and "find_name (w_storage w) (CHR ''.'' # name) = None"
    and "CHR '' '' \<notin> set (name @ [a])" and "length name + 3 < 2 ^ 63" and "length digits < 2 ^ 62"
    and "stoul16 digits = Inr h" and "h \<noteq> 0"
  shows "CmdName c ((CHR ''.'' # name @ [a]) @ '' :'' @ digits) w =
    Inr (CHR ''.'' # name, w\<lparr>w_storage := enter_name (CHR ''.'' # name) (cx_handle x) (w_storage w)\<rparr>)"
proof -
  let ?full = "CHR ''.'' # name @ [a]" and ?param = "(CHR ''.'' # name @ [a]) @ '' :'' @ digits"
  have pos: "find_space ?param = of_nat (length name + 2)"
    using find_space_at [of ?full "'':'' @ digits"] assms(5) by simp
  have len: "unat (of_nat k :: u64) = k" if "k < 2 ^ 63" for k
    using that by (simp add: unat_of_nat)
  have 1: "of_nat (length name + 2) - 1 = (of_nat (length name + 1) :: u64)" by simp
  have 2: "of_nat (length name + 2) + 1 = (of_nat (length name + 3) :: u64)" by simp
  have "substr ?param 0 (find_space ?param - 1) = Inr (CHR ''.'' # name)"
    unfolding pos 1 substr_def using len [of "length name + 1"] assms(6) by simp
  moreover have "substr ?param (find_space ?param + 1) (- 1) = Inr ('':'' @ digits)"
  proof -
    have "unat (- 1 :: u64) = 2 ^ 64 - 1" by (simp add: unsigned_minus_1_eq_mask mask_eq_exp_minus_1)
    moreover have "unat (of_nat (length name + 3) :: u64) = length name + 3" using assms(6) by (rule len)
    moreover have "drop (length name + 3) ?param = '':'' @ digits" by (simp add: numeral_3_eq_3)
    ultimately show ?thesis unfolding pos 2 substr_def using assms(7) by simp
  qed
  moreover have "name_context c (CHR ''.'' # name) w =
      Inr (CHR ''.'' # name, w\<lparr>w_storage := enter_name (CHR ''.'' # name) (cx_handle x) (w_storage w)\<rparr>)"
    using assms(1-4) by (rule name_context_new)
  ultimately show ?thesis using assms(8,9) by (simp add: CmdName_def Let_def nthR_def)
qed

theorem name_command_registers_wrongly_witness:
  "CmdName 7 ''.abc :1f'' (sample_world []) =
     Inr (''.ab'', (sample_world [])\<lparr>w_storage := enter_name ''.ab'' 0x1000001 (w_storage (sample_world []))\<rparr>)"
proof -
  have h: "stoul16 ''1f'' = Inr 31"
    by (simp add: stoul16_def strtoul16_def scan_number_def is_space_def digit_value_def strip_prefix16_def)
  have "cx_handle sample_context = 0x1000001" by (simp add: sample_context_def)
  with name_command_registers_wrongly [OF sample_world_fields(1) sample_storage(1) sample_storage(2)
      sample_storage(3) [where name = "CHR ''.'' # ''ab''"] _ _ _ h, of "CHR ''c''"]
  show ?thesis by simp
qed

section \<open>The command TIMEOUT\<close>

text \<open>A service that asks for a timeout of no time at all is deleted by it and used afterwards: the
  message goes to the service itself, \<open>ContextPush\<close> deletes the service it has reached, and the command
  then writes its answer into it.\<close>

theorem timeout_now_faults:
  assumes "reachable w h c x" and "stol10 param = Inr time" and "signed_take_bit 31 time \<le> 0"
    and "0 \<le> cx_session_id x" and "cx_session_id x < 2 ^ 31 - 1"
    and "qs_heap (w_queues w) (cx_queue x) = Some q" and "mq_in_global q \<noteq> 0" and "nd_world s = w"
  shows "CmdTimeout env c param s = Inl DanglingPointer"
proof -
  let ?x = "x\<lparr>cx_session_id := cx_session_id x + 1\<rparr>"
  let ?w = "ctx_set c ?x w"
  define qs where "qs = mq_set (cx_queue x) (q\<lparr>mq_messages := mq_messages q @ [timer_message (cx_session_id x + 1)]\<rparr>) (w_queues w)"
  have session: "Newsession c w = Inr (cx_session_id x + 1, ?w)"
    using assms(1,4,5) by (simp add: Newsession_def reachable_def ctx_at_def Let_def)
  have "mq_Push (cx_queue ?x) (timer_message (cx_session_id x + 1)) (w_queues ?w) = Inr qs"
    using assms(6,7) by (simp add: mq_Push_def mq_at_Some qs_def)
  moreover have "reachable ?w h c ?x"
    using assms(1) by (simp add: reachable_def slot_of_def)
  ultimately have "ContextPush h (timer_message (cx_session_id x + 1)) ?w =
      Inr (True, ?w\<lparr>w_ctx := (w_ctx ?w)(c := None), w_queues := qs\<rparr>)" by (intro push_reachable)
  then show ?thesis using assms(1-3,8) session
    by (simp add: CmdTimeout_def Timeout_def ctx_at_def reachable_def on_world_def result_def)
qed

text \<open>The service of the sample world asks for a timeout of 0.\<close>

definition sample_outside :: outside where
  "sample_outside = \<lparr>ou_code = \<lparr>mc_library = (\<lambda>_. None), mc_create = (\<lambda>_ w. (None, w)), mc_init = (\<lambda>_ _ _ _ w. Inr (1, w))\<rparr>,
     ou_unset = False, ou_null = Inr [], ou_seconds = (\<lambda>_. ''0.000000''), ou_thread_time = 0, ou_fopen = (\<lambda>_. False),
     ou_node = 9\<rparr>"

theorem timeout_now_faults_witness:
  "CmdTimeout sample_outside 7 ''0'' \<lparr>nd_timer = TimerInit 0 0, nd_world = sample_world []\<rparr> = Inl DanglingPointer"
proof -
  have "stol10 ''0'' = Inr 0" "signed_take_bit 31 (0 :: int) \<le> 0"
    by (simp_all add: stol10_def signed_value_def scan_number_def is_space_def digit_value_def strip_prefix16_def)
  moreover have "signed_take_bit 31 (0 :: int) \<le> 0" by code_simp
  moreover have "qs_heap (w_queues (sample_world [])) (cx_queue sample_context) = Some (sample_queue [])"
    "mq_in_global (sample_queue []) \<noteq> 0"
    by (simp_all add: sample_world_fields sample_context_def sample_queue_def MessageQueue_def kMqInGlobal_def)
  ultimately show ?thesis
    by (intro timeout_now_faults [where time = 0, OF sample_reachable]) (simp_all add: sample_context_def)
qed

section \<open>Errors\<close>

lemma error_message:
  "msg_type \<lparr>msg_source = h, msg_session = 0, msg_data = d, msg_sz = 8 OR type_bits kPtypeText\<rparr> = kPtypeText"
  "msg_size \<lparr>msg_source = h, msg_session = 0, msg_data = d, msg_sz = 8 OR type_bits kPtypeText\<rparr> = 8"
proof -
  have "(8 :: u64) AND kMessageTypeMask = 8" unfolding kMessageTypeMask_def by code_simp
  moreover have "kPtypeText AND 0xff = kPtypeText" unfolding kPtypeText_def by code_simp
  ultimately show "msg_type \<lparr>msg_source = h, msg_session = 0, msg_data = d, msg_sz = 8 OR type_bits kPtypeText\<rparr> = kPtypeText"
    "msg_size \<lparr>msg_source = h, msg_session = 0, msg_data = d, msg_sz = 8 OR type_bits kPtypeText\<rparr> = 8"
    using type_size [of 8 "\<lparr>msg_source = h, msg_session = 0, msg_data = d, msg_sz = 8 OR type_bits kPtypeText\<rparr>" kPtypeText]
    by simp_all
qed

text \<open>C40 An error never reaches the log: \<open>SkynetError\<close> puts a message of type text into the queue of the
  logger, but it points to the characters of its own argument, which are gone when it returns, and
  it deletes the logger on the way; the callback of the logger that takes the message reads freed memory.\<close>

theorem error_text_is_lost:
  assumes "handle \<noteq> - 1" and "w_logger w = Some l" and "l \<noteq> 0" and "reachable w l c x"
    and "qs_heap (w_queues w) (cx_queue x) = Some q" and "mq_in_global q \<noteq> 0" and "lo_handle lg = Some out"
  shows "\<exists>w' m. SkynetError_op handle text w = Inr w' \<and> w_ctx w' c = None \<and>
    qs_heap (w_queues w') (cx_queue x) = Some (q\<lparr>mq_messages := mq_messages q @ [m]\<rparr>) \<and>
    msg_source m = handle \<and> msg_type m = kPtypeText \<and>
    logger_cb stamp now reopened (msg_type m) (msg_source m) (msg_data m) (msg_size m) lg = Inl DanglingPointer"
proof -
  let ?m = "\<lparr>msg_source = handle, msg_session = 0, msg_data = Freed, msg_sz = 8 OR type_bits kPtypeText\<rparr>"
  define qs where "qs = mq_set (cx_queue x) (q\<lparr>mq_messages := mq_messages q @ [?m]\<rparr>) (w_queues w)"
  have "mq_Push (cx_queue x) ?m (w_queues w) = Inr qs"
    using assms(5,6) by (simp add: mq_Push_def mq_at_Some qs_def)
  note push = push_reachable [OF assms(4) this]
  have "logger_cb stamp now reopened kPtypeText handle Freed 8 lg = Inl DanglingPointer"
    using assms(7) by (auto simp: logger_cb_def kPtypeText_def kPtypeSystem_def print_to_def payload_bytes_def
        timestring_def Let_def)
  then show ?thesis using assms(1-3) push error_message
    by (intro exI [of _ "w\<lparr>w_ctx := (w_ctx w)(c := None), w_queues := qs\<rparr>"] exI [of _ ?m])
      (simp add: SkynetError_op_def qs_def)
qed

theorem error_text_is_lost_witness:
  "\<exists>w' m. SkynetError_op 5 ''no such name'' ((sample_world [])\<lparr>w_logger := Some 0x1000001\<rparr>) = Inr w' \<and>
    qs_heap (w_queues w') 8 = Some (sample_queue [m]) \<and>
    logger_cb (\<lambda>_. []) 0 True (msg_type m) 5 (msg_data m) (msg_size m) (logger_create\<lparr>lo_handle := Some []\<rparr>) =
      Inl DanglingPointer"
proof -
  have "reachable ((sample_world [])\<lparr>w_logger := Some 0x1000001\<rparr>) 0x1000001 7 sample_context"
    using sample_reachable [of "[]"] by (simp add: reachable_def slot_of_def)
  moreover have "qs_heap (w_queues ((sample_world [])\<lparr>w_logger := Some 0x1000001\<rparr>)) (cx_queue sample_context) = Some (sample_queue [])"
    "mq_in_global (sample_queue []) \<noteq> 0" "cx_queue sample_context = 8"
    by (simp_all add: sample_world_fields sample_context_def sample_queue_def MessageQueue_def kMqInGlobal_def)
  moreover have "(sample_queue [])\<lparr>mq_messages := mq_messages (sample_queue []) @ [m]\<rparr> = sample_queue [m]" for m
    by (simp add: sample_queue_def MessageQueue_def)
  ultimately show ?thesis
    using error_text_is_lost [of 5 "(sample_world [])\<lparr>w_logger := Some 0x1000001\<rparr>" "0x1000001" 7 sample_context
        "sample_queue []" "logger_create\<lparr>lo_handle := Some []\<rparr>" "[]" "''no such name''" "\<lambda>_. []" 0 True]
    by fastforce
qed

end
