(* ===== verification/Socket.thy ===== *)
theory Socket
  imports SocketApi Dispatch
begin

text \<open>
  \<open>skynet-src/socket.cpp\<close>: the socket server as the services see it. The messages of the server are
  forwarded to the services, and the requests of the services carry their handles. The static
  variable \<open>kSocketServer\<close> is a pointer; what was deleted through it is still pointed to.
\<close>

section \<open>State\<close>

datatype server_pointer = NoServer | ServerAt server | DeletedServer

record net =
  nt_server :: server_pointer
  nt_world :: world

definition server_at :: "net \<Rightarrow> server res" where
  "server_at s =
     (case nt_server s of
        NoServer \<Rightarrow> Inl NullDereference
      | ServerAt v \<Rightarrow> Inr v
      | DeletedServer \<Rightarrow> Inl DanglingPointer)"

text \<open>A call of a member function of the server.\<close>

definition on_server :: "'a act \<Rightarrow> net \<Rightarrow> ('a \<times> net) res" where
  "on_server m s =
     bindR (server_at s) (\<lambda>v. bindR (m v) (\<lambda>(x, v'). Inr (x, s\<lparr>nt_server := ServerAt v'\<rparr>)))"

text \<open>The same, with the handle of the service that calls.\<close>

definition for_service :: "ctx \<Rightarrow> (u64 \<Rightarrow> 'a act) \<Rightarrow> net \<Rightarrow> ('a \<times> net) res" where
  "for_service c m s = bindR (ctx_at (nt_world s) c) (\<lambda>x. on_server (m (ucast (cx_handle x))) s)"

section \<open>Beginning and end\<close>

text \<open>\<open>fresh\<close> is the memory that the server is created in, with the answers of the system.\<close>

definition SocketInit :: "server \<Rightarrow> u64 \<Rightarrow> net \<Rightarrow> net res" where
  "SocketInit fresh now s =
     bindR (CreateSocketServer now fresh) (\<lambda>(made, v).
       Inr (s\<lparr>nt_server := (if made then ServerAt v else NoServer)\<rparr>))"

definition SocketExit :: "net \<Rightarrow> net res" where
  "SocketExit s =
     (case nt_server s of
        NoServer \<Rightarrow> Inr s
      | ServerAt v \<Rightarrow> bindR (SocketServer_delete v) (\<lambda>_. Inr (s\<lparr>nt_server := DeletedServer\<rparr>))
      | DeletedServer \<Rightarrow> Inl DanglingPointer)"

definition SocketFree :: "net \<Rightarrow> net" where
  "SocketFree s = s\<lparr>nt_server := NoServer\<rparr>"

definition SocketUpdatetime :: "u64 \<Rightarrow> net \<Rightarrow> net res" where
  "SocketUpdatetime now s = bindR (on_server (UpdateTime now) s) (\<lambda>(_, s'). Inr s')"

section \<open>Forwarding\<close>

definition kSocketTypeUdp :: int where "kSocketTypeUdp = 6"

text \<open>\<open>sizeof (SkynetSocketMessage)\<close>: three integers with padding, and a \<open>std::string\<close>.\<close>

definition message_size :: "bool \<Rightarrow> string \<Rightarrow> u64" where
  "message_size padding text = 48 + (if padding \<and> text \<noteq> [] then of_nat (min 128 (length text)) else 0)"

text \<open>
  A message that was pushed is deleted at once, so what the queue holds points to freed memory; one
  that nobody receives is not. \<open>null\<close> is what \<open>nullptr\<close> leaves in a \<open>std::string\<close>.
\<close>

definition ForwardMessage ::
  "string res \<Rightarrow> int \<Rightarrow> bool \<Rightarrow> server_message \<Rightarrow> world \<Rightarrow> world res" where
  "ForwardMessage null type padding m w =
     bindR (if padding then null else Inr (pm_data m)) (\<lambda>_.
     bindR (ContextPush (ucast (pm_opaque m))
         \<lparr>msg_source = 0, msg_session = 0, msg_data = Freed,
          msg_sz = message_size padding (pm_data m) OR type_bits kPtypeSocket\<rparr> w) (\<lambda>(_, w'). Inr w'))"

text \<open>The type of the message to the service and whether it is padded; \<open>None\<close> for an unknown one.\<close>

definition forwarded_as :: "outcome \<Rightarrow> (int \<times> bool) option" where
  "forwarded_as type =
     (case type of
        kSocketData \<Rightarrow> Some (kSocketTypeData, False)
      | kSocketClose \<Rightarrow> Some (kSocketTypeClose, False)
      | kSocketOpen \<Rightarrow> Some (kSocketTypeConnect, True)
      | kSocketErr \<Rightarrow> Some (kSocketTypeError, True)
      | kSocketAccept \<Rightarrow> Some (kSocketTypeAccept, True)
      | kSocketUDP \<Rightarrow> Some (kSocketTypeUdp, False)
      | kSocketWarning \<Rightarrow> Some (kSocketTypeWarning, False)
      | _ \<Rightarrow> None)"

definition SocketPoll_op :: "net \<Rightarrow> (int \<times> net) res option" where
  "SocketPoll_op s =
     (case nt_server s of
        NoServer \<Rightarrow> Some (Inl AssertionFailed)
      | DeletedServer \<Rightarrow> Some (Inl DanglingPointer)
      | ServerAt v \<Rightarrow>
          bindO (Poll 1 v) (\<lambda>((type, again), v').
            let s' = s\<lparr>nt_server := ServerAt v'\<rparr> in
            if type = kSocketExit then Some (Inr (0, s'))
            else
              case forwarded_as type of
                None \<Rightarrow>
                  Some (bindR (SkynetError_op (- 1) (''Unknown socket message type'') (nt_world s')) (\<lambda>w.
                    Inr (- 1, s'\<lparr>nt_world := w\<rparr>)))
              | Some (t, padding) \<Rightarrow>
                  Some (bindR (ForwardMessage (pf_null (sv_platform v')) t padding (sv_msg v') (nt_world s')) (\<lambda>w.
                    Inr (if again \<noteq> 0 then - 1 else 1, s'\<lparr>nt_world := w\<rparr>)))))"

section \<open>Requests of services\<close>

definition SocketSendBuffer_op :: "sendbuffer \<Rightarrow> net \<Rightarrow> (int \<times> net) res" where
  "SocketSendBuffer_op b = on_server (Server_Send b)"

definition SocketSendBufferLowpriority :: "sendbuffer \<Rightarrow> net \<Rightarrow> (int \<times> net) res" where
  "SocketSendBufferLowpriority b = on_server (Server_SendLowpriority b)"

definition SocketListen :: "ctx \<Rightarrow> string option \<Rightarrow> int \<Rightarrow> int \<Rightarrow> net \<Rightarrow> (int \<times> net) res" where
  "SocketListen c host port backlog = for_service c (\<lambda>source. Server_Listen source host port backlog)"

definition SocketConnect :: "ctx \<Rightarrow> string \<Rightarrow> int \<Rightarrow> net \<Rightarrow> (int \<times> net) res" where
  "SocketConnect c host port = for_service c (\<lambda>source. Server_Connect source host port)"

definition SocketBind :: "ctx \<Rightarrow> int \<Rightarrow> net \<Rightarrow> (int \<times> net) res" where
  "SocketBind c fd = for_service c (\<lambda>source. Server_Bind source fd)"

definition SocketClose_op :: "ctx \<Rightarrow> int \<Rightarrow> net \<Rightarrow> (unit \<times> net) res" where
  "SocketClose_op c n = for_service c (\<lambda>source. Server_Close source n)"

definition SocketShutdown :: "ctx \<Rightarrow> int \<Rightarrow> net \<Rightarrow> (unit \<times> net) res" where
  "SocketShutdown c n = for_service c (\<lambda>source. Server_Shutdown source n)"

definition SocketStart_op :: "ctx \<Rightarrow> int \<Rightarrow> net \<Rightarrow> (unit \<times> net) res" where
  "SocketStart_op c n = for_service c (\<lambda>source. Server_Start source n)"

definition SocketPause :: "ctx \<Rightarrow> int \<Rightarrow> net \<Rightarrow> (unit \<times> net) res" where
  "SocketPause c n = for_service c (\<lambda>source. Server_Pause source n)"

definition SocketNodelay :: "ctx \<Rightarrow> int \<Rightarrow> net \<Rightarrow> (unit \<times> net) res" where
  "SocketNodelay c n = on_server (Server_Nodelay n)"

definition SocketUDP :: "ctx \<Rightarrow> string option \<Rightarrow> int \<Rightarrow> net \<Rightarrow> (int \<times> net) res" where
  "SocketUDP c addr port = for_service c (\<lambda>source. Server_UDP source addr port)"

definition SocketUdpConnect :: "ctx \<Rightarrow> int \<Rightarrow> string \<Rightarrow> int \<Rightarrow> net \<Rightarrow> (int \<times> net) res" where
  "SocketUdpConnect c n addr port = on_server (UDPConnect n addr port)"

definition SocketUdpSendBuffer :: "ctx \<Rightarrow> u8 list \<Rightarrow> sendbuffer \<Rightarrow> net \<Rightarrow> (int \<times> net) res" where
  "SocketUdpSendBuffer c address b = on_server (UDPSend address b)"

definition GetSocketInfo :: "net \<Rightarrow> (socket_info list \<times> net) res" where
  "GetSocketInfo = on_server Server_Info"

section \<open>The wrappers of \<open>socket.h\<close>\<close>

text \<open>\<open>sendbuffer_init_\<close>: the size is converted to \<open>size_t\<close>.\<close>

definition sendbuffer_init :: "int \<Rightarrow> nat \<Rightarrow> int \<Rightarrow> sendbuffer" where
  "sendbuffer_init n buffer sz =
     \<lparr>sb_id = n, sb_type = (if sz < 0 then BufferObject else BufferMemory), sb_buffer = buffer, sb_sz = word_of_int sz\<rparr>"

definition skynet_socket_send :: "ctx \<Rightarrow> int \<Rightarrow> nat \<Rightarrow> int \<Rightarrow> net \<Rightarrow> (int \<times> net) res" where
  "skynet_socket_send c n buffer sz = SocketSendBuffer_op (sendbuffer_init n buffer sz)"

definition skynet_socket_send_lowpriority :: "ctx \<Rightarrow> int \<Rightarrow> nat \<Rightarrow> int \<Rightarrow> net \<Rightarrow> (int \<times> net) res" where
  "skynet_socket_send_lowpriority c n buffer sz = SocketSendBufferLowpriority (sendbuffer_init n buffer sz)"

definition skynet_socket_udp_send :: "ctx \<Rightarrow> int \<Rightarrow> u8 list \<Rightarrow> nat \<Rightarrow> int \<Rightarrow> net \<Rightarrow> (int \<times> net) res" where
  "skynet_socket_udp_send c n address buffer sz = SocketUdpSendBuffer c address (sendbuffer_init n buffer sz)"

end
