(* ===== verification/Start.thy ===== *)
theory Start
  imports Socket Timer
begin

text \<open>
  \<open>skynet-src/start.cpp\<close>: the threads of the process. Each definition is one turn of the loop of one
  thread. A waiting worker goes on only when \<open>thread_unlock\<close>, the predicate of the condition variable,
  holds.
\<close>

section \<open>State\<close>

text \<open>A worker runs with the queue that it keeps, waits for the condition variable, or has ended.\<close>

datatype worker = Working "nat option" | Waiting | Ended

record process =
  pr_count :: int
  pr_unlock :: bool
  pr_sleep :: int
  pr_quit :: bool
  pr_sig :: bool
  pr_workers :: "worker list"
  pr_monitors :: "cmonitor list"
  pr_monitor_ended :: bool
  pr_timer_ended :: bool
  pr_socket_ended :: bool
  pr_timer :: timer
  pr_net :: net

definition pr_world :: "process \<Rightarrow> world" where
  "pr_world p = nt_world (pr_net p)"

definition set_world :: "world \<Rightarrow> process \<Rightarrow> process" where
  "set_world w p = p\<lparr>pr_net := (pr_net p)\<lparr>nt_world := w\<rparr>\<rparr>"

definition no_contexts :: "process \<Rightarrow> bool" where
  "no_contexts p \<longleftrightarrow> ContextTotal (pr_world p) = 0"

section \<open>Starting\<close>

definition weights :: "int list" where
  "weights = [-1, -1, -1, -1, 0, 0, 0, 0, 1, 1, 1, 1, 1, 1, 1, 1, 2, 2, 2, 2, 2, 2, 2, 2, 3, 3, 3, 3, 3, 3, 3, 3]"

definition weight :: "nat \<Rightarrow> int" where
  "weight i = (if i < length weights then weights ! i else 0)"

text \<open>\<open>Start (thread)\<close>, up to the threads; the monitors get no initial values in \<open>CMonitor\<close>, but zero.\<close>

definition start_threads :: "nat \<Rightarrow> timer \<Rightarrow> net \<Rightarrow> process" where
  "start_threads thread t n =
     \<lparr>pr_count = int thread, pr_unlock = False, pr_sleep = 0, pr_quit = False, pr_sig = False,
      pr_workers = replicate thread (Working None),
      pr_monitors = replicate thread \<lparr>cm_version = 0, cm_check_version = 0, cm_source = 0, cm_destination = 0\<rparr>,
      pr_monitor_ended = False, pr_timer_ended = False, pr_socket_ended = False, pr_timer = t, pr_net = n\<rparr>"

text \<open>\<open>SkynetStart\<close>, with the configuration that \<open>main\<close> gives it; nothing when the process exits at once.\<close>

record config =
  cf_thread :: nat
  cf_harbor :: int
  cf_profile :: int
  cf_daemon :: string
  cf_module_path :: string
  cf_bootstrap_name :: string
  cf_bootstrap_args :: string
  cf_logger :: string
  cf_logservice :: string

definition main_config :: "string \<Rightarrow> config" where
  "main_config project_path =
     \<lparr>cf_thread = 8, cf_harbor = 1, cf_profile = 1, cf_daemon = [], cf_module_path = project_path @ ''/service-src'',
      cf_bootstrap_name = [], cf_bootstrap_args = [], cf_logger = [], cf_logservice = ''liblogger''\<rparr>"

definition SkynetStart_op ::
  "module_code \<Rightarrow> bool \<Rightarrow> server \<Rightarrow> u32 \<Rightarrow> u64 \<Rightarrow> config \<Rightarrow> process option res option" where
  "SkynetStart_op code unset fresh secs now cf =
     (let t = TimerInit secs now; w = start_world (cf_harbor cf) (cf_profile cf) (cf_module_path cf) in
      bindO (Some (SocketInit fresh (Now t) \<lparr>nt_server = NoServer, nt_world = w\<rparr>)) (\<lambda>n.
      bindO (NewContext code unset (cf_logservice cf) (cf_logger cf) (nt_world n)) (\<lambda>(c, w).
        case c of
          None \<Rightarrow> Some (Inr None)
        | Some c \<Rightarrow>
            bindO (Some (bindR (ctx_at w c) (\<lambda>x. HandleNamehandle (w_storage w) (cx_handle x) ''logger''))) (\<lambda>(_, st).
              Some (Inr (Some (start_threads (cf_thread cf) t (n\<lparr>nt_world := w\<lparr>w_storage := st\<rparr>\<rparr>))))))))"

section \<open>Waking up\<close>

text \<open>\<open>notify_all\<close>: every waiting worker looks at the predicate.\<close>

definition notify :: "process \<Rightarrow> process" where
  "notify p =
     (if pr_unlock p then
        p\<lparr>pr_workers := map (\<lambda>k. if k = Waiting then Working None else k) (pr_workers p),
          pr_sleep := pr_sleep p - int (length (filter (\<lambda>k. k = Waiting) (pr_workers p)))\<rparr>
      else p)"

definition WakeUp :: "int \<Rightarrow> process \<Rightarrow> process" where
  "WakeUp busy p = (if pr_sleep p \<ge> pr_count p - busy then notify p else p)"

section \<open>Threads\<close>

definition set_worker :: "nat \<Rightarrow> worker \<Rightarrow> process \<Rightarrow> process" where
  "set_worker i k p = p\<lparr>pr_workers := (pr_workers p)[i := k]\<rparr>"

definition worker_turn :: "callback \<Rightarrow> bool \<Rightarrow> queue_message \<Rightarrow> nat \<Rightarrow> process \<Rightarrow> process res option" where
  "worker_turn cb unset garbage i p =
     (case pr_workers p ! i of
        Ended \<Rightarrow> Some (Inr p)
      | Waiting \<Rightarrow>
          Some (Inr (if pr_unlock p then set_worker i (Working None) (p\<lparr>pr_sleep := pr_sleep p - 1\<rparr>) else p))
      | Working q \<Rightarrow>
          if pr_quit p then Some (Inr (set_worker i Ended p))
          else
            bindO (MessageDispatch cb unset garbage q (weight i) (pr_world p)) (\<lambda>(r, w).
              let p' = set_world w p in
              Some (Inr (
                if r \<noteq> None then set_worker i (Working r) p'
                else if pr_quit p' \<or> pr_unlock p' then set_worker i (Working None) p'
                else set_worker i Waiting (p'\<lparr>pr_sleep := pr_sleep p' + 1\<rparr>)))))"

text \<open>\<open>cm\<close> are the monitors after \<open>Check\<close> was called on each in turn.\<close>

fun check_all :: "cmonitor list \<Rightarrow> world \<Rightarrow> (cmonitor list \<times> world) res" where
  "check_all [] w = Inr ([], w)"
| "check_all (m # ms) w =
     bindR (CMonitor_Check m w) (\<lambda>(m', w'). bindR (check_all ms w') (\<lambda>(ms', w''). Inr (m' # ms', w'')))"

definition monitor_turn :: "process \<Rightarrow> process res" where
  "monitor_turn p =
     (if pr_monitor_ended p then Inr p
      else if no_contexts p then Inr (p\<lparr>pr_monitor_ended := True\<rparr>)
      else bindR (check_all (pr_monitors p) (pr_world p)) (\<lambda>(ms, w). Inr (set_world w (p\<lparr>pr_monitors := ms\<rparr>))))"

definition signal_hup :: "world \<Rightarrow> world res" where
  "signal_hup w =
     bindR (HandleFindname (w_storage w) ''logger'') (\<lambda>logger.
       if logger \<noteq> 0 then
         bindR (ContextPush logger
           \<lparr>msg_source = 0, msg_session = 0, msg_data = NoData, msg_sz = type_bits kPtypeSystem\<rparr> w) (\<lambda>(_, w'). Inr w')
       else Inr w)"

text \<open>\<open>cp\<close> is the clock; at the end the socket server is deleted and the workers are told to quit.\<close>

definition timer_turn :: "u64 \<Rightarrow> process \<Rightarrow> process res option" where
  "timer_turn cp p =
     (if pr_timer_ended p then Some (Inr p)
      else
        bindO (Updatetime cp (pr_timer p) (pr_world p)) (\<lambda>(t, w).
        bindO (Some (SocketUpdatetime (Now t) (pr_net (set_world w p)))) (\<lambda>n.
          let p1 = p\<lparr>pr_timer := t, pr_net := n\<rparr> in
          if no_contexts p1 then
            Some (bindR (SocketExit (pr_net p1)) (\<lambda>n.
              Inr (notify (p1\<lparr>pr_net := n, pr_quit := True, pr_timer_ended := True\<rparr>))))
          else
            let p2 = WakeUp (pr_count p1 - 1) p1 in
            Some (if pr_sig p2 then
                    bindR (signal_hup (pr_world p2)) (\<lambda>w. Inr (set_world w (p2\<lparr>pr_sig := False\<rparr>)))
                  else Inr p2))))"

definition socket_turn :: "process \<Rightarrow> process res option" where
  "socket_turn p =
     (if pr_socket_ended p then Some (Inr p)
      else
        bindO (SocketPoll_op (pr_net p)) (\<lambda>(r, n).
          let p' = p\<lparr>pr_net := n\<rparr> in
          Some (Inr (
            if r = 0 then p'\<lparr>pr_socket_ended := True\<rparr>
            else if r < 0 then (if no_contexts p' then p'\<lparr>pr_socket_ended := True\<rparr> else p')
            else WakeUp 0 p'))))"

text \<open>\<open>handle_hup\<close>, the handler of the signal.\<close>

definition handle_hup :: "process \<Rightarrow> process" where
  "handle_hup p = p\<lparr>pr_sig := True\<rparr>"

text \<open>\<open>Start\<close> joins the threads: it goes on when all of them have ended.\<close>

definition joined :: "process \<Rightarrow> bool" where
  "joined p \<longleftrightarrow> pr_monitor_ended p \<and> pr_timer_ended p \<and> pr_socket_ended p \<and> (\<forall>k \<in> set (pr_workers p). k = Ended)"

section \<open>Schedules\<close>

inductive thread_step :: "callback \<Rightarrow> bool \<Rightarrow> queue_message \<Rightarrow> process \<Rightarrow> process \<Rightarrow> bool"
  for cb unset garbage where
  step_worker: "i < length (pr_workers p) \<Longrightarrow> worker_turn cb unset garbage i p = Some (Inr p') \<Longrightarrow>
    thread_step cb unset garbage p p'"
| step_monitor: "monitor_turn p = Inr p' \<Longrightarrow> thread_step cb unset garbage p p'"
| step_timer: "timer_turn cp p = Some (Inr p') \<Longrightarrow> thread_step cb unset garbage p p'"
| step_socket: "socket_turn p = Some (Inr p') \<Longrightarrow> thread_step cb unset garbage p p'"
| step_signal: "thread_step cb unset garbage p (handle_hup p)"

inductive thread_steps :: "callback \<Rightarrow> bool \<Rightarrow> queue_message \<Rightarrow> process \<Rightarrow> process \<Rightarrow> bool"
  for cb unset garbage where
  steps_refl: "thread_steps cb unset garbage p p"
| steps_step: "thread_steps cb unset garbage p q \<Longrightarrow> thread_step cb unset garbage q r \<Longrightarrow> thread_steps cb unset garbage p r"

section \<open>Sleeping workers\<close>

text \<open>What every turn of every thread keeps.\<close>

definition asleep :: "nat \<Rightarrow> nat set \<Rightarrow> process \<Rightarrow> bool" where
  "asleep n S p \<longleftrightarrow> \<not> pr_unlock p \<and> length (pr_workers p) = n \<and> (\<forall>i \<in> S. i < n \<and> pr_workers p ! i = Waiting)"

lemma asleep_fields:
  "asleep n S (set_world w p) = asleep n S p" "asleep n S (p\<lparr>pr_monitors := ms\<rparr>) = asleep n S p"
  "asleep n S (p\<lparr>pr_timer := t\<rparr>) = asleep n S p" "asleep n S (p\<lparr>pr_net := nt\<rparr>) = asleep n S p"
  "asleep n S (p\<lparr>pr_sig := b\<rparr>) = asleep n S p" "asleep n S (p\<lparr>pr_monitor_ended := b\<rparr>) = asleep n S p"
  "asleep n S (p\<lparr>pr_socket_ended := b\<rparr>) = asleep n S p" "asleep n S (p\<lparr>pr_sleep := d\<rparr>) = asleep n S p"
  "asleep n S (p\<lparr>pr_quit := b\<rparr>) = asleep n S p"
  "asleep n S (p\<lparr>pr_timer_ended := b\<rparr>) = asleep n S p"
  by (simp_all add: asleep_def set_world_def)

lemma asleep_notify: "asleep n S p \<Longrightarrow> asleep n S (notify p)" "asleep n S p \<Longrightarrow> asleep n S (WakeUp busy p)"
  by (simp_all add: notify_def WakeUp_def asleep_def)

lemma asleep_worker: "asleep n S p \<Longrightarrow> pr_workers p ! i \<noteq> Waiting \<Longrightarrow> asleep n S (set_worker i k p)"
  by (auto simp: asleep_def set_worker_def) (metis nth_list_update_neq)

lemma worker_turn_asleep:
  assumes "worker_turn cb unset garbage i p = Some (Inr p')" and "asleep n S p"
  shows "asleep n S p'"
proof (cases "pr_workers p ! i")
  case (Working q)
  have k: "asleep n S (set_worker i k r)" if "asleep n S r" "pr_workers r = pr_workers p" for k r
    using that Working by (intro asleep_worker) simp_all
  show ?thesis
  proof (cases "pr_quit p")
    case True
    then show ?thesis using assms k [of p] Working by (auto simp: worker_turn_def)
  next
    case False
    then show ?thesis using assms Working
      by (auto simp: worker_turn_def bindO_Some_iff Let_def asleep_fields set_world_def split: if_splits intro!: k)
  qed
next
  case Waiting
  then show ?thesis using assms by (auto simp: worker_turn_def asleep_def)
next
  case Ended
  then show ?thesis using assms by (simp add: worker_turn_def)
qed

lemma thread_step_asleep: "thread_step cb unset garbage p p' \<Longrightarrow> asleep n S p \<Longrightarrow> asleep n S p'"
proof (induction rule: thread_step.induct)
  case (step_worker i p p')
  then show ?case using worker_turn_asleep by blast
next
  case (step_monitor p p')
  then show ?case by (auto simp: monitor_turn_def asleep_fields bindR_Inr_iff split: if_splits)
next
  case (step_timer cp p p')
  then show ?case
    by (auto simp: timer_turn_def asleep_fields bindR_Inr_iff bindO_Some_iff Let_def asleep_notify split: if_splits
        intro!: asleep_notify)
next
  case (step_socket p p')
  then show ?case
    by (auto simp: socket_turn_def asleep_fields bindO_Some_iff Let_def split: if_splits intro!: asleep_notify)
next
  case (step_signal p)
  then show ?case by (simp add: handle_hup_def asleep_fields)
qed

lemma thread_steps_asleep: "thread_steps cb unset garbage p q \<Longrightarrow> asleep n S p \<Longrightarrow> asleep n S q"
  by (induction rule: thread_steps.induct) (auto dest: thread_step_asleep)

text \<open>C38 A worker that has found no queue sleeps for ever, whatever is sent and however the threads are
  scheduled: nothing ever sets \<open>thread_unlock\<close>, so waking up all workers wakes none. The threads are then
  never joined, and the process does not end when its last service has.\<close>

theorem workers_sleep_for_ever:
  assumes "thread_steps cb unset garbage (start_threads n t net) p" and "i < n" and "pr_workers p ! i = Waiting"
    and "thread_steps cb unset garbage p q"
  shows "pr_workers q ! i = Waiting \<and> \<not> joined q"
proof -
  have "asleep n {} (start_threads n t net)" by (simp add: asleep_def start_threads_def)
  with assms(1) have "asleep n {} p" by (rule thread_steps_asleep)
  then have "asleep n {i} p" using assms(2,3) by (simp add: asleep_def)
  with assms(4) have "asleep n {i} q" by (rule thread_steps_asleep)
  then show ?thesis by (auto simp: asleep_def joined_def dest!: nth_mem)
qed

text \<open>A process with one worker, which finds no queue in its first turn.\<close>

definition sample_process :: process where
  "sample_process = start_threads 1 (TimerInit 0 0) \<lparr>nt_server = NoServer, nt_world = start_world 1 1 ''./service''\<rparr>"

lemma sample_worker_turn:
  "worker_turn cb unset garbage 0 sample_process =
     Some (Inr (set_worker 0 Waiting (sample_process\<lparr>pr_sleep := 1\<rparr>)))"
  by (simp add: worker_turn_def sample_process_def start_threads_def pr_world_def start_world_def MessageDispatch_def
      next_queue_def GlobalQueue_Pop_def queues_init_def ProfileEnable_def HarborInit_def GlobalInit_def set_world_def
      set_worker_def Let_def)

definition no_callback :: callback where
  "no_callback = (\<lambda>_ _ _ _ _ _ _ _ w. Inr (0, w))"

definition no_message :: queue_message where
  "no_message = \<lparr>msg_source = 0, msg_session = 0, msg_data = NoData, msg_sz = 0\<rparr>"

theorem workers_sleep_for_ever_witness:
  "\<exists>p. thread_steps no_callback False no_message sample_process p \<and> pr_workers p ! 0 = Waiting \<and>
    pr_workers (handle_hup p) ! 0 = Waiting \<and> \<not> joined (handle_hup p)"
proof -
  let ?p = "set_worker 0 Waiting (sample_process\<lparr>pr_sleep := 1\<rparr>)"
  have "thread_step no_callback False no_message sample_process ?p"
    by (rule step_worker [OF _ sample_worker_turn]) (simp add: sample_process_def start_threads_def)
  then have p: "thread_steps no_callback False no_message sample_process ?p" by (rule steps_step [OF steps_refl])
  have "thread_steps no_callback False no_message ?p (handle_hup ?p)" by (rule steps_step [OF steps_refl step_signal])
  moreover have "pr_workers ?p ! 0 = Waiting" by (simp add: set_worker_def sample_process_def start_threads_def)
  ultimately show ?thesis using workers_sleep_for_ever [OF p [unfolded sample_process_def], of 0] p
    by (auto simp: sample_process_def)
qed

end
