(* ===== verification/NetFacts.thy ===== *)
theory NetFacts
  imports Start ServiceFacts SocketFacts
begin

text \<open>
  Properties of \<open>skynet-src/socket.cpp\<close>, what a service gets of the messages of the socket server, and
  of the start of the whole program.
\<close>

section \<open>Forwarding\<close>

lemma message_size_small: "message_size padding text AND kMessageTypeMask = message_size padding text"
proof -
  have 48: "unat (48 :: u64) = 48" by simp
  have "unat (message_size padding text) \<le> 176"
    by (auto simp: message_size_def unat_word_ariths unat_of_nat)
  then have small: "unat (message_size padding text) < 2 ^ 56" by simp
  have m: "kMessageTypeMask = mask 56" by (simp add: kMessageTypeMask_def mask_eq_exp_minus_1)
  have "take_bit 56 (message_size padding text) = message_size padding text"
    using small by (intro word_unat_eq_iff [THEN iffD2]) (simp add: unsigned_take_bit_eq take_bit_nat_eq_self)
  then show ?thesis unfolding m take_bit_eq_mask .
qed

lemma ForwardMessage_reachable:
  assumes "reachable w (ucast (pm_opaque m)) c x"
    and "qs_heap (w_queues w) (cx_queue x) = Some q" and "mq_in_global q \<noteq> 0" and "padding \<Longrightarrow> null = Inr text"
  shows "\<exists>w' e. ForwardMessage null type padding m w = Inr w' \<and>
    qs_heap (w_queues w') (cx_queue x) = Some (q\<lparr>mq_messages := mq_messages q @ [e]\<rparr>) \<and>
    msg_data e = Freed \<and> msg_type e = kPtypeSocket \<and> msg_size e = message_size padding (pm_data m) \<and> w_ctx w' c = None"
proof -
  let ?e = "\<lparr>msg_source = 0, msg_session = 0, msg_data = Freed,
      msg_sz = message_size padding (pm_data m) OR type_bits kPtypeSocket\<rparr>"
  define qs where "qs = mq_set (cx_queue x) (q\<lparr>mq_messages := mq_messages q @ [?e]\<rparr>) (w_queues w)"
  have "mq_Push (cx_queue x) ?e (w_queues w) = Inr qs"
    using assms(2,3) by (simp add: mq_Push_def mq_at_Some qs_def)
  note push = push_reachable [OF assms(1) this]
  have k: "kPtypeSocket AND 0xff = kPtypeSocket" unfolding kPtypeSocket_def by code_simp
  have "msg_type ?e = kPtypeSocket" "msg_size ?e = message_size padding (pm_data m)"
    using type_size [OF message_size_small, of ?e padding "pm_data m" kPtypeSocket] by (simp_all add: k)
  moreover have "(if padding then null else Inr (pm_data m)) = Inr (if padding then text else pm_data m)"
    using assms(4) by simp
  ultimately show ?thesis using push
    by (intro exI [of _ "w\<lparr>w_ctx := (w_ctx w)(c := None), w_queues := qs\<rparr>"] exI [of _ ?e])
      (simp add: ForwardMessage_def qs_def)
qed


text \<open>A socket of the service of the sample world is closed on request.\<close>

definition closing_request :: answer where
  "closing_request = (sample_answer 2)\<lparr>an_request := ReqClose 1 True 0\<rparr>"

definition closing_server :: server where
  "closing_server = (sample_server (sample_platform Inr (Inr [])) [sample_answer 1, closing_request, sample_answer 16])
     \<lparr>sv_slot := (\<lambda>_. sample_socket\<lparr>sk_id := 1, sk_type := kSocketTypeConnected, sk_opaque := 0x1000001\<rparr>)\<rparr>"

lemma closing_round:
  "\<exists>v'. poll_round 1 closing_server = Inr ((step.Return kSocketClose, 1), v') \<and> pm_opaque (sv_msg v') = 0x1000001 \<and>
    pf_null (sv_platform v') = Inr []"
  apply (simp add: poll_round_def poll_ctrl_def HasCmd_def CtrlCmd_def run_eval closing_server_def sample_server_def
      SocketServer_new_def sample_answer_def closing_request_def BlockReadpipe.simps sample_socket_def sample_platform_def)
  apply (simp add: CloseSocket_def SocketInvalid_def HalfcloseRead_def NomoreSendingData_def ForceClose_def steps_def
      FreeWriteBufferList_def EpollDel_def free_direct_def run_eval SendBufferEmpty_def SocketLockInit_def
      SocketLock_def SocketUnlock_def set_type_def HASH_ID_def ClearClosedEvent_def Let_def)
  done


section \<open>The program\<close>

text \<open>C36 The program never gets to its threads: \<open>SkynetStart\<close> launches the log service first, and either
  the launch fails and the process exits, or it goes wrong on the way (or does not return), whatever
  the modules, the configuration and the system do.\<close>

theorem program_never_starts:
  "SkynetStart_op code unset fresh secs now cf \<noteq> Some (Inr (Some p))"
  by (auto simp: SkynetStart_op_def Let_def bindO_Some_iff launch_never_succeeds split: option.splits)

end
