(* ===== verification/Snlua.thy ===== *)
theory Snlua
  imports Calls
begin

text \<open>
  \<open>service-src/service_snlua.c\<close>, the service that runs Lua: \<open>struct snlua\<close>, its creation, release and
  start, and the allocator \<open>lalloc\<close> that counts and limits the memory of the interpreter. The
  interpreter is not in the repository: what its functions and \<open>skynet_lalloc\<close> answer is a parameter,
  and the calls made into it and into the framework are returned in their order. A \<open>lua_State\<close>, a
  context and a block of memory are addresses.
\<close>

section \<open>State\<close>

text \<open>\<open>sn_activeL\<close> is the coroutine that runs, \<open>sn_trap\<close> the state of a signal: 0 none, 1 being set, -1 set.\<close>

record snlua =
  sn_L :: "nat option"
  sn_ctx :: "nat option"
  sn_mem :: u64
  sn_mem_report :: u64
  sn_mem_limit :: u64
  sn_activeL :: "nat option"
  sn_trap :: int

definition MEMORY_WARNING_REPORT :: u64 where
  "MEMORY_WARNING_REPORT = 1024 * 1024 * 32"

text \<open>The texts that go to \<open>skynet_error\<close>, with the values they show.\<close>

datatype notice =
    MemoryWarning u64
  | RecvSignal int
  | CurrentMemory u64
  | CantLoad string string
  | LoaderError string
  | SetMemoryLimit u64

text \<open>The calls into the framework and into the interpreter that have an effect outside of \<open>snlua\<close>.\<close>

datatype snlua_call =
    Skynet_error "nat option" notice
  | Skynet_sendname string int string
  | Skynet_command string "string option"
  | Skynet_callback "(nat \<times> bool) option"
  | Skynet_send u32 int "u8 list"
  | Lua_sethook "nat option" bool
  | Lua_close "nat option"
  | Skynet_free
  | Lua_gc string
  | LuaL_openlibs
  | LuaL_requiref string
  | Lua_setregistry string string
  | Lua_setfield string string
  | Lua_setglobal string "string option"
  | LuaL_loadfile string
  | Lua_pcall "u8 list"

section \<open>Memory\<close>

text \<open>\<open>lalloc\<close>: the pointer it returns, the new state and what it reports.\<close>

definition lalloc ::
  "(nat option \<Rightarrow> u64 \<Rightarrow> u64 \<Rightarrow> nat option) \<Rightarrow> nat option \<Rightarrow> u64 \<Rightarrow> u64 \<Rightarrow> snlua \<Rightarrow>
     nat option \<times> snlua \<times> snlua_call list" where
  "lalloc skynet_lalloc ptr osize nsize l =
     (let mem = sn_mem l;
          l = l\<lparr>sn_mem := sn_mem l + nsize\<rparr>;
          l = (if ptr \<noteq> None then l\<lparr>sn_mem := sn_mem l - osize\<rparr> else l)
      in if (sn_mem_limit l \<noteq> 0 \<and> sn_mem l > sn_mem_limit l) \<and> (ptr = None \<or> nsize > osize)
         then (None, l\<lparr>sn_mem := mem\<rparr>, [])
         else if sn_mem l > sn_mem_report l
         then (skynet_lalloc ptr osize nsize, l\<lparr>sn_mem_report := sn_mem_report l * 2\<rparr>,
               [Skynet_error (sn_ctx l) (MemoryWarning (sn_mem l))])
         else (skynet_lalloc ptr osize nsize, l, []))"

section \<open>Creation and release\<close>

text \<open>\<open>lua_newstate\<close> allocates through \<open>lalloc\<close>: it answers the state of the interpreter and changes \<open>l\<close>.\<close>

definition snlua_create :: "(snlua \<Rightarrow> nat option \<times> snlua) \<Rightarrow> snlua" where
  "snlua_create lua_newstate =
     (let l = \<lparr>sn_L = None, sn_ctx = None, sn_mem = 0, sn_mem_report = 0, sn_mem_limit = 0,
               sn_activeL = None, sn_trap = 0\<rparr>;
          l = l\<lparr>sn_mem_report := MEMORY_WARNING_REPORT\<rparr>;
          l = l\<lparr>sn_mem_limit := 0\<rparr>;
          (L, l) = lua_newstate l;
          l = l\<lparr>sn_L := L\<rparr>;
          l = l\<lparr>sn_activeL := None\<rparr>
      in l\<lparr>sn_trap := 0\<rparr>)"

definition snlua_release :: "snlua \<Rightarrow> snlua_call list" where
  "snlua_release l = [Lua_close (sn_L l), Skynet_free]"

text \<open>
  \<open>snlua_signal\<close> when no other thread is at work on \<open>trap\<close>; the interleavings are in
  \<open>SnluaSignal\<close>.
\<close>

definition snlua_signal :: "int \<Rightarrow> snlua \<Rightarrow> snlua \<times> snlua_call list" where
  "snlua_signal signal l =
     (let out = [Skynet_error (sn_ctx l) (RecvSignal signal)] in
      if signal = 0 then
        (if sn_trap l = 0
         then (let l = l\<lparr>sn_trap := 1\<rparr>;
                   out = out @ [Lua_sethook (sn_activeL l) True]
               in (l\<lparr>sn_trap := - 1\<rparr>, out))
         else (l, out))
      else if signal = 1 then (l, out @ [Skynet_error (sn_ctx l) (CurrentMemory (sn_mem l))])
      else (l, out))"

section \<open>Start\<close>

text \<open>
  What the interpreter and the environment answer while a service starts: \<open>GETENV\<close>, the result of
  \<open>luaL_loadfile\<close> and of \<open>lua_pcall\<close> with the error text on the stack, the height of the stack at
  the assertion, the field \<open>memlimit\<close> if it is a number.
\<close>

record lua_answers =
  la_getenv :: "string \<Rightarrow> string option"
  la_loadfile :: "string \<Rightarrow> int \<times> string"
  la_pcall :: "u8 list \<Rightarrow> int \<times> string"
  la_gettop :: int
  la_memlimit :: "int option"

definition report_launcher_error :: "snlua_call list" where
  "report_launcher_error = [Skynet_sendname ''.launcher'' kPtypeText ''ERROR'']"

text \<open>\<open>optstring\<close>: the answer of \<open>GETENV\<close>, or the default.\<close>

definition optstring :: "lua_answers \<Rightarrow> string \<Rightarrow> string \<Rightarrow> string \<times> snlua_call list" where
  "optstring a key str =
     ((case la_getenv a key of None \<Rightarrow> str | Some ret \<Rightarrow> ret), [Skynet_command ''GETENV'' (Some key)])"

text \<open>The part of \<open>init_cb\<close> that prepares the libraries.\<close>

definition init_libs :: "snlua_call list" where
  "init_libs =
     [Lua_gc ''STOP'', Lua_setregistry ''LUA_NOENV'' ''true'', LuaL_openlibs,
      LuaL_requiref ''skynet.profile'',
      Lua_setfield ''coroutine.resume'' ''skynet.profile.resume'',
      Lua_setfield ''coroutine.wrap'' ''skynet.profile.wrap'',
      Lua_setregistry ''skynet_context'' ''ctx'',
      LuaL_requiref ''skynet.codecache'', Lua_gc ''GEN'']"

text \<open>The part of \<open>init_cb\<close> that sets the four global paths; \<open>preload\<close> may be NULL.\<close>

definition init_paths :: "lua_answers \<Rightarrow> snlua_call list" where
  "init_paths a =
     (let (path, c1) = optstring a ''lua_path'' ''./lualib/?.lua;./lualib/?/init.lua'';
          (cpath, c2) = optstring a ''lua_cpath'' ''./luaclib/?.so'';
          (service, c3) = optstring a ''luaservice'' ''./service/?.lua'';
          preload = la_getenv a ''preload''
      in c1 @ [Lua_setglobal ''LUA_PATH'' (Some path)] @
         c2 @ [Lua_setglobal ''LUA_CPATH'' (Some cpath)] @
         c3 @ [Lua_setglobal ''LUA_SERVICE'' (Some service)] @
         [Skynet_command ''GETENV'' (Some ''preload''), Lua_setglobal ''LUA_PRELOAD'' preload])"

text \<open>The part of \<open>init_cb\<close> after the loader has run: the limit that the service has asked for.\<close>

definition init_limit :: "lua_answers \<Rightarrow> snlua \<Rightarrow> snlua \<times> snlua_call list" where
  "init_limit a l =
     (case la_memlimit a of
        None \<Rightarrow> (l, [])
      | Some n \<Rightarrow>
          (let limit = word_of_int n in
           (l\<lparr>sn_mem_limit := limit\<rparr>,
            [Skynet_error (sn_ctx l) (SetMemoryLimit limit), Lua_setregistry ''memlimit'' ''nil''])))"

definition init_cb ::
  "lua_answers \<Rightarrow> nat \<Rightarrow> u8 list \<Rightarrow> snlua \<Rightarrow> (int \<times> snlua \<times> snlua_call list) res" where
  "init_cb a ctx args l =
     (let l = l\<lparr>sn_ctx := Some ctx\<rparr>;
          out = init_libs @ init_paths a
      in bindR (assertR (la_gettop a = 1)) (\<lambda>_.
         let (loader, c) = optstring a ''lualoader'' ''./lualib/loader.lua'';
             out = out @ c @ [LuaL_loadfile loader];
             (r, err) = la_loadfile a loader
         in if r \<noteq> 0
            then Inr (1, l, out @ [Skynet_error (Some ctx) (CantLoad loader err)] @ report_launcher_error)
            else
              let out = out @ [Lua_pcall args];
                  (r, err) = la_pcall a args
              in if r \<noteq> 0
                 then Inr (1, l, out @ [Skynet_error (Some ctx) (LoaderError err)] @ report_launcher_error)
                 else let (l, c) = init_limit a l
                      in Inr (0, l, out @ c @ [Lua_gc ''RESTART''])))"

text \<open>\<open>launch_cb\<close>, the callback for the first message.\<close>

definition launch_cb ::
  "lua_answers \<Rightarrow> nat \<Rightarrow> int \<Rightarrow> int \<Rightarrow> u8 list \<Rightarrow> snlua \<Rightarrow> (snlua \<times> snlua_call list) res" where
  "launch_cb a context type session msg l =
     bindR (assertR (type = 0 \<and> session = 0)) (\<lambda>_.
     bindR (init_cb a context msg l) (\<lambda>(err, l, out).
       Inr (l, [Skynet_callback None] @ out @
               (if err \<noteq> 0 then [Skynet_command ''EXIT'' None] else []))))"

text \<open>
  \<open>snlua_init\<close>: installs \<open>launch_cb\<close> and sends the service its arguments as the first message;
  \<open>self\<close> is what the command \<open>REG\<close> answers.
\<close>

definition snlua_init :: "nat \<Rightarrow> u8 list \<Rightarrow> string \<Rightarrow> snlua_call list" where
  "snlua_init l args self =
     [Skynet_callback (Some (l, True)), Skynet_command ''REG'' None,
      Skynet_send (strtoul16 (tl self)) kPtypeTagDontcopy args]"

text \<open>
  The service either starts, with the limit that its loader has asked for, or tells the launcher and
  exits; it never changes the state of the allocator otherwise.
\<close>

lemma launch_outcome:
  assumes "launch_cb a context 0 0 msg l = Inr (l', out)"
  shows "l' = l\<lparr>sn_ctx := Some context\<rparr> \<and> last out = Skynet_command ''EXIT'' None \<and> set report_launcher_error \<subseteq> set out
    \<or> l' = l\<lparr>sn_ctx := Some context, sn_mem_limit := (case la_memlimit a of None \<Rightarrow> sn_mem_limit l | Some n \<Rightarrow> word_of_int n)\<rparr>
      \<and> last out = Lua_gc ''RESTART''"
  using assms
  by (auto simp: launch_cb_def init_cb_def init_limit_def report_launcher_error_def bindR_Inr_iff Let_def
      split: prod.splits if_splits option.splits)

section \<open>The memory is counted\<close>

text \<open>
  One call of the interpreter for memory, with the answer of \<open>skynet_lalloc\<close>, in the blocks that are
  live: a block given back has the size it was allocated with; the sizes together stay below
  \<open>2 ^ 64\<close>; an allocation succeeds with a block that is not in use.
\<close>

type_synonym blocks = "(nat \<times> u64) list"

definition block_bytes :: "blocks \<Rightarrow> nat" where
  "block_bytes bs = sum_list (map (\<lambda>b. unat (snd b)) bs)"

definition without :: "nat option \<Rightarrow> blocks \<Rightarrow> blocks" where
  "without ptr bs = (case ptr of None \<Rightarrow> bs | Some p \<Rightarrow> filter (\<lambda>b. fst b \<noteq> p) bs)"

definition legal_call :: "nat option \<Rightarrow> u64 \<Rightarrow> u64 \<Rightarrow> nat option \<Rightarrow> blocks \<Rightarrow> bool" where
  "legal_call ptr osize nsize answer bs \<longleftrightarrow>
     (case ptr of None \<Rightarrow> nsize \<noteq> 0 | Some p \<Rightarrow> map_of bs p = Some osize) \<and>
     block_bytes bs + unat nsize < 2 ^ 64 \<and>
     (nsize \<noteq> 0 \<longrightarrow> (\<exists>q. answer = Some q \<and> \<not> list_ex (\<lambda>b. fst b = q) (without ptr bs)))"

text \<open>The live blocks after a call that answered \<open>r\<close>.\<close>

definition blocks_after :: "nat option \<Rightarrow> u64 \<Rightarrow> nat option \<Rightarrow> blocks \<Rightarrow> blocks" where
  "blocks_after ptr nsize r bs =
     (if nsize = 0 then without ptr bs
      else case r of None \<Rightarrow> bs | Some q \<Rightarrow> (q, nsize) # without ptr bs)"

fun lua_memory :: "(nat option \<times> u64 \<times> u64 \<times> nat option) list \<Rightarrow> snlua \<times> blocks \<Rightarrow> (snlua \<times> blocks) option" where
  "lua_memory [] s = Some s"
| "lua_memory ((ptr, osize, nsize, answer) # cs) (l, bs) =
     (if legal_call ptr osize nsize answer bs
      then let (r, l', out) = lalloc (\<lambda>_ _ _. answer) ptr osize nsize l
           in lua_memory cs (l', blocks_after ptr nsize r bs)
      else None)"

definition memory_counted :: "snlua \<Rightarrow> blocks \<Rightarrow> bool" where
  "memory_counted l bs \<longleftrightarrow> distinct (map fst bs) \<and> unat (sn_mem l) = block_bytes bs"

lemma block_bytes_simps [simp]: "block_bytes [] = 0" "block_bytes (b # bs) = unat (snd b) + block_bytes bs"
  by (simp_all add: block_bytes_def)

lemma filter_not_in: "p \<notin> fst ` set bs \<Longrightarrow> filter (\<lambda>b. fst b \<noteq> p) bs = bs"
  by (induction bs) auto

lemma block_bytes_without:
  "distinct (map fst bs) \<Longrightarrow> map_of bs p = Some n \<Longrightarrow> block_bytes (without (Some p) bs) + unat n = block_bytes bs"
  by (induction bs) (auto simp: without_def filter_not_in)

lemma distinct_without: "distinct (map fst bs) \<Longrightarrow> distinct (map fst (without ptr bs))"
  by (simp add: without_def distinct_map_filter split: option.split)

text \<open>The arithmetic of the counter, in which no sum exceeds its 64 bits.\<close>

lemma unat_add_sub:
  fixes m n k :: u64
  assumes "unat m + unat n < 2 ^ 64" and "unat k \<le> unat m"
  shows "unat (m + n - k) = unat m + unat n - unat k"
proof -
  have s: "unat (m + n) = unat m + unat n"
    using assms(1) by (subst unat_add_lem [THEN iffD1]) simp_all
  with assms(2) have "k \<le> m + n" by (simp add: word_le_nat_alt)
  with s show ?thesis by (simp add: unat_sub)
qed

lemma lalloc_state:
  assumes "lalloc f ptr osize nsize l = (r, l', out)"
  defines "mem \<equiv> (if ptr \<noteq> None then sn_mem l + nsize - osize else sn_mem l + nsize)"
  shows "sn_mem_limit l' = sn_mem_limit l"
    and "sn_mem l' = sn_mem l \<and> r = None \<and> (ptr = None \<or> nsize > osize) \<or>
         sn_mem l' = mem \<and> r = f ptr osize nsize \<and>
           (sn_mem_limit l = 0 \<or> mem \<le> sn_mem_limit l \<or> ptr \<noteq> None \<and> nsize \<le> osize)"
  using assms by (auto simp: lalloc_def Let_def split: if_splits)

lemma legal_size:
  assumes "legal_call ptr osize nsize answer bs" and "memory_counted l bs"
  shows "unat (sn_mem l) + unat nsize < 2 ^ 64" and "ptr \<noteq> None \<Longrightarrow> unat osize \<le> unat (sn_mem l)"
    and "ptr \<noteq> None \<Longrightarrow> block_bytes (without ptr bs) = unat (sn_mem l) - unat osize"
  using assms block_bytes_without [of bs _ osize]
  by (fastforce simp: legal_call_def memory_counted_def split: option.splits)+

lemma lalloc_counted:
  assumes legal: "legal_call ptr osize nsize answer bs" and inv: "memory_counted l bs"
    and run: "lalloc (\<lambda>_ _ _. answer) ptr osize nsize l = (r, l', out)"
  shows "memory_counted l' (blocks_after ptr nsize r bs)"
    and "sn_mem_limit l \<noteq> 0 \<Longrightarrow> sn_mem l' \<le> max (sn_mem l) (sn_mem_limit l)"
proof -
  note size = legal_size [OF legal inv]
  have mem: "unat (if ptr \<noteq> None then sn_mem l + nsize - osize else sn_mem l + nsize) =
      block_bytes (without ptr bs) + unat nsize"
  proof (cases ptr)
    case None
    then show ?thesis using size(1) inv unat_add_sub [of "sn_mem l" nsize 0]
      by (simp add: without_def memory_counted_def)
  next
    case (Some p)
    then show ?thesis using size unat_add_sub [of "sn_mem l" nsize osize] by simp
  qed
  show "memory_counted l' (blocks_after ptr nsize r bs)"
    using lalloc_state [OF run] mem legal inv
    by (auto simp: memory_counted_def blocks_after_def legal_call_def distinct_without list_ex_iff split: option.splits if_splits)
  show "sn_mem l' \<le> max (sn_mem l) (sn_mem_limit l)" if "sn_mem_limit l \<noteq> 0"
  proof -
    have "sn_mem l' \<le> sn_mem l \<or> sn_mem l' \<le> sn_mem_limit l"
      using lalloc_state(2) [OF run] mem size that by (auto simp: word_le_nat_alt split: if_splits)
    then show ?thesis by (simp only: le_max_iff_disj)
  qed
qed


text \<open>A block of 60 bytes is resized to 40; a limit of 64 refuses another 30 bytes but allows 20.\<close>

definition sample_snlua :: snlua where
  "sample_snlua = (snlua_create (\<lambda>l. (Some 1, l)))\<lparr>sn_mem_limit := 64\<rparr>"


end
