(* ===== verification/SnluaSignal.thy ===== *)
theory SnluaSignal
  imports Snlua Locks
begin

text \<open>
  How a signal interrupts a Lua service (\<open>signal_hook\<close>, \<open>switchL\<close>, \<open>lua_resumeX\<close> and \<open>snlua_signal\<close>
  of \<open>service-src/service_snlua.c\<close>): the thread that runs the service and any number of threads that
  signal it work on \<open>trap\<close>, \<open>activeL\<close> and the hooks of the coroutines. Every step is one atomic
  operation, one write to \<open>activeL\<close> or one call into the interpreter.
\<close>

section \<open>State\<close>

text \<open>
  The worker: \<open>Runs\<close> Lua code in the coroutine at the head of the chain of resumed coroutines;
  \<open>HookEnter\<close>, \<open>HookLoad\<close>, \<open>HookStore\<close> inside \<open>signal_hook\<close>; \<open>SwitchSet\<close>, \<open>SwitchLoad\<close>, \<open>SwitchHook\<close>
  inside \<open>switchL\<close>; \<open>Resumed\<close>, \<open>ResumeWait\<close> after \<open>lua_resume\<close> in \<open>lua_resumeX\<close>.
\<close>

datatype worker_pc = Runs | HookEnter | HookLoad | HookStore | SwitchSet | SwitchLoad | SwitchHook | Resumed | ResumeWait

text \<open>
  A signalling thread: \<open>Outside\<close> the function, \<open>SigCas\<close> about to exchange 0 for 1, \<open>SigRead\<close> about to
  read \<open>activeL\<close>, \<open>SigHook\<close> about to set the hook of the coroutine it has read, \<open>SigFinish\<close> about to
  exchange 1 for -1.
\<close>

datatype signal_pc = Outside | SigCas | SigRead | SigHook "nat option" | SigFinish

text \<open>\<open>tr_accepted\<close> and \<open>tr_raised\<close> count the signals that were accepted and the errors that were raised.\<close>

record trap_state =
  tr_trap :: int
  tr_activeL :: "nat option"
  tr_hooked :: "nat \<Rightarrow> bool"
  tr_chain :: "nat list"
  tr_worker :: worker_pc
  tr_signals :: "signal_pc list"
  tr_accepted :: nat
  tr_raised :: nat

definition trap_init :: "nat \<Rightarrow> nat \<Rightarrow> trap_state" where
  "trap_init main threads = \<lparr>tr_trap = 0, tr_activeL = None, tr_hooked = (\<lambda>_. False), tr_chain = [main],
     tr_worker = Runs, tr_signals = replicate threads Outside, tr_accepted = 0, tr_raised = 0\<rparr>"

abbreviation running :: "trap_state \<Rightarrow> nat" where
  "running s \<equiv> hd (tr_chain s)"

abbreviation set_hook :: "nat \<Rightarrow> bool \<Rightarrow> trap_state \<Rightarrow> trap_state" where
  "set_hook L b s \<equiv> s\<lparr>tr_hooked := (tr_hooked s)(L := b)\<rparr>"

abbreviation signal_goto :: "nat \<Rightarrow> signal_pc \<Rightarrow> trap_state \<Rightarrow> trap_state" where
  "signal_goto i pc s \<equiv> s\<lparr>tr_signals := (tr_signals s)[i := pc]\<rparr>"

section \<open>Steps\<close>

text \<open>
  \<open>signal_hook\<close>: the interpreter calls it in the running coroutine when its hook is set; the error it
  raises is caught in the coroutine or ends it (\<open>returns\<close> below).
\<close>

inductive signal_hook_step :: "trap_state \<Rightarrow> trap_state \<Rightarrow> bool" where
  hook_called: "tr_worker s = Runs \<Longrightarrow> tr_hooked s (running s) \<Longrightarrow> signal_hook_step s (s\<lparr>tr_worker := HookEnter\<rparr>)"
| hook_off: "tr_worker s = HookEnter \<Longrightarrow>
    signal_hook_step s (set_hook (running s) False (s\<lparr>tr_worker := HookLoad\<rparr>))"
| hook_idle: "tr_worker s = HookLoad \<Longrightarrow> tr_trap s = 0 \<Longrightarrow> signal_hook_step s (s\<lparr>tr_worker := Runs\<rparr>)"
| hook_trapped: "tr_worker s = HookLoad \<Longrightarrow> tr_trap s \<noteq> 0 \<Longrightarrow> signal_hook_step s (s\<lparr>tr_worker := HookStore\<rparr>)"
| hook_error: "tr_worker s = HookStore \<Longrightarrow>
    signal_hook_step s (s\<lparr>tr_trap := 0, tr_raised := tr_raised s + 1, tr_worker := Runs\<rparr>)"

text \<open>\<open>switchL\<close>, to the coroutine at the head of the chain.\<close>

inductive switchL_step :: "trap_state \<Rightarrow> trap_state \<Rightarrow> bool" where
  switch_set: "tr_worker s = SwitchSet \<Longrightarrow>
    switchL_step s (s\<lparr>tr_activeL := Some (running s), tr_worker := SwitchLoad\<rparr>)"
| switch_idle: "tr_worker s = SwitchLoad \<Longrightarrow> tr_trap s = 0 \<Longrightarrow> switchL_step s (s\<lparr>tr_worker := Runs\<rparr>)"
| switch_trapped: "tr_worker s = SwitchLoad \<Longrightarrow> tr_trap s \<noteq> 0 \<Longrightarrow> switchL_step s (s\<lparr>tr_worker := SwitchHook\<rparr>)"
| switch_hook: "tr_worker s = SwitchHook \<Longrightarrow>
    switchL_step s (set_hook (running s) True (s\<lparr>tr_worker := Runs\<rparr>))"

text \<open>\<open>lua_resumeX\<close>: the resumed coroutine enters the chain, and leaves it after the wait.\<close>

inductive resumeX_step :: "trap_state \<Rightarrow> trap_state \<Rightarrow> bool" where
  resume: "tr_worker s = Runs \<Longrightarrow> co \<notin> set (tr_chain s) \<Longrightarrow>
    resumeX_step s (s\<lparr>tr_chain := co # tr_chain s, tr_worker := SwitchSet\<rparr>)"
| returns: "tr_worker s = Runs \<Longrightarrow> 2 \<le> length (tr_chain s) \<Longrightarrow> resumeX_step s (s\<lparr>tr_worker := Resumed\<rparr>)"
| resumed_idle: "tr_worker s = Resumed \<Longrightarrow> tr_trap s = 0 \<Longrightarrow>
    resumeX_step s (s\<lparr>tr_chain := tl (tr_chain s), tr_worker := SwitchSet\<rparr>)"
| resumed_trapped: "tr_worker s = Resumed \<Longrightarrow> tr_trap s \<noteq> 0 \<Longrightarrow> resumeX_step s (s\<lparr>tr_worker := ResumeWait\<rparr>)"
| wait_again: "tr_worker s = ResumeWait \<Longrightarrow> 0 \<le> tr_trap s \<Longrightarrow> resumeX_step s s"
| wait_over: "tr_worker s = ResumeWait \<Longrightarrow> tr_trap s < 0 \<Longrightarrow>
    resumeX_step s (s\<lparr>tr_chain := tl (tr_chain s), tr_worker := SwitchSet\<rparr>)"

text \<open>
  \<open>snlua_signal (l, 0)\<close> in thread \<open>i\<close>. A thread that has read NULL from \<open>activeL\<close> has no further step.
\<close>

inductive signal_step :: "trap_state \<Rightarrow> trap_state \<Rightarrow> bool" where
  sig_free: "i < length (tr_signals s) \<Longrightarrow> tr_signals s ! i = Outside \<Longrightarrow> tr_trap s = 0 \<Longrightarrow>
    signal_step s (signal_goto i SigCas s)"
| sig_busy: "i < length (tr_signals s) \<Longrightarrow> tr_signals s ! i = Outside \<Longrightarrow> tr_trap s \<noteq> 0 \<Longrightarrow> signal_step s s"
| sig_cas: "i < length (tr_signals s) \<Longrightarrow> tr_signals s ! i = SigCas \<Longrightarrow> tr_trap s = 0 \<Longrightarrow>
    signal_step s (signal_goto i SigRead (s\<lparr>tr_trap := 1, tr_accepted := tr_accepted s + 1\<rparr>))"
| sig_lost: "i < length (tr_signals s) \<Longrightarrow> tr_signals s ! i = SigCas \<Longrightarrow> tr_trap s \<noteq> 0 \<Longrightarrow>
    signal_step s (signal_goto i Outside s)"
| sig_read: "i < length (tr_signals s) \<Longrightarrow> tr_signals s ! i = SigRead \<Longrightarrow>
    signal_step s (signal_goto i (SigHook (tr_activeL s)) s)"
| sig_hook: "i < length (tr_signals s) \<Longrightarrow> tr_signals s ! i = SigHook (Some L) \<Longrightarrow>
    signal_step s (signal_goto i SigFinish (set_hook L True s))"
| sig_finish: "i < length (tr_signals s) \<Longrightarrow> tr_signals s ! i = SigFinish \<Longrightarrow> tr_trap s = 1 \<Longrightarrow>
    signal_step s (signal_goto i Outside (s\<lparr>tr_trap := - 1\<rparr>))"
| sig_finish_late: "i < length (tr_signals s) \<Longrightarrow> tr_signals s ! i = SigFinish \<Longrightarrow> tr_trap s \<noteq> 1 \<Longrightarrow>
    signal_step s (signal_goto i Outside s)"

definition trap_step :: "trap_state \<Rightarrow> trap_state \<Rightarrow> bool" where
  "trap_step s s' \<longleftrightarrow> signal_hook_step s s' \<or> switchL_step s s' \<or> resumeX_step s s' \<or> signal_step s s'"

inductive_cases signal_hook_stepE: "signal_hook_step s s'"
inductive_cases switchL_stepE: "switchL_step s s'"
inductive_cases resumeX_stepE: "resumeX_step s s'"
inductive_cases signal_stepE: "signal_step s s'"

lemma trap_step_cases:
  assumes "trap_step s s'"
  obtains "signal_hook_step s s'" | "switchL_step s s'" | "resumeX_step s s'" | "signal_step s s'"
  using assms by (auto simp: trap_step_def)

section \<open>Invariants\<close>

text \<open>Every accepted signal but the one that is pending has raised its error.\<close>

definition signals_counted :: "trap_state \<Rightarrow> bool" where
  "signals_counted s \<longleftrightarrow>
     tr_trap s \<in> {- 1, 0, 1} \<and>
     tr_accepted s = tr_raised s + (if tr_trap s = 0 then 0 else 1) \<and>
     (tr_worker s = HookStore \<longrightarrow> tr_trap s \<noteq> 0)"

lemma signals_counted_step: "trap_step s s' \<Longrightarrow> signals_counted s \<Longrightarrow> signals_counted s'"
  by (erule trap_step_cases)
    (auto simp: signals_counted_def elim!: signal_hook_stepE switchL_stepE resumeX_stepE signal_stepE)

text \<open>A signal that is being set has its thread: \<open>trap\<close> is 1 only while a thread is past its exchange.\<close>

definition setting :: "signal_pc \<Rightarrow> bool" where
  "setting pc \<longleftrightarrow> pc = SigRead \<or> pc = SigFinish \<or> (\<exists>L. pc = SigHook L)"

lemma setting_simps [simp]:
  "\<not> setting Outside" "\<not> setting SigCas" "setting SigRead" "setting (SigHook L)" "setting SigFinish"
  by (simp_all add: setting_def)

definition being_set :: "trap_state \<Rightarrow> bool" where
  "being_set s \<longleftrightarrow> (tr_trap s = 1 \<longrightarrow> list_ex setting (tr_signals s))"

lemma list_ex_new: "i < length xs \<Longrightarrow> P y \<Longrightarrow> list_ex P (xs[i := y])"
  by (auto simp: list_ex_iff intro: set_update_memI)

lemma list_ex_keep:
  assumes "list_ex P xs" and "P (xs ! i) \<longrightarrow> P y"
  shows "list_ex P (xs[i := y])"
proof -
  obtain j where j: "j < length xs" "P (xs ! j)" using assms(1) by (auto simp: list_ex_length)
  then have "P (xs[i := y] ! j)" using assms(2) by (cases "j = i") auto
  with j(1) show ?thesis by (auto simp: list_ex_length)
qed

lemmas list_ex_moves = list_ex_new list_ex_keep

lemma being_set_step: "trap_step s s' \<Longrightarrow> being_set s \<Longrightarrow> being_set s'"
  by (erule trap_step_cases)
    (auto simp: being_set_def list_ex_moves elim!: signal_hook_stepE switchL_stepE resumeX_stepE signal_stepE)

text \<open>
  The coroutine that runs is \<open>activeL\<close>, except between the change of the chain and the assignment in
  \<open>switchL\<close>, and before the first coroutine is resumed.
\<close>

definition chain_ok :: "trap_state \<Rightarrow> bool" where
  "chain_ok s \<longleftrightarrow> tr_chain s \<noteq> [] \<and>
     (tr_worker s \<in> {Resumed, ResumeWait} \<longrightarrow> 2 \<le> length (tr_chain s)) \<and>
     (tr_worker s \<noteq> SwitchSet \<longrightarrow> tr_activeL s = Some (running s) \<or> tr_activeL s = None)"

lemma tl_not_Nil: "2 \<le> length xs \<Longrightarrow> tl xs \<noteq> []"
  by (cases xs) auto

lemma chain_ok_resumeX: "resumeX_step s s' \<Longrightarrow> chain_ok s \<Longrightarrow> chain_ok s'"
  by (induction rule: resumeX_step.induct) (simp_all add: chain_ok_def tl_not_Nil)

lemma chain_ok_step: "trap_step s s' \<Longrightarrow> chain_ok s \<Longrightarrow> chain_ok s'"
proof (erule trap_step_cases)
  show "signal_hook_step s s' \<Longrightarrow> chain_ok s \<Longrightarrow> chain_ok s'"
    by (induction rule: signal_hook_step.induct) (simp_all add: chain_ok_def)
  show "switchL_step s s' \<Longrightarrow> chain_ok s \<Longrightarrow> chain_ok s'"
    by (induction rule: switchL_step.induct) (simp_all add: chain_ok_def)
  show "signal_step s s' \<Longrightarrow> chain_ok s \<Longrightarrow> chain_ok s'"
    by (induction rule: signal_step.induct) (simp_all add: chain_ok_def)
qed (rule chain_ok_resumeX)

text \<open>A pending signal is noticed: Lua code only runs with the hook set, or with a thread about to set it.\<close>

definition about_to_hook :: "nat \<Rightarrow> signal_pc \<Rightarrow> bool" where
  "about_to_hook L pc \<longleftrightarrow> pc = SigRead \<or> pc = SigHook (Some L) \<or> pc = SigHook None"

definition noticed :: "trap_state \<Rightarrow> bool" where
  "noticed s \<longleftrightarrow> (tr_trap s \<noteq> 0 \<and> tr_worker s = Runs \<longrightarrow>
     tr_hooked s (running s) \<or> list_ex (about_to_hook (running s)) (tr_signals s))"

lemma about_to_hook_simps [simp]:
  "\<not> about_to_hook L Outside" "\<not> about_to_hook L SigCas" "about_to_hook L SigRead" "\<not> about_to_hook L SigFinish"
  "about_to_hook L (SigHook None)" "about_to_hook L (SigHook (Some M)) \<longleftrightarrow> M = L"
  by (auto simp: about_to_hook_def)

lemma noticed_signal: "signal_step s s' \<Longrightarrow> chain_ok s \<Longrightarrow> noticed s \<Longrightarrow> noticed s'"
  by (erule signal_stepE)
    (auto simp: noticed_def chain_ok_def list_ex_moves)

lemma noticed_step:
  assumes "trap_step s s'" and "chain_ok s" and "noticed s"
  shows "noticed s'"
  using assms(1)
proof (cases rule: trap_step_cases)
  case 4
  then show ?thesis using noticed_signal assms(2,3) by blast
qed (use assms(3) in \<open>auto simp: noticed_def elim!: signal_hook_stepE switchL_stepE resumeX_stepE\<close>)

definition trap_inv :: "trap_state \<Rightarrow> bool" where
  "trap_inv s \<longleftrightarrow> signals_counted s \<and> being_set s \<and> chain_ok s \<and> noticed s"

lemma trap_inv_reachable:
  assumes "trap_step\<^sup>*\<^sup>* (trap_init main n) s"
  shows "trap_inv s"
  using assms
proof (induction rule: rtranclp_induct)
  case base
  then show ?case
    by (simp add: trap_inv_def trap_init_def signals_counted_def being_set_def chain_ok_def noticed_def)
next
  case (step s s')
  then show ?case
    by (auto simp: trap_inv_def intro: signals_counted_step being_set_step chain_ok_step noticed_step)
qed

section \<open>Following a run\<close>

text \<open>Steps of the parts as steps of the whole.\<close>

lemma trap_stepI:
  "signal_hook_step s s' \<Longrightarrow> trap_step s s'" "switchL_step s s' \<Longrightarrow> trap_step s s'"
  "resumeX_step s s' \<Longrightarrow> trap_step s s'" "signal_step s s' \<Longrightarrow> trap_step s s'"
  by (simp_all add: trap_step_def)

text \<open>The steps with the state they lead to spelled out, to follow a run.\<close>

lemma run_signal:
  assumes "trap_step\<^sup>*\<^sup>* s0 s"
  shows "tr_signals s ! i = Outside \<Longrightarrow> i < length (tr_signals s) \<Longrightarrow> tr_trap s = 0 \<Longrightarrow> s' = signal_goto i SigCas s \<Longrightarrow> trap_step\<^sup>*\<^sup>* s0 s'"
    and "tr_signals s ! i = SigCas \<Longrightarrow> i < length (tr_signals s) \<Longrightarrow> tr_trap s = 0 \<Longrightarrow>
      s' = signal_goto i SigRead (s\<lparr>tr_trap := 1, tr_accepted := tr_accepted s + 1\<rparr>) \<Longrightarrow> trap_step\<^sup>*\<^sup>* s0 s'"
    and "tr_signals s ! i = SigRead \<Longrightarrow> i < length (tr_signals s) \<Longrightarrow> s' = signal_goto i (SigHook (tr_activeL s)) s \<Longrightarrow> trap_step\<^sup>*\<^sup>* s0 s'"
    and "tr_signals s ! i = SigHook (Some L) \<Longrightarrow> i < length (tr_signals s) \<Longrightarrow> s' = signal_goto i SigFinish (set_hook L True s) \<Longrightarrow> trap_step\<^sup>*\<^sup>* s0 s'"
    and "tr_signals s ! i = SigFinish \<Longrightarrow> i < length (tr_signals s) \<Longrightarrow> tr_trap s = 1 \<Longrightarrow> s' = signal_goto i Outside (s\<lparr>tr_trap := - 1\<rparr>) \<Longrightarrow> trap_step\<^sup>*\<^sup>* s0 s'"
  using rtranclp.rtrancl_into_rtrancl [OF assms trap_stepI(4)] signal_step.intros [of i s] by metis+

lemma run_worker:
  assumes "trap_step\<^sup>*\<^sup>* s0 s"
  shows "tr_worker s = Runs \<Longrightarrow> tr_hooked s (running s) \<Longrightarrow> s' = s\<lparr>tr_worker := HookEnter\<rparr> \<Longrightarrow> trap_step\<^sup>*\<^sup>* s0 s'"
    and "tr_worker s = HookEnter \<Longrightarrow> s' = set_hook (running s) False (s\<lparr>tr_worker := HookLoad\<rparr>) \<Longrightarrow> trap_step\<^sup>*\<^sup>* s0 s'"
    and "tr_worker s = HookLoad \<Longrightarrow> tr_trap s \<noteq> 0 \<Longrightarrow> s' = s\<lparr>tr_worker := HookStore\<rparr> \<Longrightarrow> trap_step\<^sup>*\<^sup>* s0 s'"
    and "tr_worker s = HookStore \<Longrightarrow> s' = s\<lparr>tr_trap := 0, tr_raised := tr_raised s + 1, tr_worker := Runs\<rparr> \<Longrightarrow> trap_step\<^sup>*\<^sup>* s0 s'"
    and "tr_worker s = SwitchSet \<Longrightarrow> s' = s\<lparr>tr_activeL := Some (running s), tr_worker := SwitchLoad\<rparr> \<Longrightarrow> trap_step\<^sup>*\<^sup>* s0 s'"
    and "tr_worker s = SwitchLoad \<Longrightarrow> tr_trap s = 0 \<Longrightarrow> s' = s\<lparr>tr_worker := Runs\<rparr> \<Longrightarrow> trap_step\<^sup>*\<^sup>* s0 s'"
    and "tr_worker s = SwitchLoad \<Longrightarrow> tr_trap s \<noteq> 0 \<Longrightarrow> s' = s\<lparr>tr_worker := SwitchHook\<rparr> \<Longrightarrow> trap_step\<^sup>*\<^sup>* s0 s'"
    and "tr_worker s = SwitchHook \<Longrightarrow> s' = set_hook (running s) True (s\<lparr>tr_worker := Runs\<rparr>) \<Longrightarrow> trap_step\<^sup>*\<^sup>* s0 s'"
    and "tr_worker s = Runs \<Longrightarrow> co \<notin> set (tr_chain s) \<Longrightarrow> s' = s\<lparr>tr_chain := co # tr_chain s, tr_worker := SwitchSet\<rparr> \<Longrightarrow> trap_step\<^sup>*\<^sup>* s0 s'"
    and "tr_worker s = Runs \<Longrightarrow> 2 \<le> length (tr_chain s) \<Longrightarrow> s' = s\<lparr>tr_worker := Resumed\<rparr> \<Longrightarrow> trap_step\<^sup>*\<^sup>* s0 s'"
    and "tr_worker s = Resumed \<Longrightarrow> tr_trap s = 0 \<Longrightarrow> s' = s\<lparr>tr_chain := tl (tr_chain s), tr_worker := SwitchSet\<rparr> \<Longrightarrow> trap_step\<^sup>*\<^sup>* s0 s'"
  using rtranclp.rtrancl_into_rtrancl [OF assms trap_stepI(1)] rtranclp.rtrancl_into_rtrancl [OF assms trap_stepI(2)]
    rtranclp.rtrancl_into_rtrancl [OF assms trap_stepI(3)]
    signal_hook_step.intros [of s] switchL_step.intros [of s] resumeX_step.intros [of s] by metis+

section \<open>Signals\<close>



text \<open>
  The wait in \<open>lua_resumeX\<close> is meant to keep a coroutine until a signalling thread has set its hook. But
  a coroutine that is resumed meanwhile takes the signal first and resets \<open>trap\<close>, so the wait is
  passed over and the thread sets the hook of a coroutine that has returned.
\<close>

lemma hook_of_returned_coroutine:
  "\<exists>s. trap_step\<^sup>*\<^sup>* (trap_init 0 1) s \<and> tr_signals s = [SigHook (Some 1)] \<and> tr_chain s = [0]"
proof -
  let ?s = "\<lambda>t a h c w g acc r. \<lparr>tr_trap = t, tr_activeL = a, tr_hooked = h, tr_chain = c, tr_worker = w,
    tr_signals = [g], tr_accepted = acc, tr_raised = r\<rparr>"
  have r0: "trap_step\<^sup>*\<^sup>* (trap_init 0 1) (?s (0) (None) ((\<lambda>_. False)) [0] Runs (Outside) 0 0)"
    by (simp add: trap_init_def)
  have r1: "trap_step\<^sup>*\<^sup>* (trap_init 0 1) (?s (0) (None) ((\<lambda>_. False)) [1, 0] SwitchSet (Outside) 0 0)"
    by (rule run_worker(9) [OF r0]) simp_all
  have r2: "trap_step\<^sup>*\<^sup>* (trap_init 0 1) (?s (0) (Some 1) ((\<lambda>_. False)) [1, 0] SwitchLoad (Outside) 0 0)"
    by (rule run_worker(5) [OF r1]) simp_all
  have r3: "trap_step\<^sup>*\<^sup>* (trap_init 0 1) (?s (0) (Some 1) ((\<lambda>_. False)) [1, 0] Runs (Outside) 0 0)"
    by (rule run_worker(6) [OF r2]) simp_all
  have r4: "trap_step\<^sup>*\<^sup>* (trap_init 0 1) (?s (0) (Some 1) ((\<lambda>_. False)) [1, 0] Runs (SigCas) 0 0)"
    by (rule run_signal(1) [OF r3, where i = 0]) simp_all
  have r5: "trap_step\<^sup>*\<^sup>* (trap_init 0 1) (?s (1) (Some 1) ((\<lambda>_. False)) [1, 0] Runs (SigRead) 1 0)"
    by (rule run_signal(2) [OF r4, where i = 0]) simp_all
  have r6: "trap_step\<^sup>*\<^sup>* (trap_init 0 1) (?s (1) (Some 1) ((\<lambda>_. False)) [1, 0] Runs (SigHook (Some 1)) 1 0)"
    by (rule run_signal(3) [OF r5, where i = 0]) simp_all
  have r7: "trap_step\<^sup>*\<^sup>* (trap_init 0 1) (?s (1) (Some 1) ((\<lambda>_. False)) [2, 1, 0] SwitchSet (SigHook (Some 1)) 1 0)"
    by (rule run_worker(9) [OF r6]) simp_all
  have r8: "trap_step\<^sup>*\<^sup>* (trap_init 0 1) (?s (1) (Some 2) ((\<lambda>_. False)) [2, 1, 0] SwitchLoad (SigHook (Some 1)) 1 0)"
    by (rule run_worker(5) [OF r7]) simp_all
  have r9: "trap_step\<^sup>*\<^sup>* (trap_init 0 1) (?s (1) (Some 2) ((\<lambda>_. False)) [2, 1, 0] SwitchHook (SigHook (Some 1)) 1 0)"
    by (rule run_worker(7) [OF r8]) simp_all
  have r10: "trap_step\<^sup>*\<^sup>* (trap_init 0 1) (?s (1) (Some 2) ((\<lambda>_. False)(2 := True)) [2, 1, 0] Runs (SigHook (Some 1)) 1 0)"
    by (rule run_worker(8) [OF r9]) simp_all
  have r11: "trap_step\<^sup>*\<^sup>* (trap_init 0 1) (?s (1) (Some 2) ((\<lambda>_. False)(2 := True)) [2, 1, 0] HookEnter (SigHook (Some 1)) 1 0)"
    by (rule run_worker(1) [OF r10]) simp_all
  have r12: "trap_step\<^sup>*\<^sup>* (trap_init 0 1) (?s (1) (Some 2) ((\<lambda>_. False)(2 := True, 2 := False)) [2, 1, 0] HookLoad (SigHook (Some 1)) 1 0)"
    by (rule run_worker(2) [OF r11]) simp_all
  have r13: "trap_step\<^sup>*\<^sup>* (trap_init 0 1) (?s (1) (Some 2) ((\<lambda>_. False)(2 := True, 2 := False)) [2, 1, 0] HookStore (SigHook (Some 1)) 1 0)"
    by (rule run_worker(3) [OF r12]) simp_all
  have r14: "trap_step\<^sup>*\<^sup>* (trap_init 0 1) (?s (0) (Some 2) ((\<lambda>_. False)(2 := True, 2 := False)) [2, 1, 0] Runs (SigHook (Some 1)) 1 1)"
    by (rule run_worker(4) [OF r13]) simp_all
  have r15: "trap_step\<^sup>*\<^sup>* (trap_init 0 1) (?s (0) (Some 2) ((\<lambda>_. False)(2 := True, 2 := False)) [2, 1, 0] Resumed (SigHook (Some 1)) 1 1)"
    by (rule run_worker(10) [OF r14]) simp_all
  have r16: "trap_step\<^sup>*\<^sup>* (trap_init 0 1) (?s (0) (Some 2) ((\<lambda>_. False)(2 := True, 2 := False)) [1, 0] SwitchSet (SigHook (Some 1)) 1 1)"
    by (rule run_worker(11) [OF r15]) simp_all
  have r17: "trap_step\<^sup>*\<^sup>* (trap_init 0 1) (?s (0) (Some 1) ((\<lambda>_. False)(2 := True, 2 := False)) [1, 0] SwitchLoad (SigHook (Some 1)) 1 1)"
    by (rule run_worker(5) [OF r16]) simp_all
  have r18: "trap_step\<^sup>*\<^sup>* (trap_init 0 1) (?s (0) (Some 1) ((\<lambda>_. False)(2 := True, 2 := False)) [1, 0] Runs (SigHook (Some 1)) 1 1)"
    by (rule run_worker(6) [OF r17]) simp_all
  have r19: "trap_step\<^sup>*\<^sup>* (trap_init 0 1) (?s (0) (Some 1) ((\<lambda>_. False)(2 := True, 2 := False)) [1, 0] Resumed (SigHook (Some 1)) 1 1)"
    by (rule run_worker(10) [OF r18]) simp_all
  have r20: "trap_step\<^sup>*\<^sup>* (trap_init 0 1) (?s (0) (Some 1) ((\<lambda>_. False)(2 := True, 2 := False)) [0] SwitchSet (SigHook (Some 1)) 1 1)"
    by (rule run_worker(11) [OF r19]) simp_all
  show ?thesis by (intro exI [of _ "?s (0) (Some 1) ((\<lambda>_. False)(2 := True, 2 := False)) [0] SwitchSet (SigHook (Some 1)) 1 1"] conjI r20) simp_all
qed

text \<open>Before the first coroutine is resumed, \<open>activeL\<close> is NULL, and a signal sets the hook of NULL.\<close>

lemma hook_of_null: "\<exists>s. trap_step\<^sup>*\<^sup>* (trap_init 0 1) s \<and> tr_signals s = [SigHook None]"
proof -
  let ?s = "\<lambda>t a h c w g acc r. \<lparr>tr_trap = t, tr_activeL = a, tr_hooked = h, tr_chain = c, tr_worker = w,
    tr_signals = [g], tr_accepted = acc, tr_raised = r\<rparr>"
  have r0: "trap_step\<^sup>*\<^sup>* (trap_init 0 1) (?s (0) (None) ((\<lambda>_. False)) [0] Runs (Outside) 0 0)"
    by (simp add: trap_init_def)
  have r1: "trap_step\<^sup>*\<^sup>* (trap_init 0 1) (?s (0) (None) ((\<lambda>_. False)) [0] Runs (SigCas) 0 0)"
    by (rule run_signal(1) [OF r0, where i = 0]) simp_all
  have r2: "trap_step\<^sup>*\<^sup>* (trap_init 0 1) (?s (1) (None) ((\<lambda>_. False)) [0] Runs (SigRead) 1 0)"
    by (rule run_signal(2) [OF r1, where i = 0]) simp_all
  have r3: "trap_step\<^sup>*\<^sup>* (trap_init 0 1) (?s (1) (None) ((\<lambda>_. False)) [0] Runs (SigHook None) 1 0)"
    by (rule run_signal(3) [OF r2, where i = 0]) simp_all
  show ?thesis by (intro exI [of _ "?s (1) (None) ((\<lambda>_. False)) [0] Runs (SigHook None) 1 0"] conjI r3) simp_all
qed

end
