(* ===== verification/SnluaProfile.thy ===== *)
theory SnluaProfile
  imports Prelude Complex_Main
begin

text \<open>
  The profile and coroutine library of \<open>service-src/service_snlua.c\<close>: the thread clock, the two tables
  from coroutines to times, and the functions that resume coroutines. A \<open>double\<close> is the real number
  it stands for; the rounding of sums is not modelled. The stack of a \<open>lua_State\<close> is a list whose
  last element is the top; a coroutine is a number. What the interpreter answers is a parameter.
\<close>

section \<open>Time\<close>

text \<open>The answer of \<open>clock_gettime (CLOCK_THREAD_CPUTIME_ID)\<close>: \<open>tv_sec\<close> and \<open>tv_nsec\<close>.\<close>

type_synonym timespec = "int \<times> int"

definition NANOSEC :: real where "NANOSEC = 1000000000"

definition get_time :: "timespec \<Rightarrow> real" where
  "get_time ti = (let sec = fst ti AND 0xffff; nsec = snd ti in of_int sec + of_int nsec / NANOSEC)"

definition diff_time :: "real \<Rightarrow> timespec \<Rightarrow> real" where
  "diff_time start ti =
     (let now = get_time ti in if now < start then now + 0x10000 - start else now - start)"

section \<open>The tables\<close>

text \<open>Upvalue 1, from coroutines to start times, and upvalue 2, to total times.\<close>

record profile =
  pf_start :: "nat \<Rightarrow> real option"
  pf_total :: "nat \<Rightarrow> real option"

text \<open>\<open>timing_enable\<close> answers 0 without a start time, and otherwise 1 and the time.\<close>

definition timing_enable :: "profile \<Rightarrow> nat \<Rightarrow> real option" where
  "timing_enable p co = pf_start p co"

text \<open>\<open>lua_tonumber\<close> of a value that is absent is 0.\<close>

definition timing_total :: "profile \<Rightarrow> nat \<Rightarrow> real" where
  "timing_total p co = (case pf_total p co of None \<Rightarrow> 0 | Some t \<Rightarrow> t)"

text \<open>
  \<open>timing_resume\<close>; \<open>body\<close> is \<open>auxresume\<close> with all the Lua code it runs, which may use the library
  itself, \<open>t1\<close> and \<open>t2\<close> are the readings of the clock before and after it.
\<close>

definition timing_enter :: "timespec \<Rightarrow> nat \<Rightarrow> profile \<Rightarrow> profile" where
  "timing_enter t1 co p =
     (case timing_enable p co of
        None \<Rightarrow> p
      | Some _ \<Rightarrow> (let start_time = get_time t1 in p\<lparr>pf_start := (pf_start p)(co := Some start_time)\<rparr>))"

definition timing_leave :: "timespec \<Rightarrow> nat \<Rightarrow> profile \<Rightarrow> profile" where
  "timing_leave t2 co p =
     (case timing_enable p co of
        None \<Rightarrow> p
      | Some start_time \<Rightarrow>
          (let total_time = timing_total p co;
               diff = diff_time start_time t2;
               total_time = total_time + diff
           in p\<lparr>pf_total := (pf_total p)(co := Some total_time)\<rparr>))"

definition timing_resume ::
  "(profile \<Rightarrow> int \<times> profile) \<Rightarrow> timespec \<Rightarrow> timespec \<Rightarrow> nat \<Rightarrow> profile \<Rightarrow> int \<times> profile" where
  "timing_resume body t1 t2 co p =
     (let (r, p) = body (timing_enter t1 co p) in (r, timing_leave t2 co p))"

text \<open>The coroutine that \<open>lstart\<close> and \<open>lstop\<close> are about: the current one, the argument, or none.\<close>

datatype lua_value = LuaNil | LuaBool bool | LuaNumber real | LuaString string | LuaThread nat | LuaFunction nat

fun profiled :: "nat \<Rightarrow> lua_value list \<Rightarrow> nat option" where
  "profiled self [] = Some self"
| "profiled self (LuaThread co # args) = Some co"
| "profiled self (v # args) = None"

datatype profile_error = NotAThread | StartedTwice nat | StopBeforeStart

definition lstart :: "nat \<Rightarrow> lua_value list \<Rightarrow> timespec \<Rightarrow> profile \<Rightarrow> profile_error + profile" where
  "lstart self args ti p =
     (case profiled self args of
        None \<Rightarrow> Inl NotAThread
      | Some co \<Rightarrow>
          (case timing_enable p co of
             Some _ \<Rightarrow> Inl (StartedTwice co)
           | None \<Rightarrow>
               (let p = p\<lparr>pf_total := (pf_total p)(co := Some 0)\<rparr>;
                    start_time = get_time ti
                in Inr (p\<lparr>pf_start := (pf_start p)(co := Some start_time)\<rparr>))))"

definition lstop :: "nat \<Rightarrow> lua_value list \<Rightarrow> timespec \<Rightarrow> profile \<Rightarrow> profile_error + real \<times> profile" where
  "lstop self args t p =
     (case profiled self args of
        None \<Rightarrow> Inl NotAThread
      | Some co \<Rightarrow>
          (case timing_enable p co of
             None \<Rightarrow> Inl StopBeforeStart
           | Some start_time \<Rightarrow>
               (let ti = diff_time start_time t;
                    total_time = timing_total p co;
                    p = p\<lparr>pf_start := (pf_start p)(co := None)\<rparr>;
                    p = p\<lparr>pf_total := (pf_total p)(co := None)\<rparr>
                in Inr (total_time + ti, p))))"

section \<open>Coroutines\<close>

text \<open>
  What \<open>lua_resumeX\<close> ends with: the values returned or yielded, or an error. \<open>lua_checkstack\<close> may refuse
  to make room in the stack of the coroutine (\<open>room_co\<close>) and, for the results and one more, in the
  stack of the caller (\<open>room_l\<close>).
\<close>

datatype resumed = ResumeOk "lua_value list" | ResumeFailed lua_value

definition xmove :: "nat \<Rightarrow> lua_value list \<Rightarrow> lua_value list \<times> lua_value list" where
  "xmove n xs = (take (length xs - n) xs, drop (length xs - n) xs)"

definition auxresume ::
  "bool \<Rightarrow> (nat \<Rightarrow> bool) \<Rightarrow> (lua_value list \<Rightarrow> resumed) \<Rightarrow> nat \<Rightarrow> lua_value list \<Rightarrow> int \<times> lua_value list" where
  "auxresume room_co room_l resumeX narg L =
     (if \<not> room_co then (- 1, L @ [LuaString ''too many arguments to resume''])
      else let (L, args) = xmove narg L in
        case resumeX args of
          ResumeOk vs \<Rightarrow>
            (if \<not> room_l (length vs + 1) then (- 1, L @ [LuaString ''too many results to resume''])
             else (int (length vs), L @ vs))
        | ResumeFailed e \<Rightarrow> (- 1, L @ [e]))"

text \<open>\<open>lua_insert (L, - (n + 1))\<close>: the top value moves below the \<open>n\<close> values under it.\<close>

definition insert_below :: "nat \<Rightarrow> lua_value list \<Rightarrow> lua_value list" where
  "insert_below n xs =
     (let top = last xs; rest = butlast xs
      in take (length rest - n) rest @ [top] @ drop (length rest - n) rest)"

text \<open>
  \<open>luaB_coresume\<close>: its result is how many values at the top of the stack it returns; \<open>res\<close> is the
  result of \<open>timing_resume\<close> and the stack it leaves. \<open>None\<close>: the argument is not a coroutine.
\<close>

definition luaB_coresume ::
  "(nat \<Rightarrow> nat \<Rightarrow> lua_value list \<Rightarrow> int \<times> lua_value list) \<Rightarrow> lua_value list \<Rightarrow> (nat \<times> lua_value list) option" where
  "luaB_coresume timing L =
     (case L of
        LuaThread co # _ \<Rightarrow>
          (let (r, L) = timing co (length L - 1) L in
           if r < 0 then Some (2, insert_below 1 (L @ [LuaBool False]))
           else Some (nat (r + 1), insert_below (nat r) (L @ [LuaBool True])))
      | _ \<Rightarrow> None)"

text \<open>
  \<open>luaB_auxwrap\<close>: returns values, or raises the error at the top of the stack, to which \<open>luaL_where\<close>
  adds the position if it is a string; \<open>status\<close> is what \<open>lua_status\<close> says of the coroutine, 0 and 1
  being \<open>LUA_OK\<close> and \<open>LUA_YIELD\<close>. The flag says whether the coroutine is reset.
\<close>

definition luaB_auxwrap ::
  "(nat \<Rightarrow> nat \<Rightarrow> lua_value list \<Rightarrow> int \<times> lua_value list) \<Rightarrow> int \<Rightarrow> string \<Rightarrow> nat \<Rightarrow> lua_value list \<Rightarrow>
     bool \<times> (lua_value + nat \<times> lua_value list)" where
  "luaB_auxwrap timing status luaL_where co L =
     (let (r, L) = timing co (length L) L in
      if r < 0 then
        (status \<noteq> 0 \<and> status \<noteq> 1,
         Inl (case last L of LuaString e \<Rightarrow> LuaString (luaL_where @ e) | v \<Rightarrow> v))
      else (False, Inr (nat r, L)))"

text \<open>What the caller of a function gets: the values at the top of the stack.\<close>

definition returned :: "nat \<times> lua_value list \<Rightarrow> lua_value list" where
  "returned r = drop (length (snd r) - fst r) (snd r)"

section \<open>Elapsed time\<close>

text \<open>The time of a reading, and a reading that \<open>clock_gettime\<close> can answer.\<close>

definition seconds :: "timespec \<Rightarrow> real" where
  "seconds ti = of_int (fst ti) + of_int (snd ti) / NANOSEC"

definition valid_time :: "timespec \<Rightarrow> bool" where
  "valid_time ti \<longleftrightarrow> 0 \<le> fst ti \<and> 0 \<le> snd ti \<and> snd ti < 1000000000"

lemma get_time_mod: "get_time ti = of_int (fst ti mod 65536) + of_int (snd ti) / NANOSEC"
proof -
  have "fst ti AND 0xffff = take_bit 16 (fst ti)"
    using take_bit_eq_mask [of 16 "fst ti"] by (simp add: mask_eq_exp_minus_1)
  then show ?thesis by (simp add: get_time_def Let_def take_bit_eq_mod)
qed

lemma nanos: "valid_time ti \<Longrightarrow> 0 \<le> (of_int (snd ti) / NANOSEC :: real)"
  "valid_time ti \<Longrightarrow> (of_int (snd ti) / NANOSEC :: real) < 1"
  by (simp_all add: valid_time_def NANOSEC_def)

text \<open>\<open>diff_time\<close> measures any time of up to 65536 seconds, also when the 16 bits of \<open>get_time\<close> wrap.\<close>

lemma diff_time_elapsed:
  assumes v: "valid_time a" "valid_time b"
    and d: "0 \<le> seconds b - seconds a" "seconds b - seconds a < 65536"
  shows "diff_time (get_time a) b = seconds b - seconds a"
proof -
  define k where "k = fst b div 65536 - fst a div 65536"
  have a: "(of_int (fst a) :: real) = 65536 * of_int (fst a div 65536) + of_int (fst a mod 65536)"
    and b: "(of_int (fst b) :: real) = 65536 * of_int (fst b div 65536) + of_int (fst b mod 65536)"
    by (metis mult_div_mod_eq of_int_add of_int_mult of_int_numeral)+
  have r: "0 \<le> get_time a" "get_time a < 65536" "0 \<le> get_time b" "get_time b < 65536"
  proof -
    have "(of_int (fst t mod 65536) :: real) \<le> 65535" for t :: timespec
    proof -
      have "fst t mod 65536 \<le> 65535" using pos_mod_bound [of 65536 "fst t"] by linarith
      then have "(of_int (fst t mod 65536) :: real) \<le> of_int 65535" by (simp only: of_int_le_iff)
      then show ?thesis by simp
    qed
    from this [of a] this [of b] show "0 \<le> get_time a" "get_time a < 65536" "0 \<le> get_time b" "get_time b < 65536"
      using nanos [OF v(1)] nanos [OF v(2)] by (simp_all add: get_time_mod)
  qed
  have e: "seconds b - seconds a = get_time b - get_time a + 65536 * of_int k"
    using a b by (simp add: seconds_def get_time_mod k_def)
  have "- 1 < (of_int k :: real)" "(of_int k :: real) < 2" using e d r by linarith+
  then have "- 1 < k" "k < 2" by linarith+
  then consider "k = 0" | "k = 1" by linarith
  then show ?thesis
  proof cases
    case 1
    with e d show ?thesis by (simp add: diff_time_def Let_def)
  next
    case 2
    with e d show ?thesis by (simp add: diff_time_def Let_def)
  qed
qed

section \<open>The profile adds up\<close>

text \<open>A coroutine that is resumed several times, with the readings of the clock around each.\<close>

fun resumes :: "nat \<Rightarrow> ((profile \<Rightarrow> int \<times> profile) \<times> timespec \<times> timespec) list \<Rightarrow> profile \<Rightarrow> profile" where
  "resumes co [] p = p"
| "resumes co ((body, t1, t2) # rs) p = resumes co rs (snd (timing_resume body t1 t2 co p))"

text \<open>The Lua code does not itself start or stop the profile of the coroutine.\<close>

definition leaves_alone :: "nat \<Rightarrow> (profile \<Rightarrow> int \<times> profile) \<Rightarrow> bool" where
  "leaves_alone co body \<longleftrightarrow>
     (\<forall>p. pf_start (snd (body p)) co = pf_start p co \<and> pf_total (snd (body p)) co = pf_total p co)"

definition measured :: "timespec \<Rightarrow> timespec \<Rightarrow> bool" where
  "measured a b \<longleftrightarrow> valid_time a \<and> valid_time b \<and> 0 \<le> seconds b - seconds a \<and> seconds b - seconds a < 65536"

lemma diff_time_measured: "measured a b \<Longrightarrow> diff_time (get_time a) b = seconds b - seconds a"
  by (simp add: measured_def diff_time_elapsed)

lemma timing_enter_simps:
  assumes "pf_start p co = Some t"
  shows "pf_start (timing_enter t1 co p) co = Some (get_time t1)" "pf_total (timing_enter t1 co p) = pf_total p"
  using assms by (simp_all add: timing_enter_def timing_enable_def)

lemma timing_resume_counts:
  assumes "pf_start p co = Some t" and "leaves_alone co body" and "measured t1 t2"
  shows "pf_start (snd (timing_resume body t1 t2 co p)) co = Some (get_time t1)"
    and "timing_total (snd (timing_resume body t1 t2 co p)) co = timing_total p co + (seconds t2 - seconds t1)"
proof -
  obtain r q where q: "body (timing_enter t1 co p) = (r, q)" by fastforce
  have "pf_start q co = Some (get_time t1)" "pf_total q co = pf_total p co"
    using assms(2) timing_enter_simps [OF assms(1), of t1] q by (auto simp: leaves_alone_def dest: spec [of _ "timing_enter t1 co p"])
  then show "pf_start (snd (timing_resume body t1 t2 co p)) co = Some (get_time t1)"
    "timing_total (snd (timing_resume body t1 t2 co p)) co = timing_total p co + (seconds t2 - seconds t1)"
    by (simp_all add: timing_resume_def q timing_leave_def timing_enable_def timing_total_def
        diff_time_measured [OF assms(3)])
qed

lemma resumes_count:
  assumes "pf_start p co = Some t" and "\<forall>(body, t1, t2) \<in> set rs. leaves_alone co body \<and> measured t1 t2"
  shows "(\<exists>t'. pf_start (resumes co rs p) co = Some t') \<and>
    timing_total (resumes co rs p) co = timing_total p co + (\<Sum>(body, t1, t2) \<leftarrow> rs. seconds t2 - seconds t1)"
  using assms
proof (induction rs arbitrary: p t)
  case (Cons r rs)
  obtain body t1 t2 where r: "r = (body, t1, t2)" by (cases r) auto
  with Cons.prems(2) have "leaves_alone co body" "measured t1 t2" by auto
  note one = timing_resume_counts [OF Cons.prems(1) this]
  show ?case using Cons.IH [OF one(1)] Cons.prems(2) one(2) by (simp add: r)
qed simp

text \<open>C11 A profile measures what a coroutine itself runs: started at any time and stopped by the coroutine
  while it runs for the last time, \<open>stop\<close> returns the sum of the times between each resume and the
  following yield, plus the time since the last resume, whatever time passes in between, for stretches
  of up to 65536 seconds each, also across the wrap-around of the clock; the tables forget the coroutine.\<close>

theorem profile_measures:
  assumes "lstart self [LuaThread co] t0 p = Inr q"
    and "\<forall>(body, t1, t2) \<in> set rs. leaves_alone co body \<and> measured t1 t2"
    and "measured t1 t2"
  shows "\<exists>q'. lstop co [] t2 (timing_enter t1 co (resumes co rs q)) =
      Inr ((\<Sum>(body, t1, t2) \<leftarrow> rs. seconds t2 - seconds t1) + (seconds t2 - seconds t1), q')
    \<and> pf_start q' co = None \<and> pf_total q' co = None"
proof -
  have q: "pf_start q co = Some (get_time t0)" "timing_total q co = 0"
    using assms(1) by (auto simp: lstart_def timing_total_def split: option.splits)
  obtain t where t: "pf_start (resumes co rs q) co = Some t"
    and total: "timing_total (resumes co rs q) co = (\<Sum>(body, t1, t2) \<leftarrow> rs. seconds t2 - seconds t1)"
    using resumes_count [OF q(1) assms(2)] q(2) by auto
  show ?thesis
    using timing_enter_simps [OF t, of t1] total diff_time_measured [OF assms(3)]
    by (simp add: lstop_def timing_enable_def timing_total_def)
qed

text \<open>Two resumes of 3 and 2.5 seconds, the first across the wrap-around, and a last one of 1 second.\<close>

theorem profile_measures_witness:
  "\<exists>q q'. lstart 1 [LuaThread 2] (65530, 0) \<lparr>pf_start = \<lambda>_. None, pf_total = \<lambda>_. None\<rparr> = Inr q \<and>
     lstop 2 [] (65552, 500000000) (timing_enter (65551, 500000000) 2
       (resumes 2 [(\<lambda>p. (0, p), (65534, 0), (65537, 0)), (\<lambda>p. (1, p), (65540, 0), (65542, 500000000))] q)) =
     Inr (6.5, q')"
proof -
  let ?rs = "[(\<lambda>p. (0, p), (65534, 0), (65537, 0)), (\<lambda>p. (1, p), (65540, 0), (65542, 500000000))]
    :: ((profile \<Rightarrow> int \<times> profile) \<times> timespec \<times> timespec) list"
  obtain q where q: "lstart 1 [LuaThread 2] (65530, 0) \<lparr>pf_start = \<lambda>_. None, pf_total = \<lambda>_. None\<rparr> = Inr q"
    by (simp add: lstart_def timing_enable_def)
  have "\<forall>(body, t1, t2) \<in> set ?rs. leaves_alone 2 body \<and> measured t1 t2"
    by (simp add: leaves_alone_def measured_def valid_time_def seconds_def NANOSEC_def)
  moreover have "measured (65551, 500000000) (65552, 500000000)"
    by (simp add: measured_def valid_time_def seconds_def NANOSEC_def)
  ultimately have "\<exists>q'. lstop 2 [] (65552, 500000000) (timing_enter (65551, 500000000) 2 (resumes 2 ?rs q)) = Inr (6.5, q')"
    using profile_measures [OF q, of ?rs "(65551, 500000000)" "(65552, 500000000)"]
    by (auto simp: seconds_def NANOSEC_def)
  with q show ?thesis by blast
qed

text \<open>
  \<open>coroutine.resume\<close>: the caller gets \<open>true\<close> and the values of the coroutine, or \<open>false\<close> and the error.
\<close>

lemma coresume_returns:
  "\<exists>r. luaB_coresume (\<lambda>_. auxresume room_co room_l resumeX) (LuaThread co # args) = Some r \<and>
    returned r =
      (if \<not> room_co then [LuaBool False, LuaString ''too many arguments to resume'']
       else case resumeX args of
         ResumeFailed e \<Rightarrow> [LuaBool False, e]
       | ResumeOk vs \<Rightarrow>
           (if room_l (length vs + 1) then LuaBool True # vs
            else [LuaBool False, LuaString ''too many results to resume'']))"
proof -
  have n: "nat (int k + 1) = Suc k" for k by simp
  show ?thesis
    by (auto simp: luaB_coresume_def auxresume_def xmove_def returned_def insert_below_def Let_def butlast_append n
        split: resumed.splits)
qed

end
